theory Spec2Isabelle
  imports Main
begin

section \<open>The JSON-file-backed record stores of servidor/server/server.js\<close>

text \<open>
  The server keeps three arrays in memory (\<open>usuarios\<close>, \<open>publicaciones\<close>, \<open>likes\<close>)
  and mirrors each to a JSON file. Every route handler is embedded as a function from
  the state before the request to the response and the state after it.

  What the program takes from outside (Node's \<open>fs\<close> and \<open>path\<close> modules, \<open>JSON\<close>,
  \<open>bcryptjs\<close>, the clock, the environment) is a parameter of the model: the record
  \<open>env\<close> for the pure library functions and the directory constants, the record
  \<open>world\<close> for the disk and the console. What \<open>JSON.stringify\<close> and
  \<open>JSON.parse\<close> do with the three arrays is modelled as well, in a subsection of its
  own, for the property that depends on it.
\<close>

subsection \<open>Data\<close>

text \<open>
  \<open>None\<close> in a field of type \<open>string option\<close> is JavaScript's \<open>undefined\<close>: the value
  of a property that the request left out. \<open>===\<close> on two such fields is equality of
  the options.

  \<open>POST /api/likes\<close> stores the \<open>publication\<close> of the request as it is, and a body
  without one leaves \<open>undefined\<close> in the array (\<open>null\<close> once it was written and read
  back). \<open>None\<close> in \<open>likedPublications\<close> is such a record: it has no properties, and
  reading one of it throws a TypeError.
\<close>

record user =
  username :: string
  password :: string

record post =
  imagePath :: "string option"
  imageName :: "string option"
  description :: "string option"
  username :: "string option"
  timestamp :: "int option"

record like_entry =
  username :: "string option"
  likedPublications :: "post option list"

subsection \<open>The disk and the console\<close>

datatype node = File string | Directory

datatype fs_call =
    MkdirSync string
  | WriteFileSync string
  | ReadFileSync string
  | UnlinkSync string

text \<open>One constructor for each line the program prints.\<close>

datatype console_line =
    Archivo_creado string
  | Datos_cargados_exitosamente_de string
  | Error_leyendo string
  | Datos_guardados_exitosamente_en string
  | Error_escribiendo string
  | Error_al_crear_usuario
  | Error_en_login
  | Error_al_eliminar_publicacion

text \<open>
  \<open>nodes\<close> is what exists at each path. \<open>throws\<close> says which calls of the \<open>fs\<close> module
  fail for a reason outside the program (permissions, a full disk); a call on a node of
  the wrong kind fails in any case.
\<close>

record world =
  nodes :: "string \<Rightarrow> node option"
  throws :: "fs_call \<Rightarrow> bool"
  console :: "console_line list"

definition console_log :: "console_line \<Rightarrow> world \<Rightarrow> world" where
  "console_log l w = w\<lparr>console := console w @ [l]\<rparr>"

definition existsSync :: "world \<Rightarrow> string \<Rightarrow> bool" where
  "existsSync w p = (nodes w p \<noteq> None)"

text \<open>The \<open>fs\<close> calls that can throw return \<open>None\<close> when they do.\<close>

definition mkdirSync :: "world \<Rightarrow> string \<Rightarrow> world option" where
  "mkdirSync w d =
     (if throws w (MkdirSync d) then None
      else Some (w\<lparr>nodes := (nodes w)(d \<mapsto> Directory)\<rparr>))"

definition writeFileSync :: "world \<Rightarrow> string \<Rightarrow> string \<Rightarrow> world option" where
  "writeFileSync w p s =
     (if throws w (WriteFileSync p) \<or> nodes w p = Some Directory then None
      else Some (w\<lparr>nodes := (nodes w)(p \<mapsto> File s)\<rparr>))"

definition readFileSync :: "world \<Rightarrow> string \<Rightarrow> string option" where
  "readFileSync w p =
     (if throws w (ReadFileSync p) then None
      else case nodes w p of Some (File s) \<Rightarrow> Some s | _ \<Rightarrow> None)"

definition unlinkSync :: "world \<Rightarrow> string \<Rightarrow> world option" where
  "unlinkSync w p =
     (if throws w (UnlinkSync p) then None
      else case nodes w p of
             Some (File s) \<Rightarrow> Some (w\<lparr>nodes := (nodes w)(p := None)\<rparr>)
           | _ \<Rightarrow> None)"

subsection \<open>Library functions and constants\<close>

text \<open>
  \<open>JSON.stringify\<close> and \<open>JSON.parse\<close> at the three record types (\<open>None\<close>: a
  SyntaxError), \<open>bcrypt.hash\<close> and \<open>bcrypt.compare\<close> (\<open>None\<close>: the promise is
  rejected), \<open>path.join\<close> and \<open>path.dirname\<close>, and the two directories computed at
  start-up from the environment.
\<close>

record env =
  stringify_usuarios :: "user list \<Rightarrow> string"
  stringify_publicaciones :: "post list \<Rightarrow> string"
  stringify_likes :: "like_entry list \<Rightarrow> string"
  parse_usuarios :: "string \<Rightarrow> user list option"
  parse_publicaciones :: "string \<Rightarrow> post list option"
  parse_likes :: "string \<Rightarrow> like_entry list option"
  bcrypt_hash :: "string \<Rightarrow> nat \<Rightarrow> string option"
  bcrypt_compare :: "string \<Rightarrow> string \<Rightarrow> bool option"
  path_join :: "string \<Rightarrow> string \<Rightarrow> string"
  path_dirname :: "string \<Rightarrow> string"
  DATA_DIR :: string
  UPLOADS_DIR :: string

definition usuariosFilePath :: "env \<Rightarrow> string" where
  "usuariosFilePath E = path_join E (DATA_DIR E) ''usuarios.json''"

definition publicacionesFilePath :: "env \<Rightarrow> string" where
  "publicacionesFilePath E = path_join E (DATA_DIR E) ''publicaciones.json''"

definition likesFilePath :: "env \<Rightarrow> string" where
  "likesFilePath E = path_join E (DATA_DIR E) ''likes.json''"

subsection \<open>readJsonFile and writeJsonFile\<close>

text \<open>
  \<open>writeJsonFile\<close> (lines 59 to 70): the whole body is inside \<open>try\<close>, so a failing
  \<open>mkdirSync\<close> or \<open>writeFileSync\<close> ends in the \<open>catch\<close>, which prints and returns.
\<close>

definition writeJsonFile :: "env \<Rightarrow> ('a \<Rightarrow> string) \<Rightarrow> world \<Rightarrow> string \<Rightarrow> 'a \<Rightarrow> world" where
  "writeJsonFile E stringify w filePath data =
     (let dirName = path_dirname E filePath in
      case (if \<not> existsSync w dirName then mkdirSync w dirName else Some w) of
        None \<Rightarrow> console_log (Error_escribiendo filePath) w
      | Some w1 \<Rightarrow>
         (case writeFileSync w1 filePath (stringify data) of
            None \<Rightarrow> console_log (Error_escribiendo filePath) w1
          | Some w2 \<Rightarrow> console_log (Datos_guardados_exitosamente_en filePath) w2))"

text \<open>
  \<open>readJsonFile\<close> (lines 43 to 57). The result is the data and the world after the
  call.
\<close>

definition readJsonFile ::
  "env \<Rightarrow> ('r list \<Rightarrow> string) \<Rightarrow> (string \<Rightarrow> 'r list option) \<Rightarrow> world \<Rightarrow> string
     \<Rightarrow> 'r list \<times> world" where
  "readJsonFile E stringify parse w filePath =
     (if \<not> existsSync w filePath then
        ([], console_log (Archivo_creado filePath) (writeJsonFile E stringify w filePath []))
      else
        case readFileSync w filePath of
          None \<Rightarrow> ([], console_log (Error_leyendo filePath) w)
        | Some text \<Rightarrow>
           (case parse text of
              None \<Rightarrow> ([], console_log (Error_leyendo filePath) w)
            | Some data \<Rightarrow> (data, console_log (Datos_cargados_exitosamente_de filePath) w)))"

subsection \<open>The state of the server\<close>

record server =
  usuarios :: "user list"
  publicaciones :: "post list"
  likes :: "like_entry list"
  world :: world

text \<open>Lines 73 to 75: the three arrays are read from their files at start-up.\<close>

definition boot :: "env \<Rightarrow> world \<Rightarrow> server" where
  "boot E w =
     (let (us, w1) = readJsonFile E (stringify_usuarios E) (parse_usuarios E) w (usuariosFilePath E);
          (ps, w2) = readJsonFile E (stringify_publicaciones E) (parse_publicaciones E) w1
                       (publicacionesFilePath E);
          (ls, w3) = readJsonFile E (stringify_likes E) (parse_likes E) w2 (likesFilePath E)
      in \<lparr>usuarios = us, publicaciones = ps, likes = ls, world = w3\<rparr>)"

subsection \<open>Array helpers\<close>

text \<open>\<open>Array.prototype.findIndex\<close>, with \<open>None\<close> for \<open>-1\<close>.\<close>

fun findIndex :: "('a \<Rightarrow> bool) \<Rightarrow> 'a list \<Rightarrow> nat option" where
  "findIndex P [] = None"
| "findIndex P (x # xs) =
     (if P x then Some 0 else map_option Suc (findIndex P xs))"

text \<open>\<open>xs.splice(i, 1)\<close>: the array without its element at index \<open>i\<close>.\<close>

definition splice1 :: "nat \<Rightarrow> 'a list \<Rightarrow> 'a list" where
  "splice1 i xs = take i xs @ drop (Suc i) xs"

text \<open>
  The test of lines 185, 246 and 270:
  \<open>pub.imagePath === publication.imagePath && pub.imageName === publication.imageName\<close>.
\<close>

definition same_key :: "post \<Rightarrow> post \<Rightarrow> bool" where
  "same_key publication pub =
     (imagePath pub = imagePath publication \<and> imageName pub = imageName publication)"

text \<open>
  The same test as the callback of \<open>some\<close> (line 245) and \<open>findIndex\<close> (line 270)
  over the liked records of a user, where the record or the \<open>publication\<close> of the
  request can be \<open>undefined\<close>: reading \<open>imagePath\<close> of either then throws a
  TypeError, which is the result \<open>None\<close>.
\<close>

definition key_test :: "post option \<Rightarrow> post option \<Rightarrow> bool option" where
  "key_test publication likedPub =
     (case likedPub of
        None \<Rightarrow> None
      | Some pub \<Rightarrow>
         (case publication of
            None \<Rightarrow> None
          | Some wanted \<Rightarrow> Some (same_key wanted pub)))"

text \<open>The callback of \<open>filter\<close> (lines 207 to 209), which keeps the other records.\<close>

definition keep_test :: "post \<Rightarrow> post option \<Rightarrow> bool option" where
  "keep_test publication likePublication =
     (case likePublication of
        None \<Rightarrow> None
      | Some pub \<Rightarrow>
          Some (imagePath pub \<noteq> imagePath publication \<or> imageName pub \<noteq> imageName publication))"

text \<open>
  \<open>Array.prototype.some\<close>, \<open>findIndex\<close> and \<open>filter\<close> with a callback that can throw:
  the elements are visited in order, and the exception of the callback leaves the method
  at once (the outer \<open>None\<close>).
\<close>

fun some_t :: "('a \<Rightarrow> bool option) \<Rightarrow> 'a list \<Rightarrow> bool option" where
  "some_t f [] = Some False"
| "some_t f (x # xs) =
     (case f x of
        None \<Rightarrow> None
      | Some b \<Rightarrow> if b then Some True else some_t f xs)"

fun findIndex_t :: "('a \<Rightarrow> bool option) \<Rightarrow> 'a list \<Rightarrow> nat option option" where
  "findIndex_t f [] = Some None"
| "findIndex_t f (x # xs) =
     (case f x of
        None \<Rightarrow> None
      | Some b \<Rightarrow> if b then Some (Some 0) else map_option (map_option Suc) (findIndex_t f xs))"

fun filter_t :: "('a \<Rightarrow> bool option) \<Rightarrow> 'a list \<Rightarrow> 'a list option" where
  "filter_t f [] = Some []"
| "filter_t f (x # xs) =
     (case f x of
        None \<Rightarrow> None
      | Some b \<Rightarrow> map_option (\<lambda>ys. if b then x # ys else ys) (filter_t f xs))"

text \<open>\<open>s.split('/').pop()\<close>: what follows the last slash of \<open>s\<close>.\<close>

definition last_segment :: "string \<Rightarrow> string" where
  "last_segment s = rev (takeWhile (\<lambda>c. c \<noteq> CHR ''/'') (rev s))"

subsection \<open>Responses\<close>

datatype message =
    Username_y_password_son_requeridos
  | El_usuario_ya_existe
  | Usuario_creado_exitosamente
  | Error_al_crear_el_usuario
  | El_usuario_no_existe
  | Inicio_de_sesion_exitoso
  | Contrasena_incorrecta
  | Error_al_verificar_la_contrasena
  | Error_al_subir_la_imagen
  | Imagen_subida_exitosamente
  | Publicacion_no_encontrada
  | Publicacion_eliminada_exitosamente
  | Error_al_eliminar_la_publicacion
  | El_usuario_no_tiene_publicaciones_con_like
  | La_publicacion_ya_esta_guardada
  | Publicacion_guardada_exitosamente
  | No_se_encontro_el_usuario
  | No_se_encontro_la_publicacion_en_los_likes_del_usuario
  | Like_eliminado_exitosamente

datatype body =
    Message message
  | Nueva_publicacion message post
  | Usuarios "user list"
  | Publicaciones "post list"
  | Liked "post option list"
  | Uncaught_exception

type_synonym response = "nat \<times> body"

subsection \<open>User routes\<close>

text \<open>
  A variable that holds a field of \<open>req.body\<close> is written \<open>req_username\<close>,
  \<open>req_password\<close>, and so on, where the source writes \<open>username\<close>, \<open>password\<close>:
  the plain names are the fields of the records above.

  \<open>!x\<close> for a field \<open>x\<close> of a request body that is a string or missing: true for
  \<open>undefined\<close> and for the empty string.
\<close>

definition falsy :: "string option \<Rightarrow> bool" where
  "falsy x = (x = None \<or> x = Some [])"

text \<open>\<open>GET /api/usuarios\<close> (lines 103 to 105).\<close>

definition get_api_usuarios :: "server \<Rightarrow> response \<times> server" where
  "get_api_usuarios st = ((200, Usuarios (usuarios st)), st)"

text \<open>
  \<open>POST /api/usuarios\<close> (lines 107 to 128) is an \<open>async\<close> function: it runs up to
  \<open>await bcrypt.hash\<close> (line 120), gives way there to whatever other request is
  waiting, and goes on when the hash is there. The two parts are embedded one by one.

  The first part (lines 108 to 120) changes nothing. It answers (\<open>Inl\<close>), or it leaves
  a hash to wait for (\<open>Inr\<close>, with the username and the password, which past the test
  of line 110 are non-empty strings: \<open>the\<close> takes them out of their \<open>Some\<close>).
\<close>

definition post_api_usuarios_until_await ::
  "server \<Rightarrow> string option \<Rightarrow> string option \<Rightarrow> response + string \<times> string" where
  "post_api_usuarios_until_await st req_username req_password =
     (if falsy req_username \<or> falsy req_password then
        Inl (400, Message Username_y_password_son_requeridos)
      else
        case find (\<lambda>u. Some (user.username u) = req_username) (usuarios st) of
          Some existingUser \<Rightarrow> Inl (400, Message El_usuario_ya_existe)
        | None \<Rightarrow> Inr (the req_username, the req_password))"

text \<open>
  The second part (lines 120 to 127), on the state the server is in when the hash
  arrives.
\<close>

definition post_api_usuarios_after_await ::
  "env \<Rightarrow> server \<Rightarrow> string \<times> string \<Rightarrow> response \<times> server" where
  "post_api_usuarios_after_await E st waiting =
     (case bcrypt_hash E (snd waiting) 10 of
        None \<Rightarrow>
          ((500, Message Error_al_crear_el_usuario),
           st\<lparr>world := console_log Error_al_crear_usuario (world st)\<rparr>)
      | Some hashedPassword \<Rightarrow>
          (let usuarios' = usuarios st @
                 [\<lparr>user.username = fst waiting, password = hashedPassword\<rparr>];
               w = writeJsonFile E (stringify_usuarios E) (world st)
                     (usuariosFilePath E) usuarios'
           in ((201, Message Usuario_creado_exitosamente),
               st\<lparr>usuarios := usuarios', world := w\<rparr>)))"

text \<open>
  The whole handler when no other request is handled between its two parts: the second
  part runs on the state the first part saw.
\<close>

definition post_api_usuarios ::
  "env \<Rightarrow> server \<Rightarrow> string option \<Rightarrow> string option \<Rightarrow> response \<times> server" where
  "post_api_usuarios E st req_username req_password =
     (case post_api_usuarios_until_await st req_username req_password of
        Inl answer \<Rightarrow> (answer, st)
      | Inr waiting \<Rightarrow> post_api_usuarios_after_await E st waiting)"

text \<open>
  \<open>POST /api/login\<close> (lines 130 to 149). \<open>bcrypt.compare\<close> rejects a password
  that is not a string.
\<close>

definition post_api_login ::
  "env \<Rightarrow> server \<Rightarrow> string option \<Rightarrow> string option \<Rightarrow> response \<times> server" where
  "post_api_login E st req_username req_password =
     (case find (\<lambda>u. Some (user.username u) = req_username) (usuarios st) of
        None \<Rightarrow> ((400, Message El_usuario_no_existe), st)
      | Some user \<Rightarrow>
         (case Option.bind req_password (\<lambda>p. bcrypt_compare E p (user.password user)) of
            None \<Rightarrow>
              ((500, Message Error_al_verificar_la_contrasena),
               st\<lparr>world := console_log Error_en_login (world st)\<rparr>)
          | Some match \<Rightarrow>
              (if match then ((200, Message Inicio_de_sesion_exitoso), st)
               else ((400, Message Contrasena_incorrecta), st))))"

subsection \<open>Post routes\<close>

text \<open>\<open>GET /api/publicaciones\<close> (lines 152 to 154).\<close>

definition get_api_publicaciones :: "server \<Rightarrow> response \<times> server" where
  "get_api_publicaciones st = ((200, Publicaciones (publicaciones st)), st)"

definition baseUrl :: string where
  "baseUrl = ''https://servidor-c1k2.onrender.com''"

text \<open>
  \<open>POST /api/upload\<close> (lines 156 to 179). \<open>file\<close> is \<open>req.file.filename\<close>, the name
  under which the upload middleware stored the image, or \<open>None\<close> when the request had
  no file; \<open>now\<close> is the value of \<open>Date.now()\<close>.
\<close>

definition post_api_upload ::
  "env \<Rightarrow> int \<Rightarrow> server \<Rightarrow> string option \<Rightarrow> string option \<Rightarrow> string option \<Rightarrow> string option
     \<Rightarrow> response \<times> server" where
  "post_api_upload E now st file req_username req_description req_imageName =
     (case file of
        None \<Rightarrow> ((400, Message Error_al_subir_la_imagen), st)
      | Some filename \<Rightarrow>
         (let nuevaPublicacion =
                \<lparr>imagePath = Some (baseUrl @ ''/uploads/'' @ filename),
                 imageName = req_imageName,
                 description = req_description,
                 post.username = req_username,
                 timestamp = Some now\<rparr>;
              publicaciones' = publicaciones st @ [nuevaPublicacion];
              w = writeJsonFile E (stringify_publicaciones E) (world st)
                    (publicacionesFilePath E) publicaciones'
          in ((201, Nueva_publicacion Imagen_subida_exitosamente nuevaPublicacion),
              st\<lparr>publicaciones := publicaciones', world := w\<rparr>)))"

text \<open>
  The \<open>forEach\<close> of lines 206 to 210: one entry after the other gets its liked records
  filtered. When the callback throws on a record, the entries before that one have been
  filtered, that one and the ones after it are as they were, and the exception leaves
  the \<open>forEach\<close>: the result is the array as it then is, and whether that happened.
\<close>

fun unlike_everywhere :: "post \<Rightarrow> like_entry list \<Rightarrow> like_entry list \<times> bool" where
  "unlike_everywhere publication [] = ([], False)"
| "unlike_everywhere publication (like # rest) =
     (case filter_t (keep_test publication) (likedPublications like) of
        None \<Rightarrow> (like # rest, True)
      | Some kept \<Rightarrow>
         (case unlike_everywhere publication rest of
            (rest', threw) \<Rightarrow> (like\<lparr>likedPublications := kept\<rparr> # rest', threw)))"

text \<open>
  \<open>DELETE /api/publicaciones\<close> (lines 181 to 220). \<open>username\<close> of the body is read
  and never used.

  A body without \<open>publication\<close> makes the callback of \<open>findIndex\<close> (line 185) throw
  as soon as it runs, that is when \<open>publicaciones\<close> is not empty; this is outside the
  \<open>try\<close>, and the framework answers 500.

  Inside the \<open>try\<close>, \<open>publication.imagePath.split\<close> throws a TypeError when
  \<open>imagePath\<close> is \<open>undefined\<close>, and \<open>unlinkSync\<close> can throw: both before anything
  was removed. The \<open>forEach\<close> over \<open>likes\<close> can throw too, after the image was
  unlinked and the post spliced out. The \<open>catch\<close> answers 500 in every case and
  writes nothing.
\<close>

definition delete_api_publicaciones ::
  "env \<Rightarrow> server \<Rightarrow> post option \<Rightarrow> response \<times> server" where
  "delete_api_publicaciones E st req_publication =
     (case req_publication of
        None \<Rightarrow>
          (if publicaciones st = [] then ((404, Message Publicacion_no_encontrada), st)
           else ((500, Uncaught_exception), st))
      | Some publication \<Rightarrow>
         (case findIndex (same_key publication) (publicaciones st) of
            None \<Rightarrow> ((404, Message Publicacion_no_encontrada), st)
          | Some publicationIndex \<Rightarrow>
             (let failed = ((500, Message Error_al_eliminar_la_publicacion),
                            st\<lparr>world := console_log Error_al_eliminar_publicacion (world st)\<rparr>)
              in case imagePath publication of
                   None \<Rightarrow> failed
                 | Some path \<Rightarrow>
                    (let fileName = last_segment path;
                         filePath = path_join E (UPLOADS_DIR E) fileName
                     in case (if existsSync (world st) filePath
                              then unlinkSync (world st) filePath else Some (world st)) of
                          None \<Rightarrow> failed
                        | Some w1 \<Rightarrow>
                           (let publicaciones' = splice1 publicationIndex (publicaciones st);
                                (likes', threw) = unlike_everywhere publication (likes st)
                            in if threw then
                                 ((500, Message Error_al_eliminar_la_publicacion),
                                  st\<lparr>publicaciones := publicaciones', likes := likes',
                                     world := console_log Error_al_eliminar_publicacion w1\<rparr>)
                               else
                                 (let w2 = writeJsonFile E (stringify_publicaciones E) w1
                                             (publicacionesFilePath E) publicaciones';
                                      w3 = writeJsonFile E (stringify_likes E) w2
                                             (likesFilePath E) likes'
                                  in ((200, Message Publicacion_eliminada_exitosamente),
                                      st\<lparr>publicaciones := publicaciones', likes := likes',
                                         world := w3\<rparr>)))))))"

subsection \<open>Like routes\<close>

text \<open>\<open>GET /api/likes/:username\<close> (lines 223 to 232).\<close>

definition get_api_likes :: "server \<Rightarrow> string option \<Rightarrow> response \<times> server" where
  "get_api_likes st req_username =
     (case find (\<lambda>like. like_entry.username like = req_username) (likes st) of
        None \<Rightarrow> ((404, Message El_usuario_no_tiene_publicaciones_con_like), st)
      | Some userLikes \<Rightarrow> ((200, Liked (likedPublications userLikes)), st))"

text \<open>
  \<open>POST /api/likes\<close> (lines 234 to 258). \<open>userLikes\<close> is a reference to an element
  of \<open>likes\<close>: the model keeps its index, and the \<open>push\<close> of line 254 is an update of
  \<open>likes\<close> at that index. The entry pushed at line 241 stays in \<open>likes\<close> on every
  path that follows. The callback of \<open>some\<close> throws outside any \<open>try\<close>, and the
  framework answers 500. Nothing tests that the body has a \<open>publication\<close>: line 254
  pushes what there is.
\<close>

definition post_api_likes ::
  "env \<Rightarrow> server \<Rightarrow> string option \<Rightarrow> post option \<Rightarrow> response \<times> server" where
  "post_api_likes E st req_username publication =
     (let (likes1, i) =
            (case findIndex (\<lambda>like. like_entry.username like = req_username) (likes st) of
               None \<Rightarrow>
                 (likes st @ [\<lparr>like_entry.username = req_username, likedPublications = []\<rparr>],
                  length (likes st))
             | Some i \<Rightarrow> (likes st, i));
          userLikes = likes1 ! i
      in case some_t (key_test publication) (likedPublications userLikes) of
           None \<Rightarrow> ((500, Uncaught_exception), st\<lparr>likes := likes1\<rparr>)
         | Some alreadyLiked \<Rightarrow>
            (if alreadyLiked then
               ((400, Message La_publicacion_ya_esta_guardada), st\<lparr>likes := likes1\<rparr>)
             else
               (let likes2 = likes1[i := userLikes\<lparr>likedPublications :=
                                        likedPublications userLikes @ [publication]\<rparr>];
                    w = writeJsonFile E (stringify_likes E) (world st) (likesFilePath E) likes2
                in ((201, Message Publicacion_guardada_exitosamente),
                    st\<lparr>likes := likes2, world := w\<rparr>))))"

text \<open>
  \<open>DELETE /api/likes\<close> (lines 260 to 281). The callback of \<open>findIndex\<close> (line 270)
  throws outside any \<open>try\<close>.
\<close>

definition delete_api_likes ::
  "env \<Rightarrow> server \<Rightarrow> string option \<Rightarrow> post option \<Rightarrow> response \<times> server" where
  "delete_api_likes E st req_username publication =
     (case findIndex (\<lambda>like. like_entry.username like = req_username) (likes st) of
        None \<Rightarrow> ((404, Message No_se_encontro_el_usuario), st)
      | Some i \<Rightarrow>
         (let userLikes = likes st ! i in
          case findIndex_t (key_test publication) (likedPublications userLikes) of
            None \<Rightarrow> ((500, Uncaught_exception), st)
          | Some None \<Rightarrow>
              ((404, Message No_se_encontro_la_publicacion_en_los_likes_del_usuario), st)
          | Some (Some publicationIndex) \<Rightarrow>
             (let likes' = (likes st)[i := userLikes\<lparr>likedPublications :=
                               splice1 publicationIndex (likedPublications userLikes)\<rparr>];
                  w = writeJsonFile E (stringify_likes E) (world st) (likesFilePath E) likes'
              in ((200, Message Like_eliminado_exitosamente),
                  st\<lparr>likes := likes', world := w\<rparr>))))"

subsection \<open>Requests\<close>

text \<open>
  One constructor for each route that reads or changes one of the three arrays, with
  the fields of the request that the handler reads; \<open>POST_upload\<close> also carries the
  value that \<open>Date.now()\<close> returns while the request is handled.

  \<open>POST_usuarios\<close> is a registration that no other request interrupts.
  \<open>POST_usuarios_after_await\<close> is the second part of a registration whose first part
  ran earlier and found the username free: the moment its hash arrives, with other
  requests handled in between.
\<close>

datatype request =
    GET_usuarios
  | POST_usuarios "string option" "string option"
  | POST_usuarios_after_await string string
  | POST_login "string option" "string option"
  | GET_publicaciones
  | POST_upload int "string option" "string option" "string option" "string option"
  | DELETE_publicaciones "post option"
  | GET_likes "string option"
  | POST_likes "string option" "post option"
  | DELETE_likes "string option" "post option"

fun handle :: "env \<Rightarrow> server \<Rightarrow> request \<Rightarrow> response \<times> server" where
  "handle E st GET_usuarios = get_api_usuarios st"
| "handle E st (POST_usuarios req_username req_password) =
     post_api_usuarios E st req_username req_password"
| "handle E st (POST_usuarios_after_await req_username req_password) =
     post_api_usuarios_after_await E st (req_username, req_password)"
| "handle E st (POST_login req_username req_password) =
     post_api_login E st req_username req_password"
| "handle E st GET_publicaciones = get_api_publicaciones st"
| "handle E st (POST_upload now file req_username req_description req_imageName) =
     post_api_upload E now st file req_username req_description req_imageName"
| "handle E st (DELETE_publicaciones publication) = delete_api_publicaciones E st publication"
| "handle E st (GET_likes req_username) = get_api_likes st req_username"
| "handle E st (POST_likes req_username publication) =
     post_api_likes E st req_username publication"
| "handle E st (DELETE_likes req_username publication) =
     delete_api_likes E st req_username publication"

text \<open>
  The states the server can be in after any sequence of requests, interleaved
  registrations and bodies without \<open>publication\<close> among them, when it started with
  three empty arrays.
\<close>

definition empty_state :: "world \<Rightarrow> server" where
  "empty_state w = \<lparr>usuarios = [], publicaciones = [], likes = [], world = w\<rparr>"

inductive reachable :: "env \<Rightarrow> server \<Rightarrow> bool" for E :: env where
  start: "reachable E (empty_state w)"
| step: "reachable E st \<Longrightarrow> reachable E (snd (handle E st rq))"

subsection \<open>The earlier revision of the server\<close>

text \<open>
  The repository holds a second, older copy of the server (the file
  \<open>unnamed/part_000\<close>). Its routes have the same names; where a function of it is
  embedded, the name carries the suffix \<open>_0\<close>. It differs from \<open>server.js\<close> in what
  follows, and only that is embedded here.

  \<open>readJsonFile\<close> (lines 26 to 31) does not create a missing file and catches
  nothing: the result is \<open>None\<close> when \<open>readFileSync\<close> or \<open>JSON.parse\<close> throws.
  \<open>writeJsonFile\<close> (lines 34 to 36) is \<open>writeFileSync\<close> alone, and throws when it
  does.
\<close>

definition readJsonFile_0 :: "(string \<Rightarrow> 'r list option) \<Rightarrow> world \<Rightarrow> string \<Rightarrow> 'r list option" where
  "readJsonFile_0 parse w filePath =
     (if \<not> existsSync w filePath then Some []
      else case readFileSync w filePath of
             None \<Rightarrow> None
           | Some text \<Rightarrow> parse text)"

definition writeJsonFile_0 :: "('a \<Rightarrow> string) \<Rightarrow> world \<Rightarrow> string \<Rightarrow> 'a \<Rightarrow> world option" where
  "writeJsonFile_0 stringify w filePath data = writeFileSync w filePath (stringify data)"

text \<open>
  \<open>POST /api/usuarios\<close> (lines 82 to 102) for a body whose \<open>username\<close> and
  \<open>password\<close> are strings: there is no test of the two fields, and the \<open>catch\<close>
  also receives a failed write, after the \<open>push\<close>.
\<close>

definition post_api_usuarios_0 :: "env \<Rightarrow> server \<Rightarrow> string \<Rightarrow> string \<Rightarrow> response \<times> server" where
  "post_api_usuarios_0 E st req_username req_password =
     (case find (\<lambda>u. user.username u = req_username) (usuarios st) of
        Some existingUser \<Rightarrow> ((400, Message El_usuario_ya_existe), st)
      | None \<Rightarrow>
         (case bcrypt_hash E req_password 10 of
            None \<Rightarrow> ((500, Message Error_al_crear_el_usuario), st)
          | Some hashedPassword \<Rightarrow>
             (let usuarios' = usuarios st @
                    [\<lparr>user.username = req_username, password = hashedPassword\<rparr>]
              in case writeJsonFile_0 (stringify_usuarios E) (world st)
                        (usuariosFilePath E) usuarios' of
                   None \<Rightarrow>
                     ((500, Message Error_al_crear_el_usuario), st\<lparr>usuarios := usuarios'\<rparr>)
                 | Some w \<Rightarrow>
                     ((201, Message Usuario_creado_exitosamente),
                      st\<lparr>usuarios := usuarios', world := w\<rparr>))))"

text \<open>
  \<open>POST /api/upload\<close> (lines 146 to 168): the image path is built from the \<open>Host\<close>
  header of the request, and the post has no \<open>timestamp\<close>. A failed write is not
  caught by the handler: the answer is then the 500 of the framework.
\<close>

definition post_api_upload_0 ::
  "env \<Rightarrow> string \<Rightarrow> server \<Rightarrow> string option \<Rightarrow> string option \<Rightarrow> string option \<Rightarrow> string option
     \<Rightarrow> response \<times> server" where
  "post_api_upload_0 E host st file req_username req_description req_imageName =
     (case file of
        None \<Rightarrow> ((400, Message Error_al_subir_la_imagen), st)
      | Some filename \<Rightarrow>
         (let nuevaPublicacion =
                \<lparr>imagePath = Some (''http://'' @ host @ ''/uploads/'' @ filename),
                 imageName = req_imageName,
                 description = req_description,
                 post.username = req_username,
                 timestamp = None\<rparr>;
              publicaciones' = publicaciones st @ [nuevaPublicacion]
          in case writeJsonFile_0 (stringify_publicaciones E) (world st)
                    (publicacionesFilePath E) publicaciones' of
               None \<Rightarrow> ((500, Uncaught_exception), st\<lparr>publicaciones := publicaciones'\<rparr>)
             | Some w \<Rightarrow>
                 ((201, Nueva_publicacion Imagen_subida_exitosamente nuevaPublicacion),
                  st\<lparr>publicaciones := publicaciones', world := w\<rparr>)))"

subsection \<open>When a write reaches the disk\<close>

text \<open>
  \<open>writeJsonFile\<close> hides a failed write from its caller. \<open>write_accepted\<close> is the
  condition on the disk under which no call inside its \<open>try\<close> throws: the directory
  exists or can be made, the file can be written, and the path is not a directory.
\<close>

definition write_accepted :: "env \<Rightarrow> world \<Rightarrow> string \<Rightarrow> bool" where
  "write_accepted E w filePath =
     (let dirName = path_dirname E filePath in
      (existsSync w dirName \<or> (\<not> throws w (MkdirSync dirName) \<and> dirName \<noteq> filePath))
      \<and> \<not> throws w (WriteFileSync filePath)
      \<and> nodes w filePath \<noteq> Some Directory)"

text \<open>
  The same for the \<open>try\<close> of \<open>DELETE /api/publicaciones\<close> up to line 200: the image
  path is a string, and the stored image is absent or can be unlinked.
\<close>

definition image_removable :: "env \<Rightarrow> world \<Rightarrow> post \<Rightarrow> bool" where
  "image_removable E w publication =
     (case imagePath publication of
        None \<Rightarrow> False
      | Some path \<Rightarrow>
         (let filePath = path_join E (UPLOADS_DIR E) (last_segment path)
          in \<not> existsSync w filePath \<or> unlinkSync w filePath \<noteq> None))"

text \<open>The disk after lines 194 to 200, when they ran without throwing.\<close>

definition image_removed :: "env \<Rightarrow> world \<Rightarrow> post \<Rightarrow> world" where
  "image_removed E w publication =
     (case imagePath publication of
        None \<Rightarrow> w
      | Some path \<Rightarrow>
         (let filePath = path_join E (UPLOADS_DIR E) (last_segment path)
          in if existsSync w filePath
             then (case unlinkSync w filePath of None \<Rightarrow> w | Some w1 \<Rightarrow> w1)
             else w))"

subsection \<open>Runs, keys and counts\<close>

fun run :: "env \<Rightarrow> server \<Rightarrow> request list \<Rightarrow> server" where
  "run E st [] = st"
| "run E st (rq # rqs) = run E (snd (handle E st rq)) rqs"

definition key_of :: "post \<Rightarrow> string option \<times> string option" where
  "key_of pub = (imagePath pub, imageName pub)"

text \<open>A liked record that is there and has the key of \<open>publication\<close>.\<close>

definition matches :: "post \<Rightarrow> post option \<Rightarrow> bool" where
  "matches publication likedPub =
     (case likedPub of None \<Rightarrow> False | Some pub \<Rightarrow> same_key publication pub)"

text \<open>
  How many records of the entry that \<open>find\<close> returns for \<open>req_username\<close> have the key
  of \<open>publication\<close>; 0 when there is no entry.
\<close>

definition liked_count :: "server \<Rightarrow> string option \<Rightarrow> post \<Rightarrow> nat" where
  "liked_count st req_username publication =
     (case find (\<lambda>like. like_entry.username like = req_username) (likes st) of
        None \<Rightarrow> 0
      | Some userLikes \<Rightarrow>
          length (filter (matches publication) (likedPublications userLikes)))"

text \<open>
  The invariant of the like store: within one entry, no two liked records have the same
  image path and image name (and no two are \<open>undefined\<close>).
\<close>

definition no_duplicate_likes :: "server \<Rightarrow> bool" where
  "no_duplicate_likes st =
     (\<forall>like \<in> set (likes st). distinct (map (map_option key_of) (likedPublications like)))"

text \<open>
  What holds of every entry besides: a record that is \<open>undefined\<close> is alone in its
  entry.
\<close>

definition likes_invariant :: "server \<Rightarrow> bool" where
  "likes_invariant st =
     (\<forall>like \<in> set (likes st).
        (likedPublications like = [None] \<or> None \<notin> set (likedPublications like))
        \<and> distinct (map (map_option key_of) (likedPublications like)))"

text \<open>Whether the entry of a user holds a record that is \<open>undefined\<close>.\<close>

definition undefined_liked :: "server \<Rightarrow> string option \<Rightarrow> bool" where
  "undefined_liked st req_username =
     (case find (\<lambda>like. like_entry.username like = req_username) (likes st) of
        None \<Rightarrow> False
      | Some userLikes \<Rightarrow> None \<in> set (likedPublications userLikes))"

text \<open>No entry holds a record that is \<open>undefined\<close>.\<close>

definition likes_defined :: "like_entry list \<Rightarrow> bool" where
  "likes_defined ls = (\<forall>like \<in> set ls. None \<notin> set (likedPublications like))"

text \<open>A request whose body has the \<open>publication\<close> that its route reads.\<close>

fun carries_publication :: "request \<Rightarrow> bool" where
  "carries_publication (DELETE_publicaciones publication) = (publication \<noteq> None)"
| "carries_publication (POST_likes req_username publication) = (publication \<noteq> None)"
| "carries_publication (DELETE_likes req_username publication) = (publication \<noteq> None)"
| "carries_publication rq = True"

subsection \<open>JSON.stringify and JSON.parse\<close>

text \<open>
  \<open>writeJsonFile\<close> writes \<open>JSON.stringify(data, null, 2)\<close> and \<open>readJsonFile\<close>
  reads with \<open>JSON.parse\<close>. The routes above take the two as fields of \<open>env\<close>; this
  subsection is what they are in Node, on the values the three arrays hold.

  A JSON value. The numbers of the model are the integers (\<open>Date.now()\<close> is one), the
  characters those of type \<open>char\<close>; an object is the list of its members in order.
\<close>

datatype json =
    JNull
  | JBool bool
  | JNumber int
  | JString string
  | JArray "json list"
  | JObject "(string \<times> json) list"

text \<open>
  \<open>JSON.stringify\<close> on a string (\<open>QuoteJSONString\<close> in ECMA-262): the quotation
  mark and the backslash are escaped, the control characters are written as \<open>\b\<close>,
  \<open>\f\<close>, \<open>\n\<close>, \<open>\r\<close>, \<open>\t\<close> or \<open>\u00xx\<close>, and every other character is
  written as it is.
\<close>

definition hex_digit :: "nat \<Rightarrow> char" where
  "hex_digit n = ''0123456789abcdef'' ! n"

definition QuoteJSONChar :: "char \<Rightarrow> string" where
  "QuoteJSONChar c =
     (if c = CHR 0x22 then [CHR 0x5C, CHR 0x22]
      else if c = CHR 0x5C then [CHR 0x5C, CHR 0x5C]
      else if c = CHR 0x08 then [CHR 0x5C, CHR ''b'']
      else if c = CHR 0x0C then [CHR 0x5C, CHR ''f'']
      else if c = CHR 0x0A then [CHR 0x5C, CHR ''n'']
      else if c = CHR 0x0D then [CHR 0x5C, CHR ''r'']
      else if c = CHR 0x09 then [CHR 0x5C, CHR ''t'']
      else if of_char c < (32 :: nat) then
        [CHR 0x5C, CHR ''u'', CHR ''0'', CHR ''0'',
         hex_digit (of_char c div 16), hex_digit (of_char c mod 16)]
      else [c])"

definition QuoteJSONString :: "string \<Rightarrow> string" where
  "QuoteJSONString s = CHR 0x22 # concat (map QuoteJSONChar s) @ [CHR 0x22]"

text \<open>An integer in decimal, with a minus sign when it is negative.\<close>

definition digit_char :: "nat \<Rightarrow> char" where
  "digit_char n = ''0123456789'' ! n"

fun digits :: "nat \<Rightarrow> string" where
  "digits n = (if n < 10 then [digit_char n] else digits (n div 10) @ [digit_char (n mod 10)])"

declare digits.simps [simp del]

definition number_text :: "int \<Rightarrow> string" where
  "number_text i = (if i < 0 then CHR ''-'' # digits (nat (- i)) else digits (nat i))"

text \<open>
  \<open>JSON.stringify(value, null, 2)\<close>: an empty array is \<open>[]\<close> and an empty object
  \<open>{}\<close>; the elements of any other array, and the members of any other object, are
  each on a line of their own, indented by two spaces more than the bracket that opens
  them, with a comma after each but the last; a member is its quoted name, a colon, a
  space and its value. \<open>n\<close> is the indentation of the line the value starts on.
\<close>

definition newline :: "nat \<Rightarrow> string" where
  "newline n = CHR 0x0A # replicate n (CHR '' '')"

fun stringify_at :: "nat \<Rightarrow> json \<Rightarrow> string"
  and stringify_elems :: "nat \<Rightarrow> json list \<Rightarrow> string"
  and stringify_members :: "nat \<Rightarrow> (string \<times> json) list \<Rightarrow> string" where
  "stringify_at n JNull = ''null''"
| "stringify_at n (JBool b) = (if b then ''true'' else ''false'')"
| "stringify_at n (JNumber i) = number_text i"
| "stringify_at n (JString s) = QuoteJSONString s"
| "stringify_at n (JArray []) = ''[]''"
| "stringify_at n (JArray (x # xs)) =
     ''['' @ newline (n + 2) @ stringify_elems (n + 2) (x # xs) @ newline n @ '']''"
| "stringify_at n (JObject []) = ''{}''"
| "stringify_at n (JObject (m # ms)) =
     ''{'' @ newline (n + 2) @ stringify_members (n + 2) (m # ms) @ newline n @ ''}''"
| "stringify_elems n [] = []"
| "stringify_elems n [x] = stringify_at n x"
| "stringify_elems n (x # y # ys) =
     stringify_at n x @ '','' @ newline n @ stringify_elems n (y # ys)"
| "stringify_members n [] = []"
| "stringify_members n [(k, v)] = QuoteJSONString k @ '': '' @ stringify_at n v"
| "stringify_members n ((k, v) # m # ms) =
     QuoteJSONString k @ '': '' @ stringify_at n v @ '','' @ newline n
       @ stringify_members n (m # ms)"

definition JSON_stringify :: "json \<Rightarrow> string" where
  "JSON_stringify v = stringify_at 0 v"

text \<open>
  \<open>JSON.parse\<close> in two steps: the text is cut into tokens, and the tokens are read as
  a value. White space between tokens is skipped. A string token ends at the first
  quotation mark that is not escaped; it may hold the escapes of the JSON grammar, and no
  control character. \<open>read_string\<close> returns the string and the number of characters
  it took, the closing quotation mark included. A number token is an optional minus
  sign and digits without a leading zero; a number with a fraction or an exponent, and an
  escape \<open>\uxxxx\<close> above \<open>\u00ff\<close>, have no value in the model and are refused like
  a text that is not JSON.
\<close>

datatype token =
    TLBracket | TRBracket | TLBrace | TRBrace | TColon | TComma
  | TNull | TTrue | TFalse
  | TNumber int
  | TString string

definition is_ws :: "char \<Rightarrow> bool" where
  "is_ws c = (c = CHR '' '' \<or> c = CHR 0x09 \<or> c = CHR 0x0A \<or> c = CHR 0x0D)"

definition is_digit :: "char \<Rightarrow> bool" where
  "is_digit c = (48 \<le> (of_char c :: nat) \<and> (of_char c :: nat) \<le> 57)"

definition hex_value :: "char \<Rightarrow> nat option" where
  "hex_value c =
     (let n = of_char c :: nat in
      if 48 \<le> n \<and> n \<le> 57 then Some (n - 48)
      else if 97 \<le> n \<and> n \<le> 102 then Some (n - 87)
      else if 65 \<le> n \<and> n \<le> 70 then Some (n - 55)
      else None)"

definition hex4 :: "char \<Rightarrow> char \<Rightarrow> char \<Rightarrow> char \<Rightarrow> nat option" where
  "hex4 a b c d =
     (case (hex_value a, hex_value b, hex_value c, hex_value d) of
        (Some h1, Some h2, Some h3, Some h4) \<Rightarrow> Some (((h1 * 16 + h2) * 16 + h3) * 16 + h4)
      | _ \<Rightarrow> None)"

definition unescape :: "char \<Rightarrow> char option" where
  "unescape e =
     (if e = CHR 0x22 then Some (CHR 0x22)
      else if e = CHR 0x5C then Some (CHR 0x5C)
      else if e = CHR ''/'' then Some (CHR ''/'')
      else if e = CHR ''b'' then Some (CHR 0x08)
      else if e = CHR ''f'' then Some (CHR 0x0C)
      else if e = CHR ''n'' then Some (CHR 0x0A)
      else if e = CHR ''r'' then Some (CHR 0x0D)
      else if e = CHR ''t'' then Some (CHR 0x09)
      else None)"

fun read_string :: "string \<Rightarrow> (string \<times> nat) option" where
  "read_string [] = None"
| "read_string (c # cs) =
     (if c = CHR 0x22 then Some ([], 1)
      else if c = CHR 0x5C then
        (case cs of
           [] \<Rightarrow> None
         | e # cs1 \<Rightarrow>
            (if e = CHR ''u'' then
               (case cs1 of
                  h1 # h2 # h3 # h4 # cs2 \<Rightarrow>
                    (case hex4 h1 h2 h3 h4 of
                       None \<Rightarrow> None
                     | Some n \<Rightarrow>
                        (if n < 256
                         then map_option (\<lambda>(s, k). (char_of n # s, k + 6)) (read_string cs2)
                         else None))
                | _ \<Rightarrow> None)
             else
               (case unescape e of
                  None \<Rightarrow> None
                | Some ch \<Rightarrow> map_option (\<lambda>(s, k). (ch # s, k + 2)) (read_string cs1))))
      else if of_char c < (32 :: nat) then None
      else map_option (\<lambda>(s, k). (c # s, k + 1)) (read_string cs))"

definition digits_value :: "string \<Rightarrow> nat" where
  "digits_value ds = foldl (\<lambda>a c. 10 * a + (of_char c - 48)) 0 ds"

definition read_number :: "char \<Rightarrow> string \<Rightarrow> string \<Rightarrow> int option" where
  "read_number c ds r =
     (let ds1 = (if c = CHR ''-'' then ds else c # ds) in
      if ds1 = [] \<or> (hd ds1 = CHR ''0'' \<and> tl ds1 \<noteq> []) then None
      else if r \<noteq> [] \<and> (hd r = CHR ''.'' \<or> hd r = CHR ''e'' \<or> hd r = CHR ''E'') then None
      else Some (if c = CHR ''-'' then - int (digits_value ds1) else int (digits_value ds1)))"

function tokenize :: "string \<Rightarrow> token list option" where
  "tokenize [] = Some []"
| "tokenize (c # cs) =
     (if is_ws c then tokenize cs
      else if c = CHR ''['' then map_option ((#) TLBracket) (tokenize cs)
      else if c = CHR '']'' then map_option ((#) TRBracket) (tokenize cs)
      else if c = CHR ''{'' then map_option ((#) TLBrace) (tokenize cs)
      else if c = CHR ''}'' then map_option ((#) TRBrace) (tokenize cs)
      else if c = CHR '':'' then map_option ((#) TColon) (tokenize cs)
      else if c = CHR '','' then map_option ((#) TComma) (tokenize cs)
      else if c = CHR 0x22 then
        (case read_string cs of
           None \<Rightarrow> None
         | Some (s, k) \<Rightarrow> map_option ((#) (TString s)) (tokenize (drop k cs)))
      else if c = CHR ''-'' \<or> is_digit c then
        (case read_number c (takeWhile is_digit cs) (dropWhile is_digit cs) of
           None \<Rightarrow> None
         | Some i \<Rightarrow> map_option ((#) (TNumber i)) (tokenize (dropWhile is_digit cs)))
      else if c = CHR ''n'' \<and> take 3 cs = ''ull'' then map_option ((#) TNull) (tokenize (drop 3 cs))
      else if c = CHR ''t'' \<and> take 3 cs = ''rue'' then map_option ((#) TTrue) (tokenize (drop 3 cs))
      else if c = CHR ''f'' \<and> take 4 cs = ''alse'' then
        map_option ((#) TFalse) (tokenize (drop 4 cs))
      else None)"
  by pat_completeness auto

termination
  by (relation "measure length") (auto simp: le_imp_less_Suc length_dropWhile_le)

text \<open>
  The value that a list of tokens begins with, and the tokens after it. The first
  argument bounds the depth of the calls; \<open>JSON_parse\<close> gives it the number of tokens,
  which is enough for the tokens of every value (\<open>parse_tokens\<close> below).
  \<open>JSON_parse\<close> returns \<open>None\<close> where \<open>JSON.parse\<close> throws a SyntaxError.
\<close>

fun parse_value :: "nat \<Rightarrow> token list \<Rightarrow> (json \<times> token list) option"
  and parse_elems :: "nat \<Rightarrow> token list \<Rightarrow> (json list \<times> token list) option"
  and parse_members :: "nat \<Rightarrow> token list \<Rightarrow> ((string \<times> json) list \<times> token list) option"
  where
  "parse_value 0 ts = None"
| "parse_value (Suc n) ts =
     (case ts of
        [] \<Rightarrow> None
      | t # r \<Rightarrow>
         (case t of
            TNull \<Rightarrow> Some (JNull, r)
          | TTrue \<Rightarrow> Some (JBool True, r)
          | TFalse \<Rightarrow> Some (JBool False, r)
          | TNumber i \<Rightarrow> Some (JNumber i, r)
          | TString s \<Rightarrow> Some (JString s, r)
          | TLBracket \<Rightarrow>
             (if r \<noteq> [] \<and> hd r = TRBracket then Some (JArray [], tl r)
              else map_option (\<lambda>(xs, r1). (JArray xs, r1)) (parse_elems n r))
          | TLBrace \<Rightarrow>
             (if r \<noteq> [] \<and> hd r = TRBrace then Some (JObject [], tl r)
              else map_option (\<lambda>(ms, r1). (JObject ms, r1)) (parse_members n r))
          | _ \<Rightarrow> None))"
| "parse_elems 0 ts = None"
| "parse_elems (Suc n) ts =
     (case parse_value n ts of
        None \<Rightarrow> None
      | Some (x, r) \<Rightarrow>
         (case r of
            [] \<Rightarrow> None
          | t # r1 \<Rightarrow>
             (if t = TComma then map_option (\<lambda>(xs, r2). (x # xs, r2)) (parse_elems n r1)
              else if t = TRBracket then Some ([x], r1)
              else None)))"
| "parse_members 0 ts = None"
| "parse_members (Suc n) ts =
     (case ts of
        TString k # TColon # r \<Rightarrow>
          (case parse_value n r of
             None \<Rightarrow> None
           | Some (v, r1) \<Rightarrow>
              (case r1 of
                 [] \<Rightarrow> None
               | t # r2 \<Rightarrow>
                  (if t = TComma
                   then map_option (\<lambda>(ms, r3). ((k, v) # ms, r3)) (parse_members n r2)
                   else if t = TRBrace then Some ([(k, v)], r2)
                   else None)))
      | _ \<Rightarrow> None)"

definition JSON_parse :: "string \<Rightarrow> json option" where
  "JSON_parse text =
     (case tokenize text of
        None \<Rightarrow> None
      | Some ts \<Rightarrow>
         (case parse_value (length ts) ts of
            Some (v, []) \<Rightarrow> Some v
          | _ \<Rightarrow> None))"

text \<open>The tokens of a value, and where a value ends in a text that was printed.\<close>

fun tokens_of :: "json \<Rightarrow> token list"
  and tokens_elems :: "json list \<Rightarrow> token list"
  and tokens_members :: "(string \<times> json) list \<Rightarrow> token list" where
  "tokens_of JNull = [TNull]"
| "tokens_of (JBool b) = [if b then TTrue else TFalse]"
| "tokens_of (JNumber i) = [TNumber i]"
| "tokens_of (JString s) = [TString s]"
| "tokens_of (JArray xs) = TLBracket # tokens_elems xs @ [TRBracket]"
| "tokens_of (JObject ms) = TLBrace # tokens_members ms @ [TRBrace]"
| "tokens_elems [] = []"
| "tokens_elems [x] = tokens_of x"
| "tokens_elems (x # y # ys) = tokens_of x @ TComma # tokens_elems (y # ys)"
| "tokens_members [] = []"
| "tokens_members [(k, v)] = TString k # TColon # tokens_of v"
| "tokens_members ((k, v) # m # ms) =
     TString k # TColon # tokens_of v @ TComma # tokens_members (m # ms)"

definition value_end :: "string \<Rightarrow> bool" where
  "value_end rest = (rest = [] \<or> hd rest = CHR '','' \<or> hd rest = CHR 0x0A)"

text \<open>
  The records as JSON values. A property that is \<open>undefined\<close> is left out of an
  object, and an \<open>undefined\<close> element of an array is written as \<open>null\<close>: this is
  what \<open>JSON.stringify\<close> does. The members are in the order in which the routes build
  the objects (lines 121, 164 to 170 and 240).
\<close>

definition optional :: "string \<Rightarrow> json option \<Rightarrow> (string \<times> json) list" where
  "optional k v = (case v of None \<Rightarrow> [] | Some j \<Rightarrow> [(k, j)])"

definition user_json :: "user \<Rightarrow> json" where
  "user_json u =
     JObject [(''username'', JString (user.username u)),
              (''password'', JString (user.password u))]"

definition post_json :: "post \<Rightarrow> json" where
  "post_json p =
     JObject (optional ''imagePath'' (map_option JString (imagePath p))
              @ optional ''imageName'' (map_option JString (imageName p))
              @ optional ''description'' (map_option JString (description p))
              @ optional ''username'' (map_option JString (post.username p))
              @ optional ''timestamp'' (map_option JNumber (timestamp p)))"

definition liked_json :: "post option \<Rightarrow> json" where
  "liked_json likedPub = (case likedPub of None \<Rightarrow> JNull | Some p \<Rightarrow> post_json p)"

definition like_json :: "like_entry \<Rightarrow> json" where
  "like_json like =
     JObject (optional ''username'' (map_option JString (like_entry.username like))
              @ [(''likedPublications'', JArray (map liked_json (likedPublications like)))])"

definition JSON_stringify_usuarios :: "user list \<Rightarrow> string" where
  "JSON_stringify_usuarios us = JSON_stringify (JArray (map user_json us))"

definition JSON_stringify_publicaciones :: "post list \<Rightarrow> string" where
  "JSON_stringify_publicaciones ps = JSON_stringify (JArray (map post_json ps))"

definition JSON_stringify_likes :: "like_entry list \<Rightarrow> string" where
  "JSON_stringify_likes ls = JSON_stringify (JArray (map like_json ls))"

text \<open>
  A JSON value as a record. Reading a property that an object does not have gives
  \<open>undefined\<close>; when a name occurs twice the last member is the one \<open>JSON.parse\<close>
  keeps. The state of the model holds records of three types, so a text that is JSON and
  is not an array of such records has no counterpart in it: the three functions return
  \<open>None\<close> for it as they do for a text that is not JSON.
\<close>

definition property :: "string \<Rightarrow> (string \<times> json) list \<Rightarrow> json option" where
  "property k ms = map_of (rev ms) k"

definition string_property :: "string \<Rightarrow> (string \<times> json) list \<Rightarrow> string option option" where
  "string_property k ms =
     (case property k ms of
        None \<Rightarrow> Some None
      | Some j \<Rightarrow> (case j of JString s \<Rightarrow> Some (Some s) | _ \<Rightarrow> None))"

definition number_property :: "string \<Rightarrow> (string \<times> json) list \<Rightarrow> int option option" where
  "number_property k ms =
     (case property k ms of
        None \<Rightarrow> Some None
      | Some j \<Rightarrow> (case j of JNumber i \<Rightarrow> Some (Some i) | _ \<Rightarrow> None))"

definition json_user :: "json \<Rightarrow> user option" where
  "json_user j =
     (case j of
        JObject ms \<Rightarrow>
          (case (string_property ''username'' ms, string_property ''password'' ms) of
             (Some (Some u), Some (Some p)) \<Rightarrow> Some \<lparr>user.username = u, password = p\<rparr>
           | _ \<Rightarrow> None)
      | _ \<Rightarrow> None)"

definition json_post :: "json \<Rightarrow> post option" where
  "json_post j =
     (case j of
        JObject ms \<Rightarrow>
          (case (string_property ''imagePath'' ms, string_property ''imageName'' ms,
                 string_property ''description'' ms, string_property ''username'' ms,
                 number_property ''timestamp'' ms) of
             (Some a, Some b, Some c, Some d, Some e) \<Rightarrow>
               Some \<lparr>imagePath = a, imageName = b, description = c, post.username = d,
                     timestamp = e\<rparr>
           | _ \<Rightarrow> None)
      | _ \<Rightarrow> None)"

definition json_liked :: "json \<Rightarrow> post option option" where
  "json_liked j = (case j of JNull \<Rightarrow> Some None | _ \<Rightarrow> map_option Some (json_post j))"

definition json_like :: "json \<Rightarrow> like_entry option" where
  "json_like j =
     (case j of
        JObject ms \<Rightarrow>
          (case (string_property ''username'' ms, property ''likedPublications'' ms) of
             (Some u, Some (JArray xs)) \<Rightarrow>
               map_option (\<lambda>lps. \<lparr>like_entry.username = u, likedPublications = lps\<rparr>)
                 (those (map json_liked xs))
           | _ \<Rightarrow> None)
      | _ \<Rightarrow> None)"

definition json_array :: "(json \<Rightarrow> 'r option) \<Rightarrow> json \<Rightarrow> 'r list option" where
  "json_array read j = (case j of JArray xs \<Rightarrow> those (map read xs) | _ \<Rightarrow> None)"

definition JSON_parse_usuarios :: "string \<Rightarrow> user list option" where
  "JSON_parse_usuarios text = Option.bind (JSON_parse text) (json_array json_user)"

definition JSON_parse_publicaciones :: "string \<Rightarrow> post list option" where
  "JSON_parse_publicaciones text = Option.bind (JSON_parse text) (json_array json_post)"

definition JSON_parse_likes :: "string \<Rightarrow> like_entry list option" where
  "JSON_parse_likes text = Option.bind (JSON_parse text) (json_array json_like)"

subsection \<open>A concrete environment\<close>

text \<open>
  An environment on which the theorems below are run: paths joined with a slash, a
  directory name that is what precedes the last slash, and in the place of \<open>JSON\<close> a
  short printer for each store and a parser that knows the empty array and one user
  array, which keep the texts of the examples on one line.
\<close>

definition ana :: user where
  "ana = \<lparr>user.username = ''ana'', password = ''$2a$10$secret''\<rparr>"

definition example_env :: env where
  "example_env =
     \<lparr>stringify_usuarios =
        (\<lambda>us. ''['' @ concat (map (\<lambda>u. user.username u @ '':'' @ user.password u @ '';'') us)
               @ '']''),
      stringify_publicaciones =
        (\<lambda>ps. ''['' @ concat (map (\<lambda>p. case imagePath p of None \<Rightarrow> '';'' | Some s \<Rightarrow> s @ '';'') ps)
               @ '']''),
      stringify_likes =
        (\<lambda>ls. ''['' @ concat (map (\<lambda>l. case like_entry.username l of
                                         None \<Rightarrow> '';'' | Some s \<Rightarrow> s @ '';'') ls) @ '']''),
      parse_usuarios =
        (\<lambda>s. if s = ''[]'' then Some []
              else if s = ''[ana:$2a$10$secret;]'' then Some [ana] else None),
      parse_publicaciones = (\<lambda>s. if s = ''[]'' then Some [] else None),
      parse_likes = (\<lambda>s. if s = ''[]'' then Some [] else None),
      bcrypt_hash = (\<lambda>p n. Some (''$2a$10$'' @ p)),
      bcrypt_compare = (\<lambda>p h. Some (h = ''$2a$10$'' @ p)),
      path_join = (\<lambda>a b. a @ ''/'' @ b),
      path_dirname = (\<lambda>p. rev (tl (dropWhile (\<lambda>c. c \<noteq> CHR ''/'') (rev p)))),
      DATA_DIR = ''/var/data/data'',
      UPLOADS_DIR = ''/var/data/uploads''\<rparr>"

text \<open>A disk with nothing on it on which no call fails.\<close>

definition blank_disk :: world where
  "blank_disk = \<lparr>nodes = (\<lambda>p. None), throws = (\<lambda>c. False), console = []\<rparr>"

text \<open>A disk whose \<open>usuarios.json\<close> is not JSON.\<close>

definition damaged_disk :: world where
  "damaged_disk =
     \<lparr>nodes = (\<lambda>p. if p = ''/var/data/data/usuarios.json'' then Some (File ''[{'') else None),
      throws = (\<lambda>c. False), console = []\<rparr>"

text \<open>A disk whose \<open>usuarios.json\<close> holds the array with \<open>ana\<close>.\<close>

definition ana_disk :: world where
  "ana_disk =
     \<lparr>nodes = (\<lambda>p. if p = ''/var/data/data/usuarios.json''
                   then Some (File ''[ana:$2a$10$secret;]'') else None),
      throws = (\<lambda>c. False), console = []\<rparr>"

definition ana_registered :: server where
  "ana_registered = \<lparr>usuarios = [ana], publicaciones = [], likes = [], world = blank_disk\<rparr>"

text \<open>Two posts with the same image path and image name, and nothing else in common.\<close>

definition foto :: post where
  "foto = \<lparr>imagePath = Some ''https://servidor-c1k2.onrender.com/uploads/1-2.png'',
            imageName = Some ''a.png'', description = Some ''first'',
            post.username = Some ''ana'', timestamp = Some 1\<rparr>"

definition foto_bis :: post where
  "foto_bis = \<lparr>imagePath = Some ''https://servidor-c1k2.onrender.com/uploads/1-2.png'',
                imageName = Some ''a.png'', description = Some ''second'',
                post.username = Some ''bob'', timestamp = Some 2\<rparr>"

definition two_fotos :: server where
  "two_fotos =
     \<lparr>usuarios = [], publicaciones = [foto, foto_bis],
      likes = [\<lparr>like_entry.username = Some ''bob'', likedPublications = [Some foto_bis]\<rparr>],
      world = blank_disk\<rparr>"

text \<open>One post, liked by \<open>bob\<close>, with its image on the disk.\<close>

definition one_foto :: server where
  "one_foto =
     \<lparr>usuarios = [], publicaciones = [foto],
      likes = [\<lparr>like_entry.username = Some ''bob'', likedPublications = [Some foto]\<rparr>],
      world = \<lparr>nodes = (\<lambda>p. if p = ''/var/data/uploads/1-2.png'' then Some (File ''PNG'')
                             else None),
               throws = (\<lambda>c. False), console = []\<rparr>\<rparr>"

text \<open>
  The server after an upload and a like of \<open>bob\<close> whose body has no \<open>publication\<close>.
  The post uploaded is \<open>foto\<close>.
\<close>

definition after_empty_like :: server where
  "after_empty_like =
     run example_env (empty_state blank_disk)
       [POST_upload 1 (Some ''1-2.png'') (Some ''ana'') (Some ''first'') (Some ''a.png''),
        POST_likes (Some ''bob'') None]"

text \<open>A disk that holds the image of \<open>foto\<close> and refuses to unlink it.\<close>

definition locked_disk :: world where
  "locked_disk =
     \<lparr>nodes = (\<lambda>p. if p = ''/var/data/uploads/1-2.png'' then Some (File ''PNG'') else None),
      throws = (\<lambda>c. c = UnlinkSync ''/var/data/uploads/1-2.png''), console = []\<rparr>"


text \<open>The states \<open>one_foto\<close> and \<open>two_fotos\<close> on that disk.\<close>

definition one_foto_locked :: server where
  "one_foto_locked = one_foto\<lparr>world := locked_disk\<rparr>"

definition two_fotos_locked :: server where
  "two_fotos_locked = two_fotos\<lparr>world := locked_disk\<rparr>"

text \<open>
  The two posts again, where \<open>bob\<close> has liked without a \<open>publication\<close> and \<open>carl\<close>
  has liked \<open>foto_bis\<close>.
\<close>

definition two_fotos_undefined :: server where
  "two_fotos_undefined =
     two_fotos\<lparr>likes :=
       [\<lparr>like_entry.username = Some ''bob'', likedPublications = [None]\<rparr>,
        \<lparr>like_entry.username = Some ''carl'', likedPublications = [Some foto_bis]\<rparr>]\<rparr>"
section \<open>Properties\<close>

subsection \<open>Facts about the disk\<close>

lemma throws_console_log: "throws (console_log l w) = throws w"
  by (simp add: console_log_def)

lemma nodes_console_log: "nodes (console_log l w) = nodes w"
  by (simp add: console_log_def)

lemma throws_writeJsonFile: "throws (writeJsonFile E s w p d) = throws w"
  by (simp add: writeJsonFile_def Let_def mkdirSync_def writeFileSync_def console_log_def
      split: option.splits)

lemma writeJsonFile_accepted:
  assumes "write_accepted E w p"
  shows "nodes (writeJsonFile E s w p d) p = Some (File (s d))"
  using assms
  by (auto simp: write_accepted_def writeJsonFile_def Let_def mkdirSync_def writeFileSync_def
      console_log_def existsSync_def split: option.splits if_splits)

text \<open>A write leaves every path but the file and its directory as it was.\<close>

lemma writeJsonFile_other:
  assumes "q \<noteq> p" and "q \<noteq> path_dirname E p"
  shows "nodes (writeJsonFile E s w p d) q = nodes w q"
  using assms
  by (auto simp: writeJsonFile_def Let_def mkdirSync_def writeFileSync_def console_log_def
      split: option.splits if_splits)

text \<open>The line \<open>writeJsonFile\<close> prints tells whether the write went through.\<close>

lemma writeJsonFile_console:
  "console (writeJsonFile E s w p d) = console w @
     [if write_accepted E w p then Datos_guardados_exitosamente_en p else Error_escribiendo p]"
  by (auto simp: write_accepted_def writeJsonFile_def Let_def mkdirSync_def writeFileSync_def
      console_log_def existsSync_def split: option.splits if_splits)

lemma example_paths:
  "usuariosFilePath example_env = ''/var/data/data/usuarios.json''"
  "publicacionesFilePath example_env = ''/var/data/data/publicaciones.json''"
  "likesFilePath example_env = ''/var/data/data/likes.json''"
  "path_dirname example_env ''/var/data/data/usuarios.json'' = ''/var/data/data''"
  "path_dirname example_env ''/var/data/data/publicaciones.json'' = ''/var/data/data''"
  "path_dirname example_env ''/var/data/data/likes.json'' = ''/var/data/data''"
  by (simp_all add: usuariosFilePath_def publicacionesFilePath_def likesFilePath_def
      example_env_def)

lemma blank_disk_accepts:
  "write_accepted example_env blank_disk ''/var/data/data/usuarios.json''"
  "write_accepted example_env blank_disk ''/var/data/data/publicaciones.json''"
  "write_accepted example_env blank_disk ''/var/data/data/likes.json''"
  by (simp_all add: write_accepted_def example_paths blank_disk_def existsSync_def)

text \<open>
  Started on a disk without the three files, the server has three empty arrays and has
  created the files.
\<close>

lemma boot_blank_disk:
  "usuarios (boot example_env blank_disk) = []"
  "publicaciones (boot example_env blank_disk) = []"
  "likes (boot example_env blank_disk) = []"
  "nodes (world (boot example_env blank_disk)) ''/var/data/data/usuarios.json'' = Some (File ''[]'')"
  "nodes (world (boot example_env blank_disk)) ''/var/data/data/publicaciones.json'' =
     Some (File ''[]'')"
  "nodes (world (boot example_env blank_disk)) ''/var/data/data/likes.json'' = Some (File ''[]'')"
  by (simp_all add: boot_def readJsonFile_def writeJsonFile_def existsSync_def mkdirSync_def
      writeFileSync_def console_log_def Let_def example_paths blank_disk_def,
      simp_all add: example_env_def)

subsection \<open>C6: a registration without username or password\<close>

text \<open>
  C6. When the username or the password of a registration request is empty or missing,
  \<open>POST /api/usuarios\<close> answers 400 "Username y password son requeridos" (the spec's
  InvalidInput) and returns the state it was given: nothing is appended and nothing is
  written. The answer is the same whatever \<open>usuarios\<close> holds and whatever
  \<open>bcrypt.hash\<close> would do, so neither the search for an existing user nor the hashing
  has a say in it.
\<close>

theorem register_rejects_falsy:
  assumes "falsy req_username \<or> falsy req_password"
  shows "post_api_usuarios E st req_username req_password =
           ((400, Message Username_y_password_son_requeridos), st)"
  using assms by (simp add: post_api_usuarios_def post_api_usuarios_until_await_def)

text \<open>
  With \<open>ana\<close> registered, a second registration of \<open>ana\<close> with an empty password is
  answered by the first check, not by the duplicate check.
\<close>

theorem register_rejects_falsy_witness:
  "(falsy (Some ''ana'') \<or> falsy (Some ''''))
   \<and> post_api_usuarios example_env ana_registered (Some ''ana'') (Some '''') =
       ((400, Message Username_y_password_son_requeridos), ana_registered)"
proof -
  have h: "falsy (Some ''ana'') \<or> falsy (Some '''')"
    by (simp add: falsy_def)
  from register_rejects_falsy [OF h, of example_env ana_registered] h
  show ?thesis by simp
qed

subsection \<open>C7: readJsonFile\<close>

text \<open>
  C7. For every path, \<open>readJsonFile\<close> returns a value on each of its paths:
  \<^item> when nothing exists at the path it returns the empty array, after calling
    \<open>writeJsonFile\<close> with the empty array and printing "Archivo creado"; on a disk that
    accepts the write the file then exists and holds the text of the empty array;
  \<^item> when the file is there and its text parses, it returns what the parser returns and
    leaves the disk as it was;
  \<^item> when the file is there and its text does not parse, it prints "Error leyendo" and
    returns the empty array.
\<close>

theorem readJsonFile_cases:
  "(\<not> existsSync w p \<longrightarrow>
      readJsonFile E s parse w p =
        ([], console_log (Archivo_creado p) (writeJsonFile E s w p []))
      \<and> (write_accepted E w p \<longrightarrow>
           nodes (snd (readJsonFile E s parse w p)) p = Some (File (s []))))
   \<and> (existsSync w p \<longrightarrow> readFileSync w p = Some text \<longrightarrow> parse text = Some data \<longrightarrow>
        fst (readJsonFile E s parse w p) = data
        \<and> nodes (snd (readJsonFile E s parse w p)) = nodes w)
   \<and> (existsSync w p \<longrightarrow> readFileSync w p = Some text \<longrightarrow> parse text = None \<longrightarrow>
        readJsonFile E s parse w p = ([], console_log (Error_leyendo p) w))"
  by (simp add: readJsonFile_def nodes_console_log writeJsonFile_accepted)

text \<open>
  The three cases on the three example disks: no file, the file with \<open>ana\<close>, and the
  file that is not JSON.
\<close>

theorem readJsonFile_cases_witness:
  "(\<not> existsSync blank_disk ''/var/data/data/usuarios.json''
    \<and> write_accepted example_env blank_disk ''/var/data/data/usuarios.json''
    \<and> fst (readJsonFile example_env (stringify_usuarios example_env)
              (parse_usuarios example_env) blank_disk ''/var/data/data/usuarios.json'') = []
    \<and> nodes (snd (readJsonFile example_env (stringify_usuarios example_env)
                     (parse_usuarios example_env) blank_disk ''/var/data/data/usuarios.json''))
         ''/var/data/data/usuarios.json'' = Some (File ''[]''))
   \<and> (existsSync ana_disk ''/var/data/data/usuarios.json''
      \<and> readFileSync ana_disk ''/var/data/data/usuarios.json'' = Some ''[ana:$2a$10$secret;]''
      \<and> parse_usuarios example_env ''[ana:$2a$10$secret;]'' = Some [ana]
      \<and> fst (readJsonFile example_env (stringify_usuarios example_env)
                (parse_usuarios example_env) ana_disk ''/var/data/data/usuarios.json'') = [ana])
   \<and> (existsSync damaged_disk ''/var/data/data/usuarios.json''
      \<and> readFileSync damaged_disk ''/var/data/data/usuarios.json'' = Some ''[{''
      \<and> parse_usuarios example_env ''[{'' = None
      \<and> readJsonFile example_env (stringify_usuarios example_env)
           (parse_usuarios example_env) damaged_disk ''/var/data/data/usuarios.json'' =
          ([], console_log (Error_leyendo ''/var/data/data/usuarios.json'') damaged_disk))"
proof -
  let ?p = "''/var/data/data/usuarios.json''"
  let ?s = "stringify_usuarios example_env"
  let ?parse = "parse_usuarios example_env"
  have a1: "\<not> existsSync blank_disk ?p"
    by (simp add: existsSync_def blank_disk_def)
  have a2: "write_accepted example_env blank_disk ?p"
    by (rule blank_disk_accepts)
  have a3: "?s [] = ''[]''"
    by (simp add: example_env_def)
  have b1: "existsSync ana_disk ?p"
    by (simp add: existsSync_def ana_disk_def)
  have b2: "readFileSync ana_disk ?p = Some ''[ana:$2a$10$secret;]''"
    by (simp add: readFileSync_def ana_disk_def)
  have b3: "?parse ''[ana:$2a$10$secret;]'' = Some [ana]"
    by (simp add: example_env_def)
  have c1: "existsSync damaged_disk ?p"
    by (simp add: existsSync_def damaged_disk_def)
  have c2: "readFileSync damaged_disk ?p = Some ''[{''"
    by (simp add: readFileSync_def damaged_disk_def)
  have c3: "?parse ''[{'' = None"
    by (simp add: example_env_def)
  note A = readJsonFile_cases [of blank_disk ?p example_env ?s ?parse,
      THEN conjunct1, rule_format, OF a1]
  from A have "fst (readJsonFile example_env ?s ?parse blank_disk ?p) = []"
    by simp
  moreover from A a2
  have "nodes (snd (readJsonFile example_env ?s ?parse blank_disk ?p)) ?p = Some (File (?s []))"
    by blast
  ultimately
  have a: "fst (readJsonFile example_env ?s ?parse blank_disk ?p) = []
           \<and> nodes (snd (readJsonFile example_env ?s ?parse blank_disk ?p)) ?p = Some (File ''[]'')"
    by (simp only: a3 simp_thms)
  from readJsonFile_cases [of ana_disk ?p example_env ?s ?parse "''[ana:$2a$10$secret;]''" "[ana]"]
    b1 b2 b3
  have b: "fst (readJsonFile example_env ?s ?parse ana_disk ?p) = [ana]"
    by simp
  from readJsonFile_cases [of damaged_disk ?p example_env ?s ?parse "''[{''"] c1 c2 c3
  have c: "readJsonFile example_env ?s ?parse damaged_disk ?p =
             ([], console_log (Error_leyendo ?p) damaged_disk)"
    by simp
  from a1 a2 a b1 b2 b3 b c1 c2 c3 c show ?thesis
    by blast
qed

subsection \<open>C8: writing a store and reading it back\<close>

text \<open>The characters of a string and the digits of a number are read back as they were.\<close>

lemma hex_value_hex_digit: "k < 16 \<Longrightarrow> hex_value (hex_digit k) = Some k"
proof -
  assume "k < 16"
  then have "k \<in> set [0..<16]"
    by simp
  then show ?thesis
    by (auto simp: upt_rec hex_value_def hex_digit_def Let_def)
qed

lemma hex4_control:
  "n < 32 \<Longrightarrow> hex4 (CHR ''0'') (CHR ''0'') (hex_digit (n div 16)) (hex_digit (n mod 16)) = Some n"
proof -
  assume n: "n < 32"
  then have "n div 16 < 16" "n mod 16 < 16"
    by auto
  then have "hex_value (hex_digit (n div 16)) = Some (n div 16)"
    "hex_value (hex_digit (n mod 16)) = Some (n mod 16)"
    by (simp_all add: hex_value_hex_digit)
  moreover have "hex_value (CHR ''0'') = Some 0"
    by (simp add: hex_value_def)
  ultimately show ?thesis
    by (simp add: hex4_def)
qed

lemma read_string_QuoteJSONChar:
  "read_string (QuoteJSONChar c @ t) =
     map_option (\<lambda>(s, k). (c # s, k + length (QuoteJSONChar c))) (read_string t)"
  by (cases "read_string t") (auto simp: QuoteJSONChar_def unescape_def hex4_control)

lemma read_string_quoted:
  "read_string (concat (map QuoteJSONChar s) @ CHR 0x22 # rest) =
     Some (s, Suc (length (concat (map QuoteJSONChar s))))"
proof (induction s)
  case Nil
  show ?case by simp
next
  case (Cons c s)
  show ?case
    by (simp add: read_string_QuoteJSONChar Cons.IH del: read_string.simps)
qed

lemma tokenize_QuoteJSONString:
  "tokenize (QuoteJSONString s @ rest) = map_option ((#) (TString s)) (tokenize rest)"
proof -
  have "tokenize (CHR 0x22 # (concat (map QuoteJSONChar s) @ CHR 0x22 # rest)) =
        map_option ((#) (TString s)) (tokenize rest)"
    by (simp add: is_ws_def read_string_quoted del: read_string.simps)
  then show ?thesis
    by (simp add: QuoteJSONString_def)
qed


lemma below_ten: "n < 10 \<Longrightarrow> n \<in> set [0..<10]"
  by simp

lemma is_digit_digit_char: "n < 10 \<Longrightarrow> is_digit (digit_char n)"
  by (drule below_ten) (auto simp: upt_rec is_digit_def digit_char_def)

lemma digit_value_digit_char: "n < 10 \<Longrightarrow> (of_char (digit_char n) :: nat) - 48 = n"
  by (drule below_ten) (auto simp: upt_rec digit_char_def)

lemma digit_char_zero: "n < 10 \<Longrightarrow> digit_char n = CHR ''0'' \<longleftrightarrow> n = 0"
  by (drule below_ten) (auto simp: upt_rec digit_char_def)

lemma digits_not_Nil: "digits n \<noteq> []"
  by (subst digits.simps) simp

lemma digits_are_digits: "c \<in> set (digits n) \<Longrightarrow> is_digit c"
proof (induction n arbitrary: c rule: digits.induct)
  case (1 n)
  show ?case
  proof (cases "n < 10")
    case True
    with "1.prems" show ?thesis
      by (subst (asm) digits.simps) (simp add: is_digit_digit_char)
  next
    case False
    with "1.prems" have "c \<in> set (digits (n div 10)) \<or> c = digit_char (n mod 10)"
      by (subst (asm) digits.simps) auto
    with "1.IH" [OF False] show ?thesis
      by (auto simp: is_digit_digit_char)
  qed
qed

lemma digits_value_append:
  "digits_value (ds @ [c]) = 10 * digits_value ds + (of_char c - 48)"
  by (simp add: digits_value_def)

lemma digits_value_digits: "digits_value (digits n) = n"
proof (induction n rule: digits.induct)
  case (1 n)
  show ?case
  proof (cases "n < 10")
    case True
    then show ?thesis
      by (subst digits.simps) (simp add: digits_value_def digit_value_digit_char)
  next
    case False
    with "1.IH" show ?thesis
      by (subst digits.simps) (simp add: digits_value_append digit_value_digit_char)
  qed
qed

lemma hd_digits: "0 < n \<Longrightarrow> hd (digits n) \<noteq> CHR ''0''"
proof (induction n rule: digits.induct)
  case (1 n)
  show ?case
  proof (cases "n < 10")
    case True
    with "1.prems" show ?thesis
      by (subst digits.simps) (simp add: digit_char_zero)
  next
    case False
    then have "0 < n div 10"
      by simp
    with "1.IH" [OF False] have "hd (digits (n div 10)) \<noteq> CHR ''0''"
      by simp
    with False show ?thesis
      by (subst digits.simps) (simp add: digits_not_Nil)
  qed
qed

lemma digits_no_leading_zero: "hd (digits n) = CHR ''0'' \<Longrightarrow> tl (digits n) = []"
proof (cases "n = 0")
  case True
  then show ?thesis
    by (subst digits.simps) simp
next
  case False
  assume "hd (digits n) = CHR ''0''"
  with False hd_digits [of n] show ?thesis
    by simp
qed

lemma takeWhile_digits:
  assumes "\<forall>c \<in> set ds. is_digit c" and "value_end rest"
  shows "takeWhile is_digit (ds @ rest) = ds" and "dropWhile is_digit (ds @ rest) = rest"
proof -
  from assms(2) have "rest = [] \<or> \<not> is_digit (hd rest)"
    by (auto simp: value_end_def is_digit_def)
  then have "takeWhile is_digit rest = []" "dropWhile is_digit rest = rest"
    by (cases rest; auto)+
  with assms(1) show "takeWhile is_digit (ds @ rest) = ds"
    "dropWhile is_digit (ds @ rest) = rest"
    by (simp_all add: takeWhile_append2 dropWhile_append2)
qed

lemma tokenize_digit_start:
  assumes "is_digit c \<or> c = CHR ''-''"
  shows "tokenize (c # cs) =
           (case read_number c (takeWhile is_digit cs) (dropWhile is_digit cs) of
              None \<Rightarrow> None
            | Some i \<Rightarrow> map_option ((#) (TNumber i)) (tokenize (dropWhile is_digit cs)))"
proof -
  from assms have "\<not> is_ws c" "c \<noteq> CHR ''[''" "c \<noteq> CHR '']''" "c \<noteq> CHR ''{''"
    "c \<noteq> CHR ''}''" "c \<noteq> CHR '':''" "c \<noteq> CHR '',''" "c \<noteq> CHR 0x22"
    by (auto simp: is_digit_def is_ws_def)
  with assms show ?thesis
    by auto
qed

lemma read_number_text:
  assumes "value_end rest"
  shows "tokenize (number_text i @ rest) = map_option ((#) (TNumber i)) (tokenize rest)"
proof -
  have sep: "\<not> (rest \<noteq> [] \<and> (hd rest = CHR ''.'' \<or> hd rest = CHR ''e'' \<or> hd rest = CHR ''E''))"
    using assms by (auto simp: value_end_def)
  have plain: "tokenize (digits n @ rest) = map_option ((#) (TNumber (int n))) (tokenize rest)" for n
  proof -
    obtain c ds where cd: "digits n = c # ds"
      using digits_not_Nil [of n] by (cases "digits n") auto
    then have all: "is_digit c" "\<forall>x \<in> set ds. is_digit x"
      using digits_are_digits [of _ n] by auto
    from digits_no_leading_zero [of n] cd have z: "c = CHR ''0'' \<Longrightarrow> ds = []"
      by simp
    from all(1) have m: "c \<noteq> CHR ''-''"
      by (auto simp: is_digit_def)
    have v: "digits_value (c # ds) = n"
      using digits_value_digits [of n] cd by simp
    from z m sep have "read_number c ds rest = Some (int n)"
      by (auto simp: read_number_def Let_def v)
    moreover from all(1) have "tokenize (c # ds @ rest) =
           (case read_number c (takeWhile is_digit (ds @ rest)) (dropWhile is_digit (ds @ rest)) of
              None \<Rightarrow> None
            | Some i \<Rightarrow> map_option ((#) (TNumber i)) (tokenize (dropWhile is_digit (ds @ rest))))"
      by (intro tokenize_digit_start) simp
    ultimately show ?thesis
      unfolding cd by (simp add: takeWhile_digits [OF all(2) assms] del: tokenize.simps)
  qed
  have minus: "tokenize (CHR ''-'' # digits n @ rest) = map_option ((#) (TNumber (- int n))) (tokenize rest)"
    for n
  proof -
    have all: "\<forall>x \<in> set (digits n). is_digit x"
      using digits_are_digits [of _ n] by auto
    from digits_no_leading_zero [of n] sep
    have "read_number (CHR ''-'') (digits n) rest = Some (- int n)"
      by (auto simp: read_number_def Let_def digits_value_digits digits_not_Nil)
    moreover have "tokenize (CHR ''-'' # digits n @ rest) =
           (case read_number (CHR ''-'') (takeWhile is_digit (digits n @ rest))
                   (dropWhile is_digit (digits n @ rest)) of
              None \<Rightarrow> None
            | Some i \<Rightarrow>
                map_option ((#) (TNumber i)) (tokenize (dropWhile is_digit (digits n @ rest))))"
      by (intro tokenize_digit_start) simp
    ultimately show ?thesis
      by (simp add: takeWhile_digits [OF all assms] del: tokenize.simps)
  qed
  show ?thesis
  proof (cases "i < 0")
    case True
    with minus [of "nat (- i)"] show ?thesis
      by (simp add: number_text_def)
  next
    case False
    with plain [of "nat i"] show ?thesis
      by (simp add: number_text_def)
  qed
qed

lemma tokenize_newline: "tokenize (newline n @ s) = tokenize s"
proof -
  have "tokenize (replicate n (CHR '' '') @ s) = tokenize s"
    by (induction n) (simp_all add: is_ws_def)
  then show ?thesis
    by (simp add: newline_def is_ws_def)
qed


lemma value_end_simps:
  "value_end []" "value_end (CHR '','' # s)" "value_end (CHR 0x0A # s)"
  "value_end (newline n @ s)"
  by (simp_all add: value_end_def newline_def)

lemma tokenize_punctuation:
  "tokenize (CHR ''['' # s) = map_option ((#) TLBracket) (tokenize s)"
  "tokenize (CHR '']'' # s) = map_option ((#) TRBracket) (tokenize s)"
  "tokenize (CHR ''{'' # s) = map_option ((#) TLBrace) (tokenize s)"
  "tokenize (CHR ''}'' # s) = map_option ((#) TRBrace) (tokenize s)"
  "tokenize (CHR '':'' # s) = map_option ((#) TColon) (tokenize s)"
  "tokenize (CHR '','' # s) = map_option ((#) TComma) (tokenize s)"
  "tokenize (CHR '' '' # s) = tokenize s"
  "tokenize (CHR ''n'' # CHR ''u'' # CHR ''l'' # CHR ''l'' # s) = map_option ((#) TNull) (tokenize s)"
  "tokenize (CHR ''t'' # CHR ''r'' # CHR ''u'' # CHR ''e'' # s) = map_option ((#) TTrue) (tokenize s)"
  "tokenize (CHR ''f'' # CHR ''a'' # CHR ''l'' # CHR ''s'' # CHR ''e'' # s) =
     map_option ((#) TFalse) (tokenize s)"
  by (simp_all add: is_ws_def is_digit_def)

lemma read_stringify:
  "value_end rest \<Longrightarrow> tokenize rest = Some ts \<Longrightarrow>
     tokenize (stringify_at n v @ rest) = Some (tokens_of v @ ts)"
  "value_end rest \<Longrightarrow> tokenize rest = Some ts \<Longrightarrow>
     tokenize (stringify_elems n xs @ rest) = Some (tokens_elems xs @ ts)"
  "value_end rest \<Longrightarrow> tokenize rest = Some ts \<Longrightarrow>
     tokenize (stringify_members n ms @ rest) = Some (tokens_members ms @ ts)"
proof (induction n v and n xs and n ms arbitrary: rest ts and rest ts and rest ts
    rule: stringify_at_stringify_elems_stringify_members.induct)
  case (1 n)
  then show ?case
    by (simp add: tokenize_punctuation del: tokenize.simps)
next
  case (2 n b)
  then show ?case
    by (simp add: tokenize_punctuation del: tokenize.simps)
next
  case (3 n i)
  then show ?case
    by (simp add: read_number_text del: tokenize.simps)
next
  case (4 n s)
  then show ?case
    by (simp add: tokenize_QuoteJSONString del: tokenize.simps)
next
  case (5 n)
  then show ?case
    by (simp add: tokenize_punctuation del: tokenize.simps)
next
  case (6 n x xs)
  from "6.prems" have "tokenize (newline n @ CHR '']'' # rest) = Some (TRBracket # ts)"
    by (simp add: tokenize_newline tokenize_punctuation del: tokenize.simps)
  from "6.IH" [OF value_end_simps(4) this]
  show ?case
    by (simp add: tokenize_punctuation tokenize_newline del: tokenize.simps stringify_elems.simps stringify_members.simps
        tokens_elems.simps tokens_members.simps)
next
  case (7 n)
  then show ?case
    by (simp add: tokenize_punctuation del: tokenize.simps)
next
  case (8 n m ms)
  from "8.prems" have "tokenize (newline n @ CHR ''}'' # rest) = Some (TRBrace # ts)"
    by (simp add: tokenize_newline tokenize_punctuation del: tokenize.simps)
  from "8.IH" [OF value_end_simps(4) this]
  show ?case
    by (simp add: tokenize_punctuation tokenize_newline del: tokenize.simps stringify_elems.simps stringify_members.simps
        tokens_elems.simps tokens_members.simps)
next
  case (9 n)
  then show ?case by simp
next
  case (10 n x)
  then show ?case by simp
next
  case (11 n x y ys)
  from "11.IH"(2) [OF "11.prems"]
  have "tokenize (CHR '','' # newline n @ stringify_elems n (y # ys) @ rest) =
          Some (TComma # tokens_elems (y # ys) @ ts)"
    by (simp add: tokenize_punctuation tokenize_newline del: tokenize.simps stringify_elems.simps stringify_members.simps
        tokens_elems.simps tokens_members.simps)
  from "11.IH"(1) [OF value_end_simps(2) this]
  show ?case
    by (simp del: tokenize.simps)
next
  case (12 n)
  then show ?case by simp
next
  case (13 n k v)
  from "13.IH" [OF "13.prems"] show ?case
    by (simp add: tokenize_QuoteJSONString tokenize_punctuation del: tokenize.simps)
next
  case (14 n k v m ms)
  from "14.IH"(2) [OF "14.prems"]
  have "tokenize (CHR '','' # newline n @ stringify_members n (m # ms) @ rest) =
          Some (TComma # tokens_members (m # ms) @ ts)"
    by (simp add: tokenize_punctuation tokenize_newline del: tokenize.simps stringify_elems.simps stringify_members.simps
        tokens_elems.simps tokens_members.simps)
  from "14.IH"(1) [OF value_end_simps(2) this]
  show ?case
    by (simp add: tokenize_QuoteJSONString tokenize_punctuation del: tokenize.simps)
qed

lemma tokens_start:
  "tokens_of v \<noteq> [] \<and> hd (tokens_of v) \<noteq> TRBracket \<and> hd (tokens_of v) \<noteq> TRBrace"
  by (cases v) auto

lemma tokens_elems_start:
  "tokens_elems (x # xs) \<noteq> [] \<and> hd (tokens_elems (x # xs)) \<noteq> TRBracket"
  using tokens_start [of x] by (cases xs) auto

lemma tokens_members_start:
  "tokens_members (m # ms) \<noteq> [] \<and> hd (tokens_members (m # ms)) \<noteq> TRBrace"
  by (cases m; cases ms) auto

lemma parse_tokens:
  "length (tokens_of v) \<le> n \<Longrightarrow> parse_value n (tokens_of v @ rest) = Some (v, rest)"
  "xs \<noteq> [] \<Longrightarrow> length (tokens_elems xs) < n \<Longrightarrow>
     parse_elems n (tokens_elems xs @ TRBracket # rest) = Some (xs, rest)"
  "ms \<noteq> [] \<Longrightarrow> length (tokens_members ms) \<le> n \<Longrightarrow>
     parse_members n (tokens_members ms @ TRBrace # rest) = Some (ms, rest)"
proof (induction v and xs and ms arbitrary: n rest and n rest and n rest
    rule: tokens_of_tokens_elems_tokens_members.induct)
  case 1
  then show ?case by (cases n) auto
next
  case (2 b)
  then show ?case by (cases n) auto
next
  case (3 i)
  then show ?case by (cases n) auto
next
  case (4 s)
  then show ?case by (cases n) auto
next
  case (5 xs)
  from "5.prems" obtain k where n: "n = Suc k" and k: "length (tokens_elems xs) < k"
    by (cases n) auto
  show ?case
  proof (cases xs)
    case Nil
    with n show ?thesis by simp
  next
    case (Cons y ys)
    with tokens_elems_start [of y ys]
    have "hd (tokens_elems xs @ TRBracket # rest) \<noteq> TRBracket"
      by (simp add: hd_append)
    moreover from Cons have "xs \<noteq> []" by simp
    from "5.IH" [OF this k, of rest]
    have "parse_elems k (tokens_elems xs @ TRBracket # rest) = Some (xs, rest)" .
    ultimately show ?thesis
      using n by simp
  qed
next
  case (6 ms)
  from "6.prems" obtain k where n: "n = Suc k" and k: "length (tokens_members ms) \<le> k"
    by (cases n) auto
  show ?case
  proof (cases ms)
    case Nil
    with n show ?thesis by simp
  next
    case (Cons y ys)
    with tokens_members_start [of y ys]
    have "hd (tokens_members ms @ TRBrace # rest) \<noteq> TRBrace"
      by (simp add: hd_append)
    moreover from Cons have "ms \<noteq> []" by simp
    from "6.IH" [OF this k, of rest]
    have "parse_members k (tokens_members ms @ TRBrace # rest) = Some (ms, rest)" .
    ultimately show ?thesis
      using n by simp
  qed
next
  case 7
  then show ?case by simp
next
  case (8 x)
  from "8.prems" obtain k where n: "n = Suc k" and k: "length (tokens_of x) \<le> k"
    by (cases n) auto
  from "8.IH" [OF k, of "TRBracket # rest"] n show ?case
    by simp
next
  case (9 x y ys)
  from "9.prems" obtain k where n: "n = Suc k"
    and k1: "length (tokens_of x) \<le> k"
    and k2: "length (tokens_elems (y # ys)) < k"
    by (cases n) auto
  from "9.IH"(1) [OF k1, of "TComma # tokens_elems (y # ys) @ TRBracket # rest"]
    "9.IH"(2) [OF _ k2, of rest] n
  show ?case
    by simp
next
  case 10
  then show ?case by simp
next
  case (11 k v)
  from "11.prems" obtain j where n: "n = Suc j" and j: "length (tokens_of v) \<le> j"
    by (cases n) auto
  from "11.IH" [OF j, of "TRBrace # rest"] n show ?case
    by simp
next
  case (12 k v m ms)
  from "12.prems" obtain j where n: "n = Suc j"
    and j1: "length (tokens_of v) \<le> j"
    and j2: "length (tokens_members (m # ms)) \<le> j"
    by (cases n) auto
  from "12.IH"(1) [OF j1, of "TComma # tokens_members (m # ms) @ TRBrace # rest"]
    "12.IH"(2) [OF _ j2, of rest] n
  show ?case
    by simp
qed

lemma JSON_roundtrip: "JSON_parse (JSON_stringify v) = Some v"
proof -
  have "tokenize (stringify_at 0 v @ []) = Some (tokens_of v @ [])"
    by (rule read_stringify) (simp_all add: value_end_simps)
  moreover have "parse_value (length (tokens_of v)) (tokens_of v @ []) = Some (v, [])"
    by (rule parse_tokens) simp
  ultimately show ?thesis
    by (simp add: JSON_parse_def JSON_stringify_def)
qed

lemma those_map_inverse: "(\<And>x. f (g x) = Some x) \<Longrightarrow> those (map (f \<circ> g) xs) = Some xs"
  by (induction xs) simp_all

lemma json_user_inverse: "json_user (user_json u) = Some u"
  by (simp add: json_user_def user_json_def string_property_def property_def)

lemma json_post_inverse: "json_post (post_json p) = Some p"
  by (cases "imagePath p"; cases "imageName p"; cases "description p"; cases "post.username p";
      cases "timestamp p")
     (simp_all add: json_post_def post_json_def string_property_def number_property_def
        property_def optional_def)

lemma json_liked_inverse: "json_liked (liked_json lp) = Some lp"
proof (cases lp)
  case None
  then show ?thesis by (simp add: json_liked_def liked_json_def)
next
  case (Some p)
  have "json_liked (post_json p) = map_option Some (json_post (post_json p))"
    by (simp add: json_liked_def post_json_def)
  with Some show ?thesis
    by (simp add: liked_json_def json_post_inverse)
qed

lemma json_like_inverse: "json_like (like_json l) = Some l"
  by (cases "like_entry.username l")
     (simp_all add: json_like_def like_json_def string_property_def property_def optional_def
        those_map_inverse json_liked_inverse)

lemma JSON_usuarios_roundtrip: "JSON_parse_usuarios (JSON_stringify_usuarios us) = Some us"
  by (simp add: JSON_parse_usuarios_def JSON_stringify_usuarios_def JSON_roundtrip
      json_array_def those_map_inverse json_user_inverse)

lemma JSON_publicaciones_roundtrip:
  "JSON_parse_publicaciones (JSON_stringify_publicaciones ps) = Some ps"
  by (simp add: JSON_parse_publicaciones_def JSON_stringify_publicaciones_def JSON_roundtrip
      json_array_def those_map_inverse json_post_inverse)

lemma JSON_likes_roundtrip: "JSON_parse_likes (JSON_stringify_likes ls) = Some ls"
  by (simp add: JSON_parse_likes_def JSON_stringify_likes_def JSON_roundtrip
      json_array_def those_map_inverse json_like_inverse)

text \<open>
  The text of one user, a text with other white space and another order of the members,
  a text that is not JSON, and the text of an array that holds \<open>undefined\<close>.
\<close>

lemma JSON_stringify_usuarios_ana:
  "JSON_stringify_usuarios [ana] =
     ''['' @ [CHR 0x0A]
     @ ''  {'' @ [CHR 0x0A]
     @ ''    '' @ [CHR 0x22] @ ''username'' @ [CHR 0x22] @ '': '' @ [CHR 0x22] @ ''ana''
         @ [CHR 0x22] @ '','' @ [CHR 0x0A]
     @ ''    '' @ [CHR 0x22] @ ''password'' @ [CHR 0x22] @ '': '' @ [CHR 0x22]
         @ ''$2a$10$secret'' @ [CHR 0x22] @ [CHR 0x0A]
     @ ''  }'' @ [CHR 0x0A]
     @ '']''"
  by (simp add: JSON_stringify_usuarios_def JSON_stringify_def user_json_def ana_def
      newline_def QuoteJSONString_def QuoteJSONChar_def)

lemma JSON_parse_usuarios_ana:
  \<open>JSON_parse_usuarios ''[{"password":"$2a$10$secret", "username" : "ana"}]'' = Some [ana]\<close>
  by (simp add: JSON_parse_usuarios_def JSON_parse_def is_ws_def is_digit_def json_array_def
      json_user_def string_property_def property_def ana_def)

lemma JSON_parse_usuarios_damaged: "JSON_parse_usuarios ''[{'' = None"
  by (simp add: JSON_parse_usuarios_def JSON_parse_def is_ws_def is_digit_def)

lemma JSON_stringify_undefined:
  "JSON_stringify (JArray [liked_json None]) = ''['' @ [CHR 0x0A] @ ''  null'' @ [CHR 0x0A] @ '']''"
  by (simp add: JSON_stringify_def liked_json_def newline_def)

text \<open>
  C8. For each of the three stores, \<open>JSON.parse\<close> gives back the array of records that
  \<open>JSON.stringify\<close> printed: every array of users, every array of posts, and every
  array of like entries whose liked records are all records (a liked record that is
  \<open>undefined\<close> is written as \<open>null\<close>). So for every such array, every path and every
  disk that accepts the write and lets the file be read, \<open>readJsonFile\<close> after
  \<open>writeJsonFile\<close> returns the array that was written.
\<close>

theorem persist_then_load:
  "JSON_parse_usuarios (JSON_stringify_usuarios us) = Some us
   \<and> JSON_parse_publicaciones (JSON_stringify_publicaciones ps) = Some ps
   \<and> (likes_defined ls \<longrightarrow> JSON_parse_likes (JSON_stringify_likes ls) = Some ls)
   \<and> (write_accepted E w p \<longrightarrow> \<not> throws w (ReadFileSync p) \<longrightarrow>
        fst (readJsonFile E JSON_stringify_usuarios JSON_parse_usuarios
               (writeJsonFile E JSON_stringify_usuarios w p us) p) = us
        \<and> fst (readJsonFile E JSON_stringify_publicaciones JSON_parse_publicaciones
               (writeJsonFile E JSON_stringify_publicaciones w p ps) p) = ps
        \<and> (likes_defined ls \<longrightarrow>
             fst (readJsonFile E JSON_stringify_likes JSON_parse_likes
                    (writeJsonFile E JSON_stringify_likes w p ls) p) = ls))"
proof -
  have reread: "fst (readJsonFile E s parse (writeJsonFile E s w p recs) p) = recs"
    if "write_accepted E w p" "\<not> throws w (ReadFileSync p)" "parse (s recs) = Some recs"
    for s :: "'r list \<Rightarrow> string" and parse recs
    using that writeJsonFile_accepted [OF that(1), of s recs]
    by (simp add: readJsonFile_def existsSync_def readFileSync_def throws_writeJsonFile)
  from reread [of JSON_parse_usuarios JSON_stringify_usuarios us]
    reread [of JSON_parse_publicaciones JSON_stringify_publicaciones ps]
    reread [of JSON_parse_likes JSON_stringify_likes ls]
  show ?thesis
    by (simp add: JSON_usuarios_roundtrip JSON_publicaciones_roundtrip JSON_likes_roundtrip)
qed

theorem persist_then_load_witness:
  "likes_defined (likes two_fotos)
   \<and> write_accepted example_env blank_disk ''/var/data/data/likes.json''
   \<and> \<not> throws blank_disk (ReadFileSync ''/var/data/data/likes.json'')
   \<and> JSON_parse_likes (JSON_stringify_likes (likes two_fotos)) = Some (likes two_fotos)
   \<and> fst (readJsonFile example_env JSON_stringify_usuarios JSON_parse_usuarios
            (writeJsonFile example_env JSON_stringify_usuarios blank_disk
               ''/var/data/data/likes.json'' [ana, ana])
            ''/var/data/data/likes.json'') = [ana, ana]
   \<and> fst (readJsonFile example_env JSON_stringify_publicaciones JSON_parse_publicaciones
            (writeJsonFile example_env JSON_stringify_publicaciones blank_disk
               ''/var/data/data/likes.json'' [foto, foto_bis])
            ''/var/data/data/likes.json'') = [foto, foto_bis]
   \<and> fst (readJsonFile example_env JSON_stringify_likes JSON_parse_likes
            (writeJsonFile example_env JSON_stringify_likes blank_disk
               ''/var/data/data/likes.json'' (likes two_fotos))
            ''/var/data/data/likes.json'') = likes two_fotos"
proof -
  have h1: "write_accepted example_env blank_disk ''/var/data/data/likes.json''"
    by (rule blank_disk_accepts)
  have h2: "\<not> throws blank_disk (ReadFileSync ''/var/data/data/likes.json'')"
    by (simp add: blank_disk_def)
  have h3: "likes_defined (likes two_fotos)"
    by (simp add: likes_defined_def two_fotos_def)
  from persist_then_load [of "[ana, ana]" "[foto, foto_bis]" "likes two_fotos" example_env
      blank_disk "''/var/data/data/likes.json''"] h1 h2 h3
  show ?thesis
    by blast
qed

subsection \<open>C5: uploading a post\<close>

text \<open>
  C5. A request to \<open>POST /api/upload\<close> that carries a stored file is answered 201 with
  the new post. The post list afterwards is the old one followed by that one post, whose
  \<open>timestamp\<close> is the value of the clock and whose other fields are those of the
  request; the users and the likes are untouched; and \<open>writeJsonFile\<close> has been called
  on the new post list, so that on a disk that accepts the write the file holds its text.
  A request without a file is answered 400 "Error al subir la imagen" (InvalidInput), and
  the state is the one before.
\<close>

theorem upload_appends_post:
  "(let r = post_api_upload E now st (Some filename) req_username req_description req_imageName;
        nuevaPublicacion = \<lparr>imagePath = Some (baseUrl @ ''/uploads/'' @ filename),
                            imageName = req_imageName, description = req_description,
                            post.username = req_username, timestamp = Some now\<rparr>
    in fst r = (201, Nueva_publicacion Imagen_subida_exitosamente nuevaPublicacion)
       \<and> publicaciones (snd r) = publicaciones st @ [nuevaPublicacion]
       \<and> timestamp (last (publicaciones (snd r))) = Some now
       \<and> length (publicaciones (snd r)) = Suc (length (publicaciones st))
       \<and> usuarios (snd r) = usuarios st
       \<and> likes (snd r) = likes st
       \<and> world (snd r) =
           writeJsonFile E (stringify_publicaciones E) (world st) (publicacionesFilePath E)
             (publicaciones (snd r))
       \<and> (write_accepted E (world st) (publicacionesFilePath E) \<longrightarrow>
            nodes (world (snd r)) (publicacionesFilePath E) =
              Some (File (stringify_publicaciones E (publicaciones (snd r))))))
   \<and> post_api_upload E now st None req_username req_description req_imageName =
       ((400, Message Error_al_subir_la_imagen), st)"
  by (simp add: post_api_upload_def Let_def writeJsonFile_accepted)

theorem upload_appends_post_witness:
  "write_accepted example_env (world ana_registered) (publicacionesFilePath example_env)
   \<and> publicaciones (snd (post_api_upload example_env 1700000000000 ana_registered
        (Some ''1700000000000-42.png'') (Some ''ana'') (Some ''d'') (Some ''a.png''))) =
       [\<lparr>imagePath = Some ''https://servidor-c1k2.onrender.com/uploads/1700000000000-42.png'',
         imageName = Some ''a.png'', description = Some ''d'',
         post.username = Some ''ana'', timestamp = Some 1700000000000\<rparr>]
   \<and> nodes (world (snd (post_api_upload example_env 1700000000000 ana_registered
        (Some ''1700000000000-42.png'') (Some ''ana'') (Some ''d'') (Some ''a.png''))))
       ''/var/data/data/publicaciones.json'' =
       Some (File ''[https://servidor-c1k2.onrender.com/uploads/1700000000000-42.png;]'')"
proof -
  have h: "write_accepted example_env (world ana_registered) (publicacionesFilePath example_env)"
    by (simp add: ana_registered_def example_paths blank_disk_accepts)
  let ?r = "post_api_upload example_env 1700000000000 ana_registered
      (Some ''1700000000000-42.png'') (Some ''ana'') (Some ''d'') (Some ''a.png'')"
  let ?np = "\<lparr>imagePath = Some (baseUrl @ ''/uploads/'' @ ''1700000000000-42.png''),
               imageName = Some ''a.png'', description = Some ''d'',
               post.username = Some ''ana'', timestamp = Some 1700000000000\<rparr>"
  note t = upload_appends_post [of example_env 1700000000000 ana_registered
      "''1700000000000-42.png''" "Some ''ana''" "Some ''d''" "Some ''a.png''",
      unfolded Let_def, THEN conjunct1]
  from t have pubs: "publicaciones (snd ?r) = publicaciones ana_registered @ [?np]"
    by blast
  from t h have "nodes (world (snd ?r)) (publicacionesFilePath example_env) =
      Some (File (stringify_publicaciones example_env (publicaciones (snd ?r))))"
    by blast
  then have on_disk: "nodes (world (snd ?r)) ''/var/data/data/publicaciones.json'' =
      Some (File ''[https://servidor-c1k2.onrender.com/uploads/1700000000000-42.png;]'')"
    by (simp only: pubs example_paths) (simp add: ana_registered_def example_env_def baseUrl_def)
  from pubs have "publicaciones (snd ?r) =
       [\<lparr>imagePath = Some ''https://servidor-c1k2.onrender.com/uploads/1700000000000-42.png'',
         imageName = Some ''a.png'', description = Some ''d'',
         post.username = Some ''ana'', timestamp = Some 1700000000000\<rparr>]"
    by (simp add: ana_registered_def baseUrl_def)
  with h on_disk show ?thesis
    by blast
qed

subsection \<open>Facts about findIndex and splice\<close>

lemma findIndex_None_iff: "findIndex P xs = None \<longleftrightarrow> (\<forall>x \<in> set xs. \<not> P x)"
  by (induction xs) auto

lemma findIndex_SomeD:
  "findIndex P xs = Some i \<Longrightarrow> i < length xs \<and> P (xs ! i) \<and> (\<forall>j < i. \<not> P (xs ! j))"
proof (induction xs arbitrary: i)
  case Nil
  then show ?case by simp
next
  case (Cons x xs)
  show ?case
  proof (cases "P x")
    case True
    with Cons.prems show ?thesis by simp
  next
    case False
    with Cons.prems obtain k where k: "findIndex P xs = Some k" "i = Suc k"
      by auto
    from Cons.IH [OF k(1)] False k(2) show ?thesis
      by (auto simp: nth_Cons split: nat.splits)
  qed
qed

lemma find_findIndex: "find P xs = map_option (\<lambda>i. xs ! i) (findIndex P xs)"
  by (induction xs) (auto simp: option.map_comp comp_def)

lemma findIndex_is_Some: "x \<in> set xs \<Longrightarrow> P x \<Longrightarrow> \<exists>i. findIndex P xs = Some i"
  using findIndex_None_iff [of P xs] by (cases "findIndex P xs") auto

lemma splice1_Cons_0: "splice1 0 (x # xs) = xs"
  by (simp add: splice1_def)

lemma splice1_Cons_Suc: "splice1 (Suc i) (x # xs) = x # splice1 i xs"
  by (simp add: splice1_def)

lemma set_splice1: "set (splice1 i xs) \<subseteq> set xs"
  unfolding splice1_def using set_take_subset [of i xs] set_drop_subset [of "Suc i" xs]
  by auto

lemma length_splice1: "i < length xs \<Longrightarrow> length (splice1 i xs) = length xs - 1"
  by (auto simp: splice1_def)

lemma distinct_map_splice1: "distinct (map f xs) \<Longrightarrow> distinct (map f (splice1 i xs))"
proof (induction xs arbitrary: i)
  case Nil
  then show ?case by (simp add: splice1_def)
next
  case (Cons x xs)
  show ?case
  proof (cases i)
    case 0
    with Cons.prems show ?thesis by (simp add: splice1_Cons_0)
  next
    case (Suc k)
    from Cons.prems have "f x \<notin> f ` set (splice1 k xs)"
      using set_splice1 [of k xs] by auto
    with Cons Suc show ?thesis by (simp add: splice1_Cons_Suc)
  qed
qed

text \<open>Removing the first match: what precedes it stays, and so does what follows it.\<close>

lemma splice1_findIndex:
  "findIndex P xs = Some i \<Longrightarrow>
     splice1 i xs = takeWhile (\<lambda>x. \<not> P x) xs @ tl (dropWhile (\<lambda>x. \<not> P x) xs)"
proof (induction xs arbitrary: i)
  case Nil
  then show ?case by simp
next
  case (Cons x xs)
  show ?case
  proof (cases "P x")
    case True
    with Cons.prems show ?thesis by (simp add: splice1_Cons_0)
  next
    case False
    with Cons.prems obtain k where k: "findIndex P xs = Some k" "i = Suc k"
      by auto
    with Cons.IH [OF k(1)] False show ?thesis
      by (simp add: splice1_Cons_Suc)
  qed
qed

lemma filter_splice1_findIndex:
  "findIndex P xs = Some i \<Longrightarrow> filter P (splice1 i xs) = tl (filter P xs)"
proof (induction xs arbitrary: i)
  case Nil
  then show ?case by simp
next
  case (Cons x xs)
  show ?case
  proof (cases "P x")
    case True
    with Cons.prems show ?thesis by (simp add: splice1_Cons_0)
  next
    case False
    with Cons.prems obtain k where k: "findIndex P xs = Some k" "i = Suc k"
      by auto
    with Cons.IH [OF k(1)] False show ?thesis
      by (simp add: splice1_Cons_Suc)
  qed
qed

lemma filter_not_splice1_findIndex:
  "findIndex P xs = Some i \<Longrightarrow>
     filter (\<lambda>x. \<not> P x) (splice1 i xs) = filter (\<lambda>x. \<not> P x) xs"
proof (induction xs arbitrary: i)
  case Nil
  then show ?case by simp
next
  case (Cons x xs)
  show ?case
  proof (cases "P x")
    case True
    with Cons.prems show ?thesis by (simp add: splice1_Cons_0)
  next
    case False
    with Cons.prems obtain k where k: "findIndex P xs = Some k" "i = Suc k"
      by auto
    with Cons.IH [OF k(1)] False show ?thesis
      by (simp add: splice1_Cons_Suc)
  qed
qed

subsection \<open>Facts about callbacks that throw\<close>

lemma key_test_simps:
  "key_test publication None = None"
  "key_test None likedPub = None"
  "key_test (Some p) (Some l) = Some (same_key p l)"
  by (simp_all add: key_test_def split: option.splits)

lemma key_test_matches: "key_test (Some p) lp = Some True \<longleftrightarrow> matches p lp"
  by (simp add: key_test_def matches_def split: option.splits)

lemma keep_test_simps:
  "keep_test p None = None"
  "keep_test p (Some l) = Some (\<not> same_key p l)"
  by (auto simp: keep_test_def same_key_def)

lemma some_t_False_iff: "some_t f xs = Some False \<longleftrightarrow> (\<forall>x \<in> set xs. f x = Some False)"
  by (induction xs) (auto split: option.splits)

lemma some_t_True_D: "some_t f xs = Some True \<Longrightarrow> \<exists>x \<in> set xs. f x = Some True"
  by (induction xs) (auto split: option.splits if_splits)

lemma some_t_total:
  "\<forall>x \<in> set xs. f x \<noteq> None \<Longrightarrow> some_t f xs = Some (\<exists>x \<in> set xs. f x = Some True)"
  by (induction xs) (auto split: option.splits)

lemma findIndex_t_total:
  "\<forall>x \<in> set xs. f x \<noteq> None \<Longrightarrow>
     findIndex_t f xs = Some (findIndex (\<lambda>x. f x = Some True) xs)"
  by (induction xs) (auto split: option.splits simp: option.map_comp comp_def)

lemma findIndex_t_SomeD:
  "findIndex_t f xs = Some (Some j) \<Longrightarrow> j < length xs \<and> f (xs ! j) = Some True"
proof (induction xs arbitrary: j)
  case Nil
  then show ?case by simp
next
  case (Cons x xs)
  show ?case
  proof (cases "f x = Some True")
    case True
    with Cons.prems show ?thesis by simp
  next
    case False
    with Cons.prems obtain k where "findIndex_t f xs = Some (Some k)" "j = Suc k"
      by (auto split: option.splits if_splits)
    with Cons.IH [of k] show ?thesis by simp
  qed
qed

lemma filter_t_Some_iff:
  "filter_t f xs = Some ys \<longleftrightarrow>
     (\<forall>x \<in> set xs. f x \<noteq> None) \<and> ys = filter (\<lambda>x. f x = Some True) xs"
  by (induction xs arbitrary: ys) (auto split: option.splits)

lemma filter_t_None_iff: "filter_t f xs = None \<longleftrightarrow> (\<exists>x \<in> set xs. f x = None)"
  by (induction xs) (auto split: option.splits)

lemma defined_member: "None \<notin> set xs \<Longrightarrow> x \<in> set xs \<Longrightarrow> \<exists>y. x = Some y"
  by (cases x) auto

text \<open>
  The cascade goes through exactly when no liked record is \<open>undefined\<close>, and then
  every entry keeps its username and the records that have another key.
\<close>

lemma unlike_everywhere_defined:
  assumes "likes_defined ls"
  shows "unlike_everywhere publication ls =
           (map (\<lambda>like. like\<lparr>likedPublications :=
                   filter (\<lambda>lp. \<not> matches publication lp) (likedPublications like)\<rparr>) ls,
            False)"
  using assms
proof (induction ls)
  case Nil
  then show ?case by simp
next
  case (Cons like rest)
  from Cons.prems have d: "None \<notin> set (likedPublications like)" and r: "likes_defined rest"
    by (simp_all add: likes_defined_def)
  have all: "keep_test publication x \<noteq> None" if "x \<in> set (likedPublications like)" for x
  proof (cases x)
    case None
    with that d show ?thesis by simp
  next
    case (Some l)
    then show ?thesis by (simp add: keep_test_simps)
  qed
  have "filter (\<lambda>x. keep_test publication x = Some True) (likedPublications like) =
        filter (\<lambda>lp. \<not> matches publication lp) (likedPublications like)"
  proof (intro filter_cong refl)
    fix x assume "x \<in> set (likedPublications like)"
    with d obtain l where "x = Some l"
      using defined_member by blast
    then show "(keep_test publication x = Some True) = (\<not> matches publication x)"
      by (simp add: keep_test_simps matches_def)
  qed
  with all have "filter_t (keep_test publication) (likedPublications like) =
                 Some (filter (\<lambda>lp. \<not> matches publication lp) (likedPublications like))"
    by (simp add: filter_t_Some_iff)
  with Cons.IH [OF r] show ?case
    by simp
qed

lemma unlike_everywhere_threw:
  "snd (unlike_everywhere publication ls) \<longleftrightarrow> \<not> likes_defined ls"
proof (induction ls)
  case Nil
  then show ?case by (simp add: likes_defined_def)
next
  case (Cons like rest)
  show ?case
  proof (cases "filter_t (keep_test publication) (likedPublications like)")
    case None
    then have "None \<in> set (likedPublications like)"
      by (auto simp: filter_t_None_iff keep_test_def split: option.splits)
    with None show ?thesis
      by (simp add: likes_defined_def)
  next
    case (Some kept)
    then have "\<forall>x \<in> set (likedPublications like). keep_test publication x \<noteq> None"
      by (simp add: filter_t_Some_iff)
    then have "None \<notin> set (likedPublications like)"
      by (auto simp: keep_test_simps)
    with Some Cons.IH show ?thesis
      by (cases "unlike_everywhere publication rest") (simp add: likes_defined_def)
  qed
qed


subsection \<open>C10: a request that is answered with an error\<close>

text \<open>
  As long as no liked record is \<open>undefined\<close>, a route that answers with an error status
  (400, 404 or 500) leaves the three arrays and the disk as they were; the paths that
  answer 500 from a \<open>catch\<close> print a line on the console. For \<open>POST /api/likes\<close> this
  holds although line 241 pushes a new entry before the duplicate test: the test
  cannot succeed, or throw, on the empty entry just pushed.
\<close>

lemma errors_change_nothing_defined:
  assumes "400 \<le> fst (fst (handle E st rq))"
    and "likes_defined (likes st)"
  shows "usuarios (snd (handle E st rq)) = usuarios st
         \<and> publicaciones (snd (handle E st rq)) = publicaciones st
         \<and> likes (snd (handle E st rq)) = likes st
         \<and> nodes (world (snd (handle E st rq))) = nodes (world st)"
proof (cases rq)
  case GET_usuarios
  with assms show ?thesis by (simp add: get_api_usuarios_def)
next
  case (POST_usuarios u p)
  with assms show ?thesis
    by (auto simp: post_api_usuarios_def post_api_usuarios_until_await_def
        post_api_usuarios_after_await_def Let_def nodes_console_log
        split: if_splits option.splits)
next
  case (POST_usuarios_after_await u p)
  with assms show ?thesis
    by (auto simp: post_api_usuarios_after_await_def Let_def nodes_console_log
        split: option.splits)
next
  case (POST_login u p)
  with assms show ?thesis
    by (auto simp: post_api_login_def nodes_console_log split: if_splits option.splits)
next
  case GET_publicaciones
  with assms show ?thesis by (simp add: get_api_publicaciones_def)
next
  case (POST_upload now f u d n)
  with assms show ?thesis
    by (auto simp: post_api_upload_def Let_def split: option.splits)
next
  case (DELETE_publicaciones publication)
  with assms show ?thesis
    by (auto simp: delete_api_publicaciones_def Let_def nodes_console_log
        unlike_everywhere_defined split: option.splits if_splits)
next
  case (GET_likes u)
  with assms show ?thesis by (auto simp: get_api_likes_def split: option.splits)
next
  case (POST_likes u publication)
  with assms show ?thesis
    by (auto simp: post_api_likes_def Let_def split: option.splits if_splits)
next
  case (DELETE_likes u publication)
  with assms show ?thesis
    by (auto simp: delete_api_likes_def Let_def split: option.splits)
qed

lemma after_empty_like_arrays:
  "usuarios after_empty_like = []"
  "publicaciones after_empty_like = [foto]"
  "likes after_empty_like = [\<lparr>like_entry.username = Some ''bob'', likedPublications = [None]\<rparr>]"
  by (simp_all add: after_empty_like_def empty_state_def post_api_upload_def
      post_api_likes_def Let_def foto_def baseUrl_def)

lemma after_empty_like_file:
  "nodes (world after_empty_like) ''/var/data/data/publicaciones.json'' =
     Some (File ''[https://servidor-c1k2.onrender.com/uploads/1-2.png;]'')"
  "nodes (world after_empty_like) ''/var/data/uploads/1-2.png'' = None"
  by (simp_all add: after_empty_like_def empty_state_def post_api_upload_def
      post_api_likes_def Let_def baseUrl_def writeJsonFile_def mkdirSync_def writeFileSync_def
      existsSync_def console_log_def example_paths blank_disk_def,
      simp_all add: example_env_def)

text \<open>
  C10 says that no route that answers with an error has appended, removed or written
  anything. \<open>DELETE /api/publicaciones\<close> does not keep to it. After an upload and a
  like whose body has no \<open>publication\<close> (answered 201, with \<open>undefined\<close> pushed into
  the entry of the user), the deletion of the uploaded post unlinks the image, splices
  the post out of \<open>publicaciones\<close>, and then the \<open>filter\<close> of line 207 throws on the
  \<open>undefined\<close> record: the \<open>catch\<close> answers 500 "Error al eliminar la publicacion"
  with the post already gone from the array, and with nothing written, so that the file
  still lists it.
\<close>

theorem delete_error_after_removal:
  "publicaciones after_empty_like = [foto]
   \<and> fst (handle example_env after_empty_like (DELETE_publicaciones (Some foto))) =
       (500, Message Error_al_eliminar_la_publicacion)
   \<and> publicaciones (snd (handle example_env after_empty_like
        (DELETE_publicaciones (Some foto)))) = []
   \<and> nodes (world (snd (handle example_env after_empty_like
        (DELETE_publicaciones (Some foto))))) ''/var/data/data/publicaciones.json'' =
       Some (File ''[https://servidor-c1k2.onrender.com/uploads/1-2.png;]'')"
proof -
  have i: "findIndex (same_key foto) (publicaciones after_empty_like) = Some 0"
    by (simp add: after_empty_like_arrays same_key_def)
  have p: "imagePath foto = Some ''https://servidor-c1k2.onrender.com/uploads/1-2.png''"
    by (simp add: foto_def)
  have f: "path_join example_env (UPLOADS_DIR example_env)
             (last_segment ''https://servidor-c1k2.onrender.com/uploads/1-2.png'') =
           ''/var/data/uploads/1-2.png''"
    by (simp add: example_env_def last_segment_def)
  show ?thesis
    by (simp add: delete_api_publicaciones_def i p f Let_def existsSync_def
        after_empty_like_file after_empty_like_arrays splice1_def nodes_console_log
        keep_test_simps same_key_def)
qed

subsection \<open>C3: registering a username twice\<close>


text \<open>The registration that nothing interrupts, written out.\<close>

lemma post_api_usuarios_eq:
  "post_api_usuarios E st req_username req_password =
     (if falsy req_username \<or> falsy req_password then
        ((400, Message Username_y_password_son_requeridos), st)
      else
        case find (\<lambda>u. Some (user.username u) = req_username) (usuarios st) of
          Some existingUser \<Rightarrow> ((400, Message El_usuario_ya_existe), st)
        | None \<Rightarrow>
           (case bcrypt_hash E (the req_password) 10 of
              None \<Rightarrow>
                ((500, Message Error_al_crear_el_usuario),
                 st\<lparr>world := console_log Error_al_crear_usuario (world st)\<rparr>)
            | Some hashedPassword \<Rightarrow>
                (let usuarios' = usuarios st @
                       [\<lparr>user.username = the req_username, password = hashedPassword\<rparr>];
                     w = writeJsonFile E (stringify_usuarios E) (world st)
                           (usuariosFilePath E) usuarios'
                 in ((201, Message Usuario_creado_exitosamente),
                     st\<lparr>usuarios := usuarios', world := w\<rparr>))))"
  by (simp add: post_api_usuarios_def post_api_usuarios_until_await_def
      post_api_usuarios_after_await_def split: option.splits)





subsection \<open>C4: listing the likes of a user\<close>

lemma findIndex_append_last:
  "\<forall>x \<in> set xs. \<not> P x \<Longrightarrow> P y \<Longrightarrow> findIndex P (xs @ [y]) = Some (length xs)"
  by (induction xs) auto

lemma find_append_last:
  "\<forall>x \<in> set xs. \<not> P x \<Longrightarrow> P y \<Longrightarrow> find P (xs @ [y]) = Some y"
  by (induction xs) auto

lemma find_SomeD: "find P xs = Some x \<Longrightarrow> x \<in> set xs \<and> P x"
  by (induction xs) (auto split: if_splits)

lemma map_update_same:
  "i < length xs \<Longrightarrow> f y = f (xs ! i) \<Longrightarrow> map f (xs[i := y]) = map f xs"
  by (simp add: map_update list_update_same_conv)

lemma unlike_everywhere_usernames:
  "map like_entry.username (fst (unlike_everywhere publication ls)) =
     map like_entry.username ls"
  by (induction ls) (auto split: option.splits prod.splits)

lemma unlike_everywhere_usernames_pair:
  "unlike_everywhere publication ls = (ls', threw) \<Longrightarrow>
     map like_entry.username ls' = map like_entry.username ls"
  using unlike_everywhere_usernames [of publication ls] by simp

text \<open>The entries of \<open>likes\<close> and their order: only a like of a new user adds one.\<close>

lemma like_usernames_handle:
  "map like_entry.username (likes (snd (handle E st rq))) =
     map like_entry.username (likes st) @
       (case rq of
          POST_likes u p \<Rightarrow> if u \<in> like_entry.username ` set (likes st) then [] else [u]
        | _ \<Rightarrow> [])"
proof (cases rq)
  case GET_usuarios
  then show ?thesis by (simp add: get_api_usuarios_def)
next
  case (POST_usuarios u p)
  then show ?thesis
    by (auto simp: post_api_usuarios_eq Let_def split: if_splits option.splits)
next
  case (POST_usuarios_after_await u p)
  then show ?thesis
    by (auto simp: post_api_usuarios_after_await_def Let_def split: option.splits)
next
  case (POST_login u p)
  then show ?thesis
    by (auto simp: post_api_login_def split: if_splits option.splits)
next
  case GET_publicaciones
  then show ?thesis by (simp add: get_api_publicaciones_def)
next
  case (POST_upload now f u d n)
  then show ?thesis
    by (auto simp: post_api_upload_def Let_def split: option.splits)
next
  case (DELETE_publicaciones publication)
  then show ?thesis
    by (auto simp: delete_api_publicaciones_def Let_def unlike_everywhere_usernames_pair
        split: option.splits if_splits prod.splits)
next
  case (GET_likes u)
  then show ?thesis by (auto simp: get_api_likes_def split: option.splits)
next
  case (POST_likes u publication)
  show ?thesis
  proof (cases "findIndex (\<lambda>like. like_entry.username like = u) (likes st)")
    case None
    then have "u \<notin> like_entry.username ` set (likes st)"
      by (auto simp: findIndex_None_iff)
    with None POST_likes show ?thesis
      by (simp add: post_api_likes_def Let_def)
  next
    case (Some i)
    from findIndex_SomeD [OF Some]
    have i: "i < length (likes st)" "like_entry.username (likes st ! i) = u"
      by simp_all
    then have "u \<in> like_entry.username ` set (likes st)"
      by (metis image_eqI nth_mem)
    with Some POST_likes i show ?thesis
      by (simp add: post_api_likes_def Let_def map_update_same split: option.splits)
  qed
next
  case (DELETE_likes u publication)
  show ?thesis
  proof (cases "findIndex (\<lambda>like. like_entry.username like = u) (likes st)")
    case None
    with DELETE_likes show ?thesis
      by (simp add: delete_api_likes_def)
  next
    case (Some i)
    from findIndex_SomeD [OF Some] have "i < length (likes st)"
      by simp
    with Some DELETE_likes show ?thesis
      by (simp add: delete_api_likes_def Let_def map_update_same split: option.splits)
  qed
qed

lemma like_usernames_run:
  "u \<in> like_entry.username ` set (likes (run E st rqs)) \<longleftrightarrow>
     u \<in> like_entry.username ` set (likes st) \<or> (\<exists>p. POST_likes u p \<in> set rqs)"
proof (induction rqs arbitrary: st)
  case Nil
  then show ?case by simp
next
  case (Cons rq rqs)
  have "set (map like_entry.username (likes (snd (handle E st rq)))) =
          like_entry.username ` set (likes st) \<union>
            (case rq of POST_likes v p \<Rightarrow> {v} | _ \<Rightarrow> {})"
    unfolding like_usernames_handle by (auto split: request.splits)
  then have "u \<in> like_entry.username ` set (likes (snd (handle E st rq))) \<longleftrightarrow>
          u \<in> like_entry.username ` set (likes st) \<or> (\<exists>p. rq = POST_likes u p)"
    by (auto split: request.splits)
  with Cons.IH [of "snd (handle E st rq)"] show ?case
    by auto
qed

lemma get_api_likes_404:
  "fst (get_api_likes st u) = (404, Message El_usuario_no_tiene_publicaciones_con_like)
     \<longleftrightarrow> u \<notin> like_entry.username ` set (likes st)"
  by (auto simp: get_api_likes_def find_None_iff split: option.splits dest: find_SomeD)

text \<open>
  C4, as the code has it. \<open>GET /api/likes/:username\<close> answers 404 exactly when
  \<open>likes\<close> has no entry for the username; for a server that started with empty
  arrays, that is exactly when no \<open>POST /api/likes\<close> for that username was ever
  handled. An entry that exists and is empty is told apart from a missing one: for a
  user whose listing is answered 404, a like followed by its removal leaves an entry,
  and the listing is then answered 200 with the empty array.
\<close>

theorem likes_listing_not_found:
  "(fst (get_api_likes st u) = (404, Message El_usuario_no_tiene_publicaciones_con_like)
      \<longleftrightarrow> (\<forall>like \<in> set (likes st). like_entry.username like \<noteq> u))
   \<and> (fst (get_api_likes (run E (empty_state w) rqs) u) =
         (404, Message El_usuario_no_tiene_publicaciones_con_like)
      \<longleftrightarrow> (\<forall>p. POST_likes u p \<notin> set rqs))
   \<and> (fst (get_api_likes st u) = (404, Message El_usuario_no_tiene_publicaciones_con_like) \<longrightarrow>
        fst (post_api_likes E st u (Some p)) = (201, Message Publicacion_guardada_exitosamente)
        \<and> fst (delete_api_likes E (snd (post_api_likes E st u (Some p))) u (Some p)) =
            (200, Message Like_eliminado_exitosamente)
        \<and> fst (get_api_likes
                 (snd (delete_api_likes E (snd (post_api_likes E st u (Some p))) u (Some p)))
                 u) =
            (200, Liked []))"
proof -
  have a: "fst (get_api_likes st u) = (404, Message El_usuario_no_tiene_publicaciones_con_like)
             \<longleftrightarrow> (\<forall>like \<in> set (likes st). like_entry.username like \<noteq> u)"
    by (auto simp: get_api_likes_404)
  have b: "fst (get_api_likes (run E (empty_state w) rqs) u) =
             (404, Message El_usuario_no_tiene_publicaciones_con_like)
           \<longleftrightarrow> (\<forall>p. POST_likes u p \<notin> set rqs)"
    by (simp add: get_api_likes_404 like_usernames_run empty_state_def)
  have c: "fst (post_api_likes E st u (Some p)) =
             (201, Message Publicacion_guardada_exitosamente)
        \<and> fst (delete_api_likes E (snd (post_api_likes E st u (Some p))) u (Some p)) =
            (200, Message Like_eliminado_exitosamente)
        \<and> fst (get_api_likes
                 (snd (delete_api_likes E (snd (post_api_likes E st u (Some p))) u (Some p)))
                 u) =
            (200, Liked [])"
    if "fst (get_api_likes st u) = (404, Message El_usuario_no_tiene_publicaciones_con_like)"
  proof -
    let ?P = "\<lambda>like. like_entry.username like = u"
    from that a have none: "\<forall>like \<in> set (likes st). \<not> ?P like"
      by simp
    then have fi: "findIndex ?P (likes st) = None"
      by (simp add: findIndex_None_iff)
    let ?s1 = "snd (post_api_likes E st u (Some p))"
    have add: "fst (post_api_likes E st u (Some p)) =
                 (201, Message Publicacion_guardada_exitosamente)"
      and l1: "likes ?s1 =
                 likes st @ [\<lparr>like_entry.username = u, likedPublications = [Some p]\<rparr>]"
      by (simp_all add: post_api_likes_def fi Let_def)
    have fi1: "findIndex ?P
                 (likes st @ [\<lparr>like_entry.username = u, likedPublications = [Some p]\<rparr>]) =
                 Some (length (likes st))"
      using none by (simp add: findIndex_append_last)
    let ?s2 = "snd (delete_api_likes E ?s1 u (Some p))"
    have del: "fst (delete_api_likes E ?s1 u (Some p)) =
                 (200, Message Like_eliminado_exitosamente)"
      and l2: "likes ?s2 = likes st @ [\<lparr>like_entry.username = u, likedPublications = []\<rparr>]"
      by (simp_all add: delete_api_likes_def [of E ?s1] fi1 l1 Let_def same_key_def
          splice1_def key_test_simps)
    have "find ?P (likes ?s2) = Some \<lparr>like_entry.username = u, likedPublications = []\<rparr>"
      unfolding l2 using none by (simp add: find_append_last)
    then have "fst (get_api_likes ?s2 u) = (200, Liked [])"
      by (simp add: get_api_likes_def)
    with add del show ?thesis
      by blast
  qed
  from a b c show ?thesis
    by blast
qed

theorem likes_listing_not_found_witness:
  "fst (get_api_likes (empty_state blank_disk) (Some ''ana'')) =
     (404, Message El_usuario_no_tiene_publicaciones_con_like)
   \<and> likes (empty_state blank_disk) = []
   \<and> fst (get_api_likes
            (snd (delete_api_likes example_env
                    (snd (post_api_likes example_env (empty_state blank_disk) (Some ''ana'')
                            (Some foto)))
                    (Some ''ana'') (Some foto)))
            (Some ''ana'')) = (200, Liked [])"
proof -
  have h: "fst (get_api_likes (empty_state blank_disk) (Some ''ana'')) =
             (404, Message El_usuario_no_tiene_publicaciones_con_like)"
    by (simp add: get_api_likes_def empty_state_def)
  have e: "likes (empty_state blank_disk) = []"
    by (simp add: empty_state_def)
  from likes_listing_not_found [of "empty_state blank_disk" "Some ''ana''" example_env
      blank_disk "[]" foto] h e
  show ?thesis
    by blast
qed

text \<open>
  C4 as stated fails: \<open>ana\<close> likes a post and takes the like back. Her listing is then
  answered 200 with the empty array, while before her first like it was answered 404.
\<close>

theorem likes_listing_counterexample:
  "fst (get_api_likes (empty_state blank_disk) (Some ''ana'')) =
     (404, Message El_usuario_no_tiene_publicaciones_con_like)
   \<and> fst (get_api_likes
            (run example_env (empty_state blank_disk)
               [POST_likes (Some ''ana'') (Some foto), DELETE_likes (Some ''ana'') (Some foto)])
            (Some ''ana'')) = (200, Liked [])"
  by (simp add: get_api_likes_def empty_state_def post_api_likes_def delete_api_likes_def
      Let_def same_key_def splice1_def key_test_simps)

subsection \<open>C2: no post is liked twice by one user\<close>

lemma same_key_iff: "same_key publication pub \<longleftrightarrow> key_of publication = key_of pub"
  by (auto simp: same_key_def key_of_def)

lemma matches_iff: "matches p lp \<longleftrightarrow> map_option key_of lp = Some (key_of p)"
  by (cases lp) (auto simp: matches_def same_key_iff)

lemma count_distinct_map:
  "distinct (map f xs) \<Longrightarrow> k \<in> set (map f xs) \<Longrightarrow> length (filter (\<lambda>x. f x = k) xs) = 1"
proof (induction xs)
  case Nil
  then show ?case by simp
next
  case (Cons x xs)
  show ?case
  proof (cases "f x = k")
    case True
    with Cons.prems have "k \<notin> set (map f xs)"
      by auto
    then have "filter (\<lambda>x. f x = k) xs = []"
      by (auto simp: filter_empty_conv)
    with True show ?thesis
      by simp
  next
    case False
    with Cons show ?thesis
      by auto
  qed
qed

lemma count_matches_distinct:
  assumes "distinct (map (map_option key_of) lps)" and "\<exists>lp \<in> set lps. matches p lp"
  shows "length (filter (matches p) lps) = 1"
proof -
  from assms(2) obtain lp where "lp \<in> set lps" "map_option key_of lp = Some (key_of p)"
    by (auto simp: matches_iff)
  then have "Some (key_of p) \<in> map_option key_of ` set lps"
    by (metis image_eqI)
  then have "Some (key_of p) \<in> set (map (map_option key_of) lps)"
    by simp
  from count_distinct_map [OF assms(1) this] show ?thesis
    by (simp add: matches_iff [abs_def])
qed

lemma findIndex_update:
  "findIndex P xs = Some i \<Longrightarrow> P y \<Longrightarrow> findIndex P (xs[i := y]) = Some i"
proof (induction xs arbitrary: i)
  case Nil
  then show ?case by simp
next
  case (Cons x xs)
  show ?case
  proof (cases "P x")
    case True
    with Cons.prems show ?thesis by simp
  next
    case False
    with Cons.prems obtain k where k: "findIndex P xs = Some k" "i = Suc k"
      by auto
    with Cons.IH [OF k(1) Cons.prems(2)] False show ?thesis
      by simp
  qed
qed

text \<open>The four ways through \<open>POST /api/likes\<close>.\<close>

lemma post_api_likes_new_user:
  assumes "findIndex (\<lambda>like. like_entry.username like = u) (likes st) = None"
  shows "post_api_likes E st u pub =
           ((201, Message Publicacion_guardada_exitosamente),
            st\<lparr>likes := likes st @ [\<lparr>like_entry.username = u, likedPublications = [pub]\<rparr>],
               world := writeJsonFile E (stringify_likes E) (world st) (likesFilePath E)
                  (likes st @ [\<lparr>like_entry.username = u, likedPublications = [pub]\<rparr>])\<rparr>)"
  using assms by (simp add: post_api_likes_def Let_def)

lemma post_api_likes_threw:
  assumes "findIndex (\<lambda>like. like_entry.username like = u) (likes st) = Some i"
    and "some_t (key_test pub) (likedPublications (likes st ! i)) = None"
  shows "post_api_likes E st u pub = ((500, Uncaught_exception), st)"
  using assms by (simp add: post_api_likes_def Let_def)

lemma post_api_likes_already:
  assumes "findIndex (\<lambda>like. like_entry.username like = u) (likes st) = Some i"
    and "some_t (key_test pub) (likedPublications (likes st ! i)) = Some True"
  shows "post_api_likes E st u pub = ((400, Message La_publicacion_ya_esta_guardada), st)"
  using assms by (simp add: post_api_likes_def Let_def)

lemma post_api_likes_added:
  assumes "findIndex (\<lambda>like. like_entry.username like = u) (likes st) = Some i"
    and "some_t (key_test pub) (likedPublications (likes st ! i)) = Some False"
  shows "post_api_likes E st u pub =
           ((201, Message Publicacion_guardada_exitosamente),
            st\<lparr>likes := (likes st)[i := (likes st ! i)\<lparr>likedPublications :=
                            likedPublications (likes st ! i) @ [pub]\<rparr>],
               world := writeJsonFile E (stringify_likes E) (world st) (likesFilePath E)
                  ((likes st)[i := (likes st ! i)\<lparr>likedPublications :=
                            likedPublications (likes st ! i) @ [pub]\<rparr>])\<rparr>)"
  using assms by (simp add: post_api_likes_def Let_def)

text \<open>What an entry is like when the duplicate test has said no.\<close>

lemma some_t_key_test_False:
  assumes "some_t (key_test pub) lps = Some False"
  shows "None \<notin> set lps" and "\<forall>lp \<in> set lps. map_option key_of lp \<noteq> map_option key_of pub"
    and "lps \<noteq> [] \<Longrightarrow> pub \<noteq> None"
proof -
  from assms have all: "\<forall>lp \<in> set lps. key_test pub lp = Some False"
    by (simp add: some_t_False_iff)
  then show "None \<notin> set lps"
    by (auto simp: key_test_simps)
  show "\<forall>lp \<in> set lps. map_option key_of lp \<noteq> map_option key_of pub"
  proof
    fix lp assume "lp \<in> set lps"
    with all have "key_test pub lp = Some False"
      by simp
    then show "map_option key_of lp \<noteq> map_option key_of pub"
      by (cases lp; cases pub) (auto simp: key_test_simps same_key_iff)
  qed
  show "pub \<noteq> None" if "lps \<noteq> []"
  proof
    assume "pub = None"
    moreover from that obtain lp where "lp \<in> set lps"
      by (cases lps) auto
    ultimately show False
      using all by (auto simp: key_test_simps)
  qed
qed

lemma likes_invariant_update:
  assumes "likes_invariant st"
    and "likedPublications y = [None] \<or> None \<notin> set (likedPublications y)"
    and "distinct (map (map_option key_of) (likedPublications y))"
  shows "likes_invariant (st\<lparr>likes := (likes st)[i := y], world := w\<rparr>)"
  using assms set_update_subset_insert [of "likes st" i y]
  by (auto simp: likes_invariant_def)

text \<open>The cascade, finished or not, filters an entry or leaves it as it was.\<close>

lemma unlike_everywhere_entries:
  assumes "like' \<in> set (fst (unlike_everywhere publication ls))"
  shows "\<exists>like \<in> set ls.
           likedPublications like' = likedPublications like
           \<or> (None \<notin> set (likedPublications like)
              \<and> likedPublications like' =
                  filter (\<lambda>lp. keep_test publication lp = Some True) (likedPublications like))"
  using assms
proof (induction ls arbitrary: like')
  case Nil
  then show ?case by simp
next
  case (Cons like rest)
  show ?case
  proof (cases "filter_t (keep_test publication) (likedPublications like)")
    case None
    with Cons.prems show ?thesis
      by auto
  next
    case (Some kept)
    then have k: "kept = filter (\<lambda>lp. keep_test publication lp = Some True) (likedPublications like)"
      and d: "\<forall>x \<in> set (likedPublications like). keep_test publication x \<noteq> None"
      by (simp_all add: filter_t_Some_iff)
    from d have n: "None \<notin> set (likedPublications like)"
      by (auto simp: keep_test_simps)
    from Cons.prems Some
    consider "like' = like\<lparr>likedPublications := kept\<rparr>"
      | "like' \<in> set (fst (unlike_everywhere publication rest))"
      by (auto split: prod.splits)
    then show ?thesis
    proof cases
      case 1
      with k n show ?thesis by auto
    next
      case 2
      from Cons.IH [OF this] show ?thesis by auto
    qed
  qed
qed

lemma likes_invariant_handle:
  assumes "likes_invariant st"
  shows "likes_invariant (snd (handle E st rq))"
proof (cases rq)
  case GET_usuarios
  with assms show ?thesis by (simp add: get_api_usuarios_def)
next
  case (POST_usuarios u p)
  with assms show ?thesis
    by (auto simp: post_api_usuarios_eq Let_def likes_invariant_def
        split: if_splits option.splits)
next
  case (POST_usuarios_after_await u p)
  with assms show ?thesis
    by (auto simp: post_api_usuarios_after_await_def Let_def likes_invariant_def
        split: option.splits)
next
  case (POST_login u p)
  with assms show ?thesis
    by (auto simp: post_api_login_def likes_invariant_def split: if_splits option.splits)
next
  case GET_publicaciones
  with assms show ?thesis by (simp add: get_api_publicaciones_def)
next
  case (POST_upload now f u d n)
  with assms show ?thesis
    by (auto simp: post_api_upload_def Let_def likes_invariant_def split: option.splits)
next
  case (DELETE_publicaciones publication)
  have cascade: "(likedPublications like' = [None] \<or> None \<notin> set (likedPublications like'))
          \<and> distinct (map (map_option key_of) (likedPublications like'))"
    if "unlike_everywhere p (likes st) = (ls', threw)" "like' \<in> set ls'"
    for p ls' threw like'
  proof -
    from that have "like' \<in> set (fst (unlike_everywhere p (likes st)))"
      by simp
    from unlike_everywhere_entries [OF this] obtain like where
      like: "like \<in> set (likes st)"
      and shape: "likedPublications like' = likedPublications like
           \<or> (None \<notin> set (likedPublications like)
              \<and> likedPublications like' =
                  filter (\<lambda>lp. keep_test p lp = Some True) (likedPublications like))"
      by blast
    from assms like
    have inv: "likedPublications like = [None] \<or> None \<notin> set (likedPublications like)"
      "distinct (map (map_option key_of) (likedPublications like))"
      by (simp_all add: likes_invariant_def)
    from shape inv show ?thesis
      by (auto simp: distinct_map_filter)
  qed
  show ?thesis
  proof (cases "likes (snd (handle E st rq)) = likes st")
    case True
    with assms show ?thesis by (simp add: likes_invariant_def)
  next
    case False
    with DELETE_publicaciones obtain p threw where
      "unlike_everywhere p (likes st) = (likes (snd (handle E st rq)), threw)"
      by (auto simp: delete_api_publicaciones_def Let_def
          split: option.splits if_splits prod.splits)
    with cascade show ?thesis
      by (simp add: likes_invariant_def)
  qed
next
  case (GET_likes u)
  with assms show ?thesis by (auto simp: get_api_likes_def split: option.splits)
next
  case (POST_likes u pub)
  show ?thesis
  proof (cases "findIndex (\<lambda>like. like_entry.username like = u) (likes st)")
    case None
    from assms show ?thesis
      unfolding POST_likes handle.simps post_api_likes_new_user [OF None]
      by (cases pub) (auto simp: likes_invariant_def)
  next
    case (Some i)
    from findIndex_SomeD [OF Some] have mem: "likes st ! i \<in> set (likes st)"
      by simp
    let ?lps = "likedPublications (likes st ! i)"
    show ?thesis
    proof (cases "some_t (key_test pub) ?lps")
      case None
      from assms show ?thesis
        unfolding POST_likes handle.simps post_api_likes_threw [OF Some None]
        by simp
    next
      case (Some b)
      show ?thesis
      proof (cases b)
        case True
        with \<open>some_t (key_test pub) ?lps = Some b\<close>
        have t: "some_t (key_test pub) ?lps = Some True" by simp
        from assms show ?thesis
          unfolding POST_likes handle.simps
            post_api_likes_already [OF \<open>findIndex _ _ = Some i\<close> t]
          by simp
      next
        case False
        with \<open>some_t (key_test pub) ?lps = Some b\<close>
        have f: "some_t (key_test pub) ?lps = Some False" by simp
        note facts = some_t_key_test_False [OF f]
        from assms mem have d: "distinct (map (map_option key_of) ?lps)"
          by (simp add: likes_invariant_def)
        have shape: "?lps @ [pub] = [None] \<or> None \<notin> set (?lps @ [pub])"
          using facts(1) facts(3) by (cases "?lps = []") auto
        have dist: "distinct (map (map_option key_of) (?lps @ [pub]))"
          using d facts(2) by auto
        from assms shape dist show ?thesis
          unfolding POST_likes handle.simps
            post_api_likes_added [OF \<open>findIndex _ _ = Some i\<close> f]
          by (simp add: likes_invariant_update)
      qed
    qed
  qed
next
  case (DELETE_likes u pub)
  show ?thesis
  proof (cases "findIndex (\<lambda>like. like_entry.username like = u) (likes st)")
    case None
    with assms DELETE_likes show ?thesis
      by (simp add: delete_api_likes_def)
  next
    case (Some i)
    from findIndex_SomeD [OF Some] have mem: "likes st ! i \<in> set (likes st)"
      by simp
    let ?lps = "likedPublications (likes st ! i)"
    from assms mem have inv: "?lps = [None] \<or> None \<notin> set ?lps"
      "distinct (map (map_option key_of) ?lps)"
      by (simp_all add: likes_invariant_def)
    show ?thesis
    proof (cases "findIndex_t (key_test pub) ?lps")
      case None
      with assms Some DELETE_likes show ?thesis
        by (simp add: delete_api_likes_def Let_def)
    next
      case outer: (Some r)
      show ?thesis
      proof (cases r)
        case None
        with outer assms Some DELETE_likes show ?thesis
          by (simp add: delete_api_likes_def Let_def)
      next
        case inner: (Some j)
        from outer inner have fi: "findIndex_t (key_test pub) ?lps = Some (Some j)"
          by simp
        from findIndex_t_SomeD [OF fi] have "key_test pub (?lps ! j) = Some True" "j < length ?lps"
          by simp_all
        then have "?lps \<noteq> [None]"
          by (auto simp: key_test_simps)
        with inv(1) have "None \<notin> set ?lps"
          by simp
        then have s1: "None \<notin> set (splice1 j ?lps)"
          using set_splice1 [of j ?lps] by auto
        from inv(2) have s2: "distinct (map (map_option key_of) (splice1 j ?lps))"
          by (rule distinct_map_splice1)
        from assms s1 s2 Some fi DELETE_likes show ?thesis
          by (simp add: delete_api_likes_def Let_def likes_invariant_update)
      qed
    qed
  qed
qed

lemma reachable_likes_invariant: "reachable E st \<Longrightarrow> likes_invariant st"
proof (induction rule: reachable.induct)
  case (start w)
  show ?case by (simp add: likes_invariant_def empty_state_def)
next
  case (step st rq)
  then show ?case by (simp add: likes_invariant_handle)
qed

lemma likes_invariant_no_duplicates: "likes_invariant st \<Longrightarrow> no_duplicate_likes st"
  by (simp add: likes_invariant_def no_duplicate_likes_def)

text \<open>
  Requests that all carry their \<open>publication\<close> never leave an \<open>undefined\<close> record.
\<close>

lemma likes_defined_handle:
  assumes "likes_defined (likes st)" and "carries_publication rq"
  shows "likes_defined (likes (snd (handle E st rq)))"
proof (cases rq)
  case GET_usuarios
  with assms show ?thesis by (simp add: get_api_usuarios_def)
next
  case (POST_usuarios u p)
  with assms show ?thesis
    by (auto simp: post_api_usuarios_eq Let_def split: if_splits option.splits)
next
  case (POST_usuarios_after_await u p)
  with assms show ?thesis
    by (auto simp: post_api_usuarios_after_await_def Let_def split: option.splits)
next
  case (POST_login u p)
  with assms show ?thesis
    by (auto simp: post_api_login_def split: if_splits option.splits)
next
  case GET_publicaciones
  with assms show ?thesis by (simp add: get_api_publicaciones_def)
next
  case (POST_upload now f u d n)
  with assms show ?thesis
    by (auto simp: post_api_upload_def Let_def split: option.splits)
next
  case (DELETE_publicaciones publication)
  with assms show ?thesis
    by (auto simp: delete_api_publicaciones_def Let_def unlike_everywhere_defined
        split: option.splits if_splits)
       (auto simp: likes_defined_def)
next
  case (GET_likes u)
  with assms show ?thesis by (auto simp: get_api_likes_def split: option.splits)
next
  case (POST_likes u pub)
  with assms(2) obtain p where pub: "pub = Some p"
    by auto
  have upd: "likes_defined ((likes st)[i := y])" if "None \<notin> set (likedPublications y)" for i y
    using assms(1) that set_update_subset_insert [of "likes st" i y]
    by (auto simp: likes_defined_def)
  show ?thesis
  proof (cases "findIndex (\<lambda>like. like_entry.username like = u) (likes st)")
    case None
    from assms(1) show ?thesis
      unfolding POST_likes handle.simps post_api_likes_new_user [OF None] pub
      by (simp add: likes_defined_def)
  next
    case (Some i)
    from findIndex_SomeD [OF Some] have "likes st ! i \<in> set (likes st)"
      by simp
    with assms(1) have "None \<notin> set (likedPublications (likes st ! i))"
      by (simp add: likes_defined_def)
    with assms(1) Some POST_likes pub upd show ?thesis
      by (auto simp: post_api_likes_def Let_def split: option.splits)
  qed
next
  case (DELETE_likes u pub)
  have upd: "likes_defined ((likes st)[i := y])" if "None \<notin> set (likedPublications y)" for i y
    using assms(1) that set_update_subset_insert [of "likes st" i y]
    by (auto simp: likes_defined_def)
  show ?thesis
  proof (cases "findIndex (\<lambda>like. like_entry.username like = u) (likes st)")
    case None
    with assms DELETE_likes show ?thesis
      by (simp add: delete_api_likes_def)
  next
    case (Some i)
    from findIndex_SomeD [OF Some] have "likes st ! i \<in> set (likes st)"
      by simp
    with assms(1) have "None \<notin> set (likedPublications (likes st ! i))"
      by (simp add: likes_defined_def)
    then have "None \<notin> set (splice1 j (likedPublications (likes st ! i)))" for j
      using set_splice1 [of j "likedPublications (likes st ! i)"] by auto
    with assms(1) Some DELETE_likes upd show ?thesis
      by (auto simp: delete_api_likes_def Let_def split: option.splits)
  qed
qed

lemma likes_defined_run:
  "likes_defined (likes st) \<Longrightarrow> \<forall>rq \<in> set rqs. carries_publication rq \<Longrightarrow>
     likes_defined (likes (run E st rqs))"
  by (induction rqs arbitrary: st) (auto simp: likes_defined_handle)

text \<open>After \<open>POST /api/likes\<close> for an entry without \<open>undefined\<close>, the user has the post once.\<close>

lemma liked_once_after_post:
  assumes "likes_invariant st" and "\<not> undefined_liked st u"
  shows "\<exists>i. findIndex (\<lambda>like. like_entry.username like = u)
                (likes (snd (post_api_likes E st u (Some p)))) = Some i
             \<and> length (filter (matches p)
                  (likedPublications (likes (snd (post_api_likes E st u (Some p))) ! i))) = 1"
proof (cases "findIndex (\<lambda>like. like_entry.username like = u) (likes st)")
  case None
  then have "\<forall>x \<in> set (likes st). like_entry.username x \<noteq> u"
    by (simp add: findIndex_None_iff)
  then have "findIndex (\<lambda>like. like_entry.username like = u)
        (likes st @ [\<lparr>like_entry.username = u, likedPublications = [Some p]\<rparr>]) =
      Some (length (likes st))"
    by (simp add: findIndex_append_last)
  then show ?thesis
    unfolding post_api_likes_new_user [OF None]
    by (simp add: matches_def same_key_def)
next
  case (Some i)
  from findIndex_SomeD [OF Some]
  have i: "i < length (likes st)" "like_entry.username (likes st ! i) = u"
    by simp_all
  let ?lps = "likedPublications (likes st ! i)"
  from assms(1) i(1) have d: "distinct (map (map_option key_of) ?lps)"
    by (simp add: likes_invariant_def)
  from assms(2) Some have n: "None \<notin> set ?lps"
    by (simp add: undefined_liked_def find_findIndex)
  then have total: "\<forall>x \<in> set ?lps. key_test (Some p) x \<noteq> None"
    using defined_member by (fastforce simp: key_test_simps)
  show ?thesis
  proof (cases "\<exists>x \<in> set ?lps. key_test (Some p) x = Some True")
    case True
    with some_t_total [OF total] have t: "some_t (key_test (Some p)) ?lps = Some True"
      by simp
    from True have "\<exists>lp \<in> set ?lps. matches p lp"
      by (simp add: key_test_matches)
    from count_matches_distinct [OF d this] Some show ?thesis
      unfolding post_api_likes_already [OF Some t] by simp
  next
    case False
    with some_t_total [OF total] have f: "some_t (key_test (Some p)) ?lps = Some False"
      by simp
    from False have "filter (matches p) ?lps = []"
      by (auto simp: filter_empty_conv key_test_matches)
    moreover have "findIndex (\<lambda>like. like_entry.username like = u)
        ((likes st)[i := (likes st ! i)\<lparr>likedPublications := ?lps @ [Some p]\<rparr>]) = Some i"
      using Some i(2) by (simp add: findIndex_update)
    ultimately show ?thesis
      unfolding post_api_likes_added [OF Some f] using i(1)
      by (simp add: matches_def same_key_def)
  qed
qed

lemma liked_count_findIndex:
  "findIndex (\<lambda>like. like_entry.username like = u) (likes st) = Some i \<Longrightarrow>
     liked_count st u p = length (filter (matches p) (likedPublications (likes st ! i)))"
  by (simp add: liked_count_def find_findIndex)

text \<open>An entry with the post in it is one the duplicate test says yes to.\<close>

lemma liked_count_positive:
  assumes "likes_invariant st" and "0 < liked_count st u p"
  shows "\<exists>i. findIndex (\<lambda>like. like_entry.username like = u) (likes st) = Some i
             \<and> some_t (key_test (Some p)) (likedPublications (likes st ! i)) = Some True"
proof (cases "findIndex (\<lambda>like. like_entry.username like = u) (likes st)")
  case None
  with assms(2) show ?thesis
    by (simp add: liked_count_def find_findIndex)
next
  case (Some i)
  let ?lps = "likedPublications (likes st ! i)"
  from findIndex_SomeD [OF Some] have mem: "likes st ! i \<in> set (likes st)"
    by simp
  from assms(2) Some have "filter (matches p) ?lps \<noteq> []"
    by (simp add: liked_count_findIndex)
  then obtain lp where lp: "lp \<in> set ?lps" "matches p lp"
    by (auto simp: filter_empty_conv)
  then have "?lps \<noteq> [None]"
    by (auto simp: matches_def)
  with assms(1) mem have "None \<notin> set ?lps"
    by (auto simp: likes_invariant_def)
  then have "\<forall>x \<in> set ?lps. key_test (Some p) x \<noteq> None"
    using defined_member by (fastforce simp: key_test_simps)
  from some_t_total [OF this] lp
  have "some_t (key_test (Some p)) ?lps = Some True"
    by (auto simp: key_test_matches)
  with Some show ?thesis
    by simp
qed

text \<open>An entry that holds \<open>undefined\<close> makes the duplicate test throw.\<close>

lemma post_api_likes_undefined:
  assumes "likes_invariant st" and "undefined_liked st u"
  shows "post_api_likes E st u (Some p) = ((500, Uncaught_exception), st)"
proof -
  from assms(2) obtain i where
    i: "findIndex (\<lambda>like. like_entry.username like = u) (likes st) = Some i"
    and n: "None \<in> set (likedPublications (likes st ! i))"
    by (cases "findIndex (\<lambda>like. like_entry.username like = u) (likes st)")
       (auto simp: undefined_liked_def find_findIndex)
  from findIndex_SomeD [OF i] have "likes st ! i \<in> set (likes st)"
    by simp
  with assms(1) n have "likedPublications (likes st ! i) = [None]"
    by (auto simp: likes_invariant_def)
  then have "some_t (key_test (Some p)) (likedPublications (likes st ! i)) = None"
    by (simp add: key_test_simps)
  from post_api_likes_threw [OF i this] show ?thesis .
qed

lemma likes_defined_not_undefined: "likes_defined (likes st) \<Longrightarrow> \<not> undefined_liked st u"
  by (auto simp: likes_defined_def undefined_liked_def split: option.splits dest: find_SomeD)

text \<open>
  C2. In every state that the server reaches from three empty arrays by any sequence of
  requests (likes, removals of likes and deletions of posts among them, with or without
  a \<open>publication\<close> in the body), no entry of \<open>likes\<close> holds two records with the same
  image path and image name. A like of a post whose key the user's entry already holds
  is answered 400 "La publicacion ya esta guardada" (AlreadyLiked) and changes nothing,
  and the count for the pair is 1 before and after it. After one like the count for the
  pair is 1, and a second like of the same post by the same user is refused and leaves
  the count at 1. The one entry on which a like is not counted is an entry that holds
  \<open>undefined\<close>: there the like is answered 500 and changes nothing. No entry holds
  \<open>undefined\<close> when every request had the \<open>publication\<close> that its route reads.
\<close>

theorem likes_never_duplicated:
  assumes "reachable E st"
  shows "no_duplicate_likes st
         \<and> (0 < liked_count st u p \<longrightarrow>
              liked_count st u p = 1
              \<and> post_api_likes E st u (Some p) =
                  ((400, Message La_publicacion_ya_esta_guardada), st))
         \<and> (if undefined_liked st u
            then post_api_likes E st u (Some p) = ((500, Uncaught_exception), st)
            else liked_count (snd (post_api_likes E st u (Some p))) u p = 1
                 \<and> post_api_likes E (snd (post_api_likes E st u (Some p))) u (Some p) =
                     ((400, Message La_publicacion_ya_esta_guardada),
                      snd (post_api_likes E st u (Some p))))
         \<and> ((\<forall>rq \<in> set rqs. carries_publication rq) \<longrightarrow>
              \<not> undefined_liked (run E (empty_state w) rqs) u)"
proof -
  from assms have inv: "likes_invariant st"
    by (rule reachable_likes_invariant)
  have refused: "post_api_likes E s u (Some p) =
                   ((400, Message La_publicacion_ya_esta_guardada), s)"
    if "likes_invariant s" "0 < liked_count s u p" for s
    using liked_count_positive [OF that] by (auto simp: post_api_likes_already)
  have once: "liked_count st u p = 1" if pos: "0 < liked_count st u p"
  proof -
    from liked_count_positive [OF inv pos] obtain i where
      i: "findIndex (\<lambda>like. like_entry.username like = u) (likes st) = Some i"
      and t: "some_t (key_test (Some p)) (likedPublications (likes st ! i)) = Some True"
      by blast
    from findIndex_SomeD [OF i] have "likes st ! i \<in> set (likes st)"
      by simp
    with inv have d: "distinct (map (map_option key_of) (likedPublications (likes st ! i)))"
      by (simp add: likes_invariant_def)
    from some_t_True_D [OF t]
    have "\<exists>lp \<in> set (likedPublications (likes st ! i)). matches p lp"
      by (simp add: key_test_matches)
    from count_matches_distinct [OF d this] i show ?thesis
      by (simp add: liked_count_findIndex)
  qed
  have after: "liked_count (snd (post_api_likes E st u (Some p))) u p = 1
               \<and> post_api_likes E (snd (post_api_likes E st u (Some p))) u (Some p) =
                   ((400, Message La_publicacion_ya_esta_guardada),
                    snd (post_api_likes E st u (Some p)))"
    if "\<not> undefined_liked st u"
  proof -
    from liked_once_after_post [OF inv that, of E p]
    have once: "liked_count (snd (post_api_likes E st u (Some p))) u p = 1"
      by (auto simp: liked_count_findIndex)
    have "likes_invariant (snd (handle E st (POST_likes u (Some p))))"
      using inv by (rule likes_invariant_handle)
    then have "likes_invariant (snd (post_api_likes E st u (Some p)))"
      by simp
    from refused [OF this] once show ?thesis
      by simp
  qed
  have carried: "\<not> undefined_liked (run E (empty_state w) rqs) u"
    if "\<forall>rq \<in> set rqs. carries_publication rq"
  proof -
    have "likes_defined (likes (empty_state w))"
      by (simp add: likes_defined_def empty_state_def)
    from likes_defined_run [OF this that] show ?thesis
      by (rule likes_defined_not_undefined)
  qed
  from inv have "no_duplicate_likes st"
    by (rule likes_invariant_no_duplicates)
  with refused [OF inv] once after post_api_likes_undefined [OF inv, of u E p] carried
  show ?thesis
    by simp
qed

theorem likes_never_duplicated_witness:
  "reachable example_env
     (run example_env (empty_state blank_disk)
        [POST_likes (Some ''ana'') (Some foto), POST_likes (Some ''ana'') (Some foto_bis)])
   \<and> likes (run example_env (empty_state blank_disk)
        [POST_likes (Some ''ana'') (Some foto), POST_likes (Some ''ana'') (Some foto_bis)]) =
       [\<lparr>like_entry.username = Some ''ana'', likedPublications = [Some foto]\<rparr>]
   \<and> no_duplicate_likes (run example_env (empty_state blank_disk)
        [POST_likes (Some ''ana'') (Some foto), POST_likes (Some ''ana'') (Some foto_bis)])
   \<and> 0 < liked_count (run example_env (empty_state blank_disk)
        [POST_likes (Some ''ana'') (Some foto), POST_likes (Some ''ana'') (Some foto_bis)])
        (Some ''ana'') foto
   \<and> liked_count (run example_env (empty_state blank_disk)
        [POST_likes (Some ''ana'') (Some foto), POST_likes (Some ''ana'') (Some foto_bis)])
        (Some ''ana'') foto = 1
   \<and> fst (post_api_likes example_env (run example_env (empty_state blank_disk)
        [POST_likes (Some ''ana'') (Some foto), POST_likes (Some ''ana'') (Some foto_bis)])
        (Some ''ana'') (Some foto)) =
       (400, Message La_publicacion_ya_esta_guardada)
   \<and> carries_publication (POST_likes (Some ''ana'') (Some foto))
   \<and> carries_publication (POST_likes (Some ''ana'') (Some foto_bis))
   \<and> \<not> undefined_liked (run example_env (empty_state blank_disk)
        [POST_likes (Some ''ana'') (Some foto), POST_likes (Some ''ana'') (Some foto_bis)])
        (Some ''ana'')"
proof -
  let ?s0 = "empty_state blank_disk"
  let ?s1 = "snd (post_api_likes example_env ?s0 (Some ''ana'') (Some foto))"
  let ?s2 = "snd (post_api_likes example_env ?s1 (Some ''ana'') (Some foto_bis))"
  let ?rqs = "[POST_likes (Some ''ana'') (Some foto), POST_likes (Some ''ana'') (Some foto_bis)]"
  have run: "run example_env ?s0 ?rqs = ?s2"
    by simp
  have "reachable example_env ?s1"
    using reachable.step [OF reachable.start, of example_env blank_disk
        "POST_likes (Some ''ana'') (Some foto)"]
    by simp
  from reachable.step [OF this, of "POST_likes (Some ''ana'') (Some foto_bis)"]
  have r: "reachable example_env ?s2"
    by simp
  have l2: "likes ?s2 = [\<lparr>like_entry.username = Some ''ana'', likedPublications = [Some foto]\<rparr>]"
    by (simp add: post_api_likes_def empty_state_def Let_def same_key_def foto_def
        foto_bis_def key_test_simps)
  have c: "0 < liked_count ?s2 (Some ''ana'') foto"
    by (simp add: liked_count_def l2 matches_def same_key_def)
  have all: "\<forall>rq \<in> set ?rqs. carries_publication rq"
    by simp
  note t = likes_never_duplicated [OF r, of "Some ''ana''" foto ?rqs blank_disk]
  from t have a: "no_duplicate_likes ?s2"
    by blast
  from t c have b: "liked_count ?s2 (Some ''ana'') foto = 1
      \<and> post_api_likes example_env ?s2 (Some ''ana'') (Some foto) =
          ((400, Message La_publicacion_ya_esta_guardada), ?s2)"
    by blast
  from t all have d: "\<not> undefined_liked (run example_env ?s0 ?rqs) (Some ''ana'')"
    by blast
  from a b c d l2 r show ?thesis
    unfolding run by simp
qed

subsection \<open>C1 and C9: deleting a post\<close>

lemma find_map_entries:
  "find (\<lambda>like. like_entry.username like = u)
        (map (\<lambda>like. like\<lparr>likedPublications := f (likedPublications like)\<rparr>) ls) =
     map_option (\<lambda>like. like\<lparr>likedPublications := f (likedPublications like)\<rparr>)
       (find (\<lambda>like. like_entry.username like = u) ls)"
  by (induction ls) auto

text \<open>The three ways through the \<open>try\<close> of \<open>DELETE /api/publicaciones\<close>.\<close>

lemma delete_api_publicaciones_ok:
  assumes "findIndex (same_key publication) (publicaciones st) = Some i"
    and "image_removable E (world st) publication"
    and "likes_defined (likes st)"
  shows "delete_api_publicaciones E st (Some publication) =
           ((200, Message Publicacion_eliminada_exitosamente),
            st\<lparr>publicaciones := splice1 i (publicaciones st),
               likes := map (\<lambda>like. like\<lparr>likedPublications :=
                   filter (\<lambda>lp. \<not> matches publication lp) (likedPublications like)\<rparr>) (likes st),
               world := writeJsonFile E (stringify_likes E)
                  (writeJsonFile E (stringify_publicaciones E)
                     (image_removed E (world st) publication)
                     (publicacionesFilePath E) (splice1 i (publicaciones st)))
                  (likesFilePath E)
                  (map (\<lambda>like. like\<lparr>likedPublications :=
                     filter (\<lambda>lp. \<not> matches publication lp) (likedPublications like)\<rparr>)
                     (likes st))\<rparr>)"
  using assms(1,2)
  by (auto simp: delete_api_publicaciones_def image_removable_def image_removed_def Let_def
      unlike_everywhere_defined [OF assms(3)] split: option.splits)

lemma delete_api_publicaciones_failed:
  assumes "findIndex (same_key publication) (publicaciones st) = Some i"
    and "\<not> image_removable E (world st) publication"
  shows "delete_api_publicaciones E st (Some publication) =
           ((500, Message Error_al_eliminar_la_publicacion),
            st\<lparr>world := console_log Error_al_eliminar_publicacion (world st)\<rparr>)"
  using assms
  by (auto simp: delete_api_publicaciones_def image_removable_def Let_def
      split: option.splits)

lemma delete_api_publicaciones_threw:
  assumes "findIndex (same_key publication) (publicaciones st) = Some i"
    and "image_removable E (world st) publication"
    and "\<not> likes_defined (likes st)"
  shows "delete_api_publicaciones E st (Some publication) =
           ((500, Message Error_al_eliminar_la_publicacion),
            st\<lparr>publicaciones := splice1 i (publicaciones st),
               likes := fst (unlike_everywhere publication (likes st)),
               world := console_log Error_al_eliminar_publicacion
                  (image_removed E (world st) publication)\<rparr>)"
proof -
  from assms(3) have "snd (unlike_everywhere publication (likes st))"
    by (simp add: unlike_everywhere_threw)
  then obtain ls where "unlike_everywhere publication (likes st) = (ls, True)"
    by (cases "unlike_everywhere publication (likes st)") auto
  with assms(1,2) show ?thesis
    by (auto simp: delete_api_publicaciones_def image_removable_def image_removed_def Let_def
        split: option.splits)
qed

text \<open>Two writes to two files of one directory, on a disk that accepts both.\<close>

lemma nodes_writeJsonFile_kept:
  "nodes w x \<noteq> None \<Longrightarrow> nodes (writeJsonFile E s w p d) x \<noteq> None"
  by (auto simp: writeJsonFile_def Let_def mkdirSync_def writeFileSync_def console_log_def
      split: option.splits if_splits)

lemma write_accepted_after_write:
  assumes "write_accepted E w q" and "q \<noteq> p" and "q \<noteq> path_dirname E p"
  shows "write_accepted E (writeJsonFile E s w p d) q"
proof -
  have "nodes (writeJsonFile E s w p d) q = nodes w q"
    using assms(2,3) by (rule writeJsonFile_other)
  moreover have "existsSync (writeJsonFile E s w p d) x" if "existsSync w x" for x
    using that by (simp add: existsSync_def nodes_writeJsonFile_kept)
  ultimately show ?thesis
    using assms(1) by (auto simp: write_accepted_def Let_def throws_writeJsonFile)
qed

lemma two_writes_on_disk:
  assumes "write_accepted E w p" and "write_accepted E w q"
    and "p \<noteq> q" and "q \<noteq> path_dirname E p" and "p \<noteq> path_dirname E q"
  shows "nodes (writeJsonFile E s2 (writeJsonFile E s1 w p d1) q d2) p = Some (File (s1 d1))"
    and "nodes (writeJsonFile E s2 (writeJsonFile E s1 w p d1) q d2) q = Some (File (s2 d2))"
proof -
  have "nodes (writeJsonFile E s2 (writeJsonFile E s1 w p d1) q d2) p =
        nodes (writeJsonFile E s1 w p d1) p"
    using assms(3,5) by (rule writeJsonFile_other)
  with assms(1) show "nodes (writeJsonFile E s2 (writeJsonFile E s1 w p d1) q d2) p =
      Some (File (s1 d1))"
    by (simp add: writeJsonFile_accepted)
  from assms(2) assms(3) [symmetric] assms(4)
  have "write_accepted E (writeJsonFile E s1 w p d1) q"
    by (rule write_accepted_after_write)
  then show "nodes (writeJsonFile E s2 (writeJsonFile E s1 w p d1) q d2) q =
      Some (File (s2 d2))"
    by (rule writeJsonFile_accepted)
qed

lemma several_matches_found:
  assumes "filter (same_key publication) ps \<noteq> []"
  shows "\<exists>i. findIndex (same_key publication) ps = Some i"
proof -
  from assms obtain q where "q \<in> set ps" "same_key publication q"
    by (auto simp: filter_empty_conv)
  then show ?thesis
    using findIndex_is_Some by fastforce
qed

text \<open>
  C9, as the code has it. Take a state in which two or more posts have the image path
  and image name of the request.
  \<^item> When the removal of the stored image throws (the image path of the request is not
    a string, or \<open>unlinkSync\<close> fails), \<open>DELETE /api/publicaciones\<close> answers 500 and no
    post and no liked record is removed.
  \<^item> When it does not throw and no liked record is \<open>undefined\<close>, the answer is 200 and
    one post is removed, the first of them in the array (the array is in insertion
    order, since posts are only ever pushed): the posts before it and all the posts after
    it are kept in their order, so every later post with that key is still there. Every
    entry of \<open>likes\<close> keeps its username and its place, and keeps of its liked records
    exactly those that have another key, in their order.
\<close>

theorem delete_removes_earliest_only:
  assumes "2 \<le> length (filter (same_key publication) (publicaciones st))"
  shows "(\<not> image_removable E (world st) publication \<longrightarrow>
            fst (delete_api_publicaciones E st (Some publication)) =
              (500, Message Error_al_eliminar_la_publicacion)
            \<and> publicaciones (snd (delete_api_publicaciones E st (Some publication))) =
                publicaciones st
            \<and> likes (snd (delete_api_publicaciones E st (Some publication))) = likes st)
         \<and> (image_removable E (world st) publication \<longrightarrow> likes_defined (likes st) \<longrightarrow>
            fst (delete_api_publicaciones E st (Some publication)) =
              (200, Message Publicacion_eliminada_exitosamente)
            \<and> publicaciones (snd (delete_api_publicaciones E st (Some publication))) =
                takeWhile (\<lambda>pub. \<not> same_key publication pub) (publicaciones st)
                  @ tl (dropWhile (\<lambda>pub. \<not> same_key publication pub) (publicaciones st))
            \<and> length (publicaciones (snd (delete_api_publicaciones E st (Some publication)))) =
                length (publicaciones st) - 1
            \<and> filter (same_key publication)
                  (publicaciones (snd (delete_api_publicaciones E st (Some publication)))) =
                tl (filter (same_key publication) (publicaciones st))
            \<and> filter (same_key publication)
                  (publicaciones (snd (delete_api_publicaciones E st (Some publication)))) \<noteq> []
            \<and> filter (\<lambda>pub. \<not> same_key publication pub)
                  (publicaciones (snd (delete_api_publicaciones E st (Some publication)))) =
                filter (\<lambda>pub. \<not> same_key publication pub) (publicaciones st)
            \<and> likes (snd (delete_api_publicaciones E st (Some publication))) =
                map (\<lambda>like. like\<lparr>likedPublications :=
                       filter (\<lambda>lp. \<not> matches publication lp) (likedPublications like)\<rparr>)
                  (likes st))"
proof -
  from assms have "filter (same_key publication) (publicaciones st) \<noteq> []"
    by auto
  then obtain i where i: "findIndex (same_key publication) (publicaciones st) = Some i"
    using several_matches_found by blast
  from findIndex_SomeD [OF i] have len: "i < length (publicaciones st)"
    by simp
  from assms have more: "tl (filter (same_key publication) (publicaciones st)) \<noteq> []"
    by (cases "filter (same_key publication) (publicaciones st)") auto
  have failed: "fst (delete_api_publicaciones E st (Some publication)) =
              (500, Message Error_al_eliminar_la_publicacion)
            \<and> publicaciones (snd (delete_api_publicaciones E st (Some publication))) =
                publicaciones st
            \<and> likes (snd (delete_api_publicaciones E st (Some publication))) = likes st"
    if "\<not> image_removable E (world st) publication"
    unfolding delete_api_publicaciones_failed [OF i that] by simp
  have ok: "fst (delete_api_publicaciones E st (Some publication)) =
              (200, Message Publicacion_eliminada_exitosamente)
            \<and> publicaciones (snd (delete_api_publicaciones E st (Some publication))) =
                takeWhile (\<lambda>pub. \<not> same_key publication pub) (publicaciones st)
                  @ tl (dropWhile (\<lambda>pub. \<not> same_key publication pub) (publicaciones st))
            \<and> length (publicaciones (snd (delete_api_publicaciones E st (Some publication)))) =
                length (publicaciones st) - 1
            \<and> filter (same_key publication)
                  (publicaciones (snd (delete_api_publicaciones E st (Some publication)))) =
                tl (filter (same_key publication) (publicaciones st))
            \<and> filter (same_key publication)
                  (publicaciones (snd (delete_api_publicaciones E st (Some publication)))) \<noteq> []
            \<and> filter (\<lambda>pub. \<not> same_key publication pub)
                  (publicaciones (snd (delete_api_publicaciones E st (Some publication)))) =
                filter (\<lambda>pub. \<not> same_key publication pub) (publicaciones st)
            \<and> likes (snd (delete_api_publicaciones E st (Some publication))) =
                map (\<lambda>like. like\<lparr>likedPublications :=
                       filter (\<lambda>lp. \<not> matches publication lp) (likedPublications like)\<rparr>)
                  (likes st)"
    if "image_removable E (world st) publication" "likes_defined (likes st)"
    unfolding delete_api_publicaciones_ok [OF i that] using len more
    by (simp add: splice1_findIndex [OF i, symmetric] length_splice1
        filter_splice1_findIndex [OF i] filter_not_splice1_findIndex [OF i])
  from failed ok show ?thesis
    by blast
qed

lemma two_fotos_removable: "image_removable example_env (world two_fotos) foto_bis"
  by (simp add: image_removable_def two_fotos_def foto_bis_def blank_disk_def existsSync_def
      Let_def)

lemma foto_file:
  "path_join example_env (UPLOADS_DIR example_env)
     (last_segment ''https://servidor-c1k2.onrender.com/uploads/1-2.png'') =
   ''/var/data/uploads/1-2.png''"
  by (simp add: example_env_def last_segment_def)

lemma locked_not_removable:
  "\<not> image_removable example_env locked_disk foto"
  "\<not> image_removable example_env locked_disk foto_bis"
  by (simp_all add: image_removable_def foto_def foto_bis_def foto_file locked_disk_def
      existsSync_def unlinkSync_def Let_def)

theorem delete_removes_earliest_only_witness:
  "2 \<le> length (filter (same_key foto_bis) (publicaciones two_fotos))
   \<and> image_removable example_env (world two_fotos) foto_bis
   \<and> likes_defined (likes two_fotos)
   \<and> fst (delete_api_publicaciones example_env two_fotos (Some foto_bis)) =
       (200, Message Publicacion_eliminada_exitosamente)
   \<and> publicaciones (snd (delete_api_publicaciones example_env two_fotos (Some foto_bis))) =
       [foto_bis]
   \<and> likes (snd (delete_api_publicaciones example_env two_fotos (Some foto_bis))) =
       [\<lparr>like_entry.username = Some ''bob'', likedPublications = []\<rparr>]
   \<and> 2 \<le> length (filter (same_key foto_bis) (publicaciones two_fotos_locked))
   \<and> \<not> image_removable example_env (world two_fotos_locked) foto_bis
   \<and> fst (delete_api_publicaciones example_env two_fotos_locked (Some foto_bis)) =
       (500, Message Error_al_eliminar_la_publicacion)
   \<and> publicaciones (snd (delete_api_publicaciones example_env two_fotos_locked
        (Some foto_bis))) = [foto, foto_bis]"
proof -
  have h1: "2 \<le> length (filter (same_key foto_bis) (publicaciones two_fotos))"
    by (simp add: two_fotos_def same_key_def foto_def foto_bis_def)
  have h2: "likes_defined (likes two_fotos)"
    by (simp add: likes_defined_def two_fotos_def)
  have h3: "2 \<le> length (filter (same_key foto_bis) (publicaciones two_fotos_locked))"
    by (simp add: two_fotos_locked_def two_fotos_def same_key_def foto_def foto_bis_def)
  have h4: "\<not> image_removable example_env (world two_fotos_locked) foto_bis"
    by (simp add: two_fotos_locked_def locked_not_removable)
  note t = delete_removes_earliest_only [OF h1, of example_env, THEN conjunct2, THEN mp,
      THEN mp, OF two_fotos_removable h2]
  note f = delete_removes_earliest_only [OF h3, of example_env, THEN conjunct1, THEN mp,
      OF h4]
  have p: "takeWhile (\<lambda>pub. \<not> same_key foto_bis pub) (publicaciones two_fotos)
             @ tl (dropWhile (\<lambda>pub. \<not> same_key foto_bis pub) (publicaciones two_fotos)) =
           [foto_bis]"
    by (simp add: two_fotos_def same_key_def foto_def foto_bis_def)
  have l: "map (\<lambda>like. like\<lparr>likedPublications :=
                  filter (\<lambda>lp. \<not> matches foto_bis lp) (likedPublications like)\<rparr>)
             (likes two_fotos) =
             [\<lparr>like_entry.username = Some ''bob'', likedPublications = []\<rparr>]"
    by (simp add: two_fotos_def matches_def same_key_def)
  have q: "publicaciones two_fotos_locked = [foto, foto_bis]"
    by (simp add: two_fotos_locked_def two_fotos_def)
  from t have r1: "fst (delete_api_publicaciones example_env two_fotos (Some foto_bis)) =
       (200, Message Publicacion_eliminada_exitosamente)"
    by blast
  from t have "publicaciones (snd (delete_api_publicaciones example_env two_fotos
        (Some foto_bis))) =
      takeWhile (\<lambda>pub. \<not> same_key foto_bis pub) (publicaciones two_fotos)
             @ tl (dropWhile (\<lambda>pub. \<not> same_key foto_bis pub) (publicaciones two_fotos))"
    by blast
  then have r2: "publicaciones (snd (delete_api_publicaciones example_env two_fotos
        (Some foto_bis))) = [foto_bis]"
    by (simp only: p)
  from t have "likes (snd (delete_api_publicaciones example_env two_fotos (Some foto_bis))) =
      map (\<lambda>like. like\<lparr>likedPublications :=
                  filter (\<lambda>lp. \<not> matches foto_bis lp) (likedPublications like)\<rparr>)
             (likes two_fotos)"
    by blast
  then have r3: "likes (snd (delete_api_publicaciones example_env two_fotos (Some foto_bis))) =
       [\<lparr>like_entry.username = Some ''bob'', likedPublications = []\<rparr>]"
    by (simp only: l)
  from f have r4: "fst (delete_api_publicaciones example_env two_fotos_locked (Some foto_bis)) =
       (500, Message Error_al_eliminar_la_publicacion)"
    by blast
  from f have "publicaciones (snd (delete_api_publicaciones example_env two_fotos_locked
        (Some foto_bis))) = publicaciones two_fotos_locked"
    by blast
  then have r5: "publicaciones (snd (delete_api_publicaciones example_env two_fotos_locked
        (Some foto_bis))) = [foto, foto_bis]"
    by (simp only: q)
  from h1 two_fotos_removable h2 r1 r2 r3 h3 h4 r4 r5 show ?thesis
    by blast
qed

text \<open>
  C9 as stated fails in two states that hold \<open>foto\<close> and \<open>foto_bis\<close>, which share
  image path and image name. On a disk that refuses to unlink the stored image, the
  deletion is answered 500 and both posts are still in the array: no post is removed.
  Where \<open>bob\<close> has liked without a \<open>publication\<close>, the deletion removes \<open>foto\<close>, and the
  \<open>filter\<close> throws on the entry of \<open>bob\<close>: the answer is 500 and \<open>carl\<close>, whose
  entry comes after, still has his liked record with that key.
\<close>

theorem delete_earliest_counterexample:
  "2 \<le> length (filter (same_key foto) (publicaciones two_fotos_locked))
   \<and> fst (delete_api_publicaciones example_env two_fotos_locked (Some foto)) =
       (500, Message Error_al_eliminar_la_publicacion)
   \<and> publicaciones (snd (delete_api_publicaciones example_env two_fotos_locked (Some foto))) =
       [foto, foto_bis]
   \<and> 2 \<le> length (filter (same_key foto) (publicaciones two_fotos_undefined))
   \<and> fst (delete_api_publicaciones example_env two_fotos_undefined (Some foto)) =
       (500, Message Error_al_eliminar_la_publicacion)
   \<and> publicaciones (snd (delete_api_publicaciones example_env two_fotos_undefined (Some foto))) =
       [foto_bis]
   \<and> likes (snd (delete_api_publicaciones example_env two_fotos_undefined (Some foto))) =
       [\<lparr>like_entry.username = Some ''bob'', likedPublications = [None]\<rparr>,
        \<lparr>like_entry.username = Some ''carl'', likedPublications = [Some foto_bis]\<rparr>]
   \<and> matches foto (Some foto_bis)"
proof -
  have i: "findIndex (same_key foto) (publicaciones two_fotos_locked) = Some 0"
    "findIndex (same_key foto) (publicaciones two_fotos_undefined) = Some 0"
    by (simp_all add: two_fotos_locked_def two_fotos_undefined_def two_fotos_def same_key_def)
  have n: "2 \<le> length (filter (same_key foto) (publicaciones two_fotos_locked))"
    "2 \<le> length (filter (same_key foto) (publicaciones two_fotos_undefined))"
    by (simp_all add: two_fotos_locked_def two_fotos_undefined_def two_fotos_def same_key_def
        foto_def foto_bis_def)
  have l: "\<not> image_removable example_env (world two_fotos_locked) foto"
    by (simp add: two_fotos_locked_def locked_not_removable)
  have r: "image_removable example_env (world two_fotos_undefined) foto"
    by (simp add: image_removable_def two_fotos_undefined_def two_fotos_def foto_def
        blank_disk_def existsSync_def Let_def)
  have u: "\<not> likes_defined (likes two_fotos_undefined)"
    by (simp add: likes_defined_def two_fotos_undefined_def)
  have a: "fst (delete_api_publicaciones example_env two_fotos_locked (Some foto)) =
       (500, Message Error_al_eliminar_la_publicacion)
   \<and> publicaciones (snd (delete_api_publicaciones example_env two_fotos_locked (Some foto))) =
       [foto, foto_bis]"
    unfolding delete_api_publicaciones_failed [OF i(1) l]
    by (simp add: two_fotos_locked_def two_fotos_def)
  have b: "fst (delete_api_publicaciones example_env two_fotos_undefined (Some foto)) =
       (500, Message Error_al_eliminar_la_publicacion)
   \<and> publicaciones (snd (delete_api_publicaciones example_env two_fotos_undefined (Some foto))) =
       [foto_bis]
   \<and> likes (snd (delete_api_publicaciones example_env two_fotos_undefined (Some foto))) =
       [\<lparr>like_entry.username = Some ''bob'', likedPublications = [None]\<rparr>,
        \<lparr>like_entry.username = Some ''carl'', likedPublications = [Some foto_bis]\<rparr>]"
    unfolding delete_api_publicaciones_threw [OF i(2) r u]
    by (simp add: two_fotos_undefined_def two_fotos_def splice1_def keep_test_simps)
  have m: "matches foto (Some foto_bis)"
    by (simp add: matches_def same_key_def foto_def foto_bis_def)
  from n a b m show ?thesis
    by blast
qed

text \<open>
  C1, as the code has it. When no post has the image path and image name of the request,
  \<open>DELETE /api/publicaciones\<close> answers 404 and returns the state it was given. When a
  post \<open>p\<close> of the catalog has them:
  \<^item> if the removal of the stored image throws (the image path of the request is not a
    string, or \<open>unlinkSync\<close> fails), the answer is 500 and the three arrays and the
    disk are as they were;
  \<^item> if it does not throw and no liked record is \<open>undefined\<close>, the answer is 200 and
    \<^item> the first post with that key is removed from the post list and no other, so that
      \<open>p\<close> is gone from the list when it is the only post with its key;
    \<^item> every entry of \<open>likes\<close> keeps its username and its place and keeps of its liked
      records exactly those that have another key, and a listing that was answered with
      a list is now answered with that list without the records of that key;
    \<^item> \<open>writeJsonFile\<close> is called on the new post list and then on the new likes, and
      on a disk that accepts the two writes the file of the posts holds the text of the
      new post list and the file of the likes the text of the new likes.
\<close>

theorem delete_post_cascades:
  "((\<forall>pub \<in> set (publicaciones st). \<not> same_key publication pub) \<longrightarrow>
       delete_api_publicaciones E st (Some publication) =
         ((404, Message Publicacion_no_encontrada), st))
   \<and> (p \<in> set (publicaciones st) \<longrightarrow> same_key publication p \<longrightarrow>
      (\<not> image_removable E (world st) publication \<longrightarrow>
         fst (delete_api_publicaciones E st (Some publication)) =
           (500, Message Error_al_eliminar_la_publicacion)
         \<and> usuarios (snd (delete_api_publicaciones E st (Some publication))) = usuarios st
         \<and> publicaciones (snd (delete_api_publicaciones E st (Some publication))) =
             publicaciones st
         \<and> likes (snd (delete_api_publicaciones E st (Some publication))) = likes st
         \<and> nodes (world (snd (delete_api_publicaciones E st (Some publication)))) =
             nodes (world st))
      \<and> (image_removable E (world st) publication \<longrightarrow> likes_defined (likes st) \<longrightarrow>
         fst (delete_api_publicaciones E st (Some publication)) =
           (200, Message Publicacion_eliminada_exitosamente)
         \<and> publicaciones (snd (delete_api_publicaciones E st (Some publication))) =
             takeWhile (\<lambda>pub. \<not> same_key publication pub) (publicaciones st)
               @ tl (dropWhile (\<lambda>pub. \<not> same_key publication pub) (publicaciones st))
         \<and> (length (filter (same_key publication) (publicaciones st)) = 1 \<longrightarrow>
              p \<notin> set (publicaciones (snd (delete_api_publicaciones E st (Some publication)))))
         \<and> likes (snd (delete_api_publicaciones E st (Some publication))) =
             map (\<lambda>like. like\<lparr>likedPublications :=
                    filter (\<lambda>lp. \<not> matches publication lp) (likedPublications like)\<rparr>)
               (likes st)
         \<and> (fst (get_api_likes st u) = (200, Liked xs) \<longrightarrow>
              fst (get_api_likes (snd (delete_api_publicaciones E st (Some publication))) u) =
                (200, Liked (filter (\<lambda>lp. \<not> matches publication lp) xs)))
         \<and> world (snd (delete_api_publicaciones E st (Some publication))) =
             writeJsonFile E (stringify_likes E)
               (writeJsonFile E (stringify_publicaciones E)
                  (image_removed E (world st) publication) (publicacionesFilePath E)
                  (publicaciones (snd (delete_api_publicaciones E st (Some publication)))))
               (likesFilePath E)
               (likes (snd (delete_api_publicaciones E st (Some publication))))
         \<and> (write_accepted E (image_removed E (world st) publication) (publicacionesFilePath E)
            \<and> write_accepted E (image_removed E (world st) publication) (likesFilePath E)
            \<and> publicacionesFilePath E \<noteq> likesFilePath E
            \<and> likesFilePath E \<noteq> path_dirname E (publicacionesFilePath E)
            \<and> publicacionesFilePath E \<noteq> path_dirname E (likesFilePath E) \<longrightarrow>
              nodes (world (snd (delete_api_publicaciones E st (Some publication))))
                  (publicacionesFilePath E) =
                Some (File (stringify_publicaciones E
                  (publicaciones (snd (delete_api_publicaciones E st (Some publication))))))
              \<and> nodes (world (snd (delete_api_publicaciones E st (Some publication))))
                  (likesFilePath E) =
                Some (File (stringify_likes E
                  (likes (snd (delete_api_publicaciones E st (Some publication)))))))))"
proof -
  let ?r = "delete_api_publicaciones E st (Some publication)"
  let ?cascade = "map (\<lambda>like. like\<lparr>likedPublications :=
                    filter (\<lambda>lp. \<not> matches publication lp) (likedPublications like)\<rparr>)
               (likes st)"
  have not_found: "?r = ((404, Message Publicacion_no_encontrada), st)"
    if "\<forall>pub \<in> set (publicaciones st). \<not> same_key publication pub"
    using that by (simp add: delete_api_publicaciones_def findIndex_None_iff [THEN iffD2])
  have failed: "fst ?r = (500, Message Error_al_eliminar_la_publicacion)
         \<and> usuarios (snd ?r) = usuarios st
         \<and> publicaciones (snd ?r) = publicaciones st
         \<and> likes (snd ?r) = likes st
         \<and> nodes (world (snd ?r)) = nodes (world st)"
    if p: "p \<in> set (publicaciones st)" "same_key publication p"
      and rm: "\<not> image_removable E (world st) publication"
  proof -
    from p obtain i where i: "findIndex (same_key publication) (publicaciones st) = Some i"
      using findIndex_is_Some by fastforce
    show ?thesis
      unfolding delete_api_publicaciones_failed [OF i rm]
      by (simp add: nodes_console_log)
  qed
  have found: "fst ?r = (200, Message Publicacion_eliminada_exitosamente)
         \<and> publicaciones (snd ?r) =
             takeWhile (\<lambda>pub. \<not> same_key publication pub) (publicaciones st)
               @ tl (dropWhile (\<lambda>pub. \<not> same_key publication pub) (publicaciones st))
         \<and> (length (filter (same_key publication) (publicaciones st)) = 1 \<longrightarrow>
              p \<notin> set (publicaciones (snd ?r)))
         \<and> likes (snd ?r) = ?cascade
         \<and> (fst (get_api_likes st u) = (200, Liked xs) \<longrightarrow>
              fst (get_api_likes (snd ?r) u) =
                (200, Liked (filter (\<lambda>lp. \<not> matches publication lp) xs)))
         \<and> world (snd ?r) =
             writeJsonFile E (stringify_likes E)
               (writeJsonFile E (stringify_publicaciones E)
                  (image_removed E (world st) publication) (publicacionesFilePath E)
                  (publicaciones (snd ?r)))
               (likesFilePath E) (likes (snd ?r))
         \<and> (write_accepted E (image_removed E (world st) publication) (publicacionesFilePath E)
            \<and> write_accepted E (image_removed E (world st) publication) (likesFilePath E)
            \<and> publicacionesFilePath E \<noteq> likesFilePath E
            \<and> likesFilePath E \<noteq> path_dirname E (publicacionesFilePath E)
            \<and> publicacionesFilePath E \<noteq> path_dirname E (likesFilePath E) \<longrightarrow>
              nodes (world (snd ?r)) (publicacionesFilePath E) =
                Some (File (stringify_publicaciones E (publicaciones (snd ?r))))
              \<and> nodes (world (snd ?r)) (likesFilePath E) =
                Some (File (stringify_likes E (likes (snd ?r)))))"
    if p: "p \<in> set (publicaciones st)" "same_key publication p"
      and rm: "image_removable E (world st) publication"
      and df: "likes_defined (likes st)"
  proof -
    from p obtain i where i: "findIndex (same_key publication) (publicaciones st) = Some i"
      using findIndex_is_Some by fastforce
    note ok = delete_api_publicaciones_ok [OF i rm df]
    have gone: "p \<notin> set (splice1 i (publicaciones st))"
      if one: "length (filter (same_key publication) (publicaciones st)) = 1"
    proof
      assume "p \<in> set (splice1 i (publicaciones st))"
      with p(2) have "filter (same_key publication) (splice1 i (publicaciones st)) \<noteq> []"
        by (auto simp: filter_empty_conv)
      moreover from one have "tl (filter (same_key publication) (publicaciones st)) = []"
        by (cases "filter (same_key publication) (publicaciones st)") auto
      ultimately show False
        by (simp add: filter_splice1_findIndex [OF i])
    qed
    have listing: "fst (get_api_likes (st\<lparr>publicaciones := ps, likes := ?cascade,
          world := w\<rparr>) u) =
        (200, Liked (filter (\<lambda>lp. \<not> matches publication lp) xs))"
      if "fst (get_api_likes st u) = (200, Liked xs)" for ps w
      using that
      by (auto simp: get_api_likes_def find_map_entries split: option.splits)
    have disk: "nodes (writeJsonFile E (stringify_likes E)
                  (writeJsonFile E (stringify_publicaciones E)
                     (image_removed E (world st) publication)
                     (publicacionesFilePath E) ps)
                  (likesFilePath E) ls) (publicacionesFilePath E) =
                Some (File (stringify_publicaciones E ps))
              \<and> nodes (writeJsonFile E (stringify_likes E)
                  (writeJsonFile E (stringify_publicaciones E)
                     (image_removed E (world st) publication)
                     (publicacionesFilePath E) ps)
                  (likesFilePath E) ls) (likesFilePath E) =
                Some (File (stringify_likes E ls))"
      if "write_accepted E (image_removed E (world st) publication) (publicacionesFilePath E)"
        "write_accepted E (image_removed E (world st) publication) (likesFilePath E)"
        "publicacionesFilePath E \<noteq> likesFilePath E"
        "likesFilePath E \<noteq> path_dirname E (publicacionesFilePath E)"
        "publicacionesFilePath E \<noteq> path_dirname E (likesFilePath E)" for ps ls
      by (simp add: two_writes_on_disk [OF that])
    from gone listing disk show ?thesis
      unfolding ok
      by (simp add: splice1_findIndex [OF i, symmetric])
  qed
  from not_found failed found show ?thesis
    by blast
qed

lemma one_foto_removable: "image_removable example_env (world one_foto) foto"
  by (simp add: image_removable_def one_foto_def foto_def existsSync_def unlinkSync_def
      Let_def foto_file)

lemma one_foto_image_removed:
  "image_removed example_env (world one_foto) foto = blank_disk"
  by (simp add: image_removed_def one_foto_def foto_def existsSync_def unlinkSync_def
      Let_def foto_file blank_disk_def fun_eq_iff)

theorem delete_post_cascades_witness:
  "publicaciones ana_registered = []
   \<and> delete_api_publicaciones example_env ana_registered (Some foto) =
       ((404, Message Publicacion_no_encontrada), ana_registered)
   \<and> foto \<in> set (publicaciones one_foto_locked) \<and> same_key foto foto
   \<and> \<not> image_removable example_env (world one_foto_locked) foto
   \<and> fst (delete_api_publicaciones example_env one_foto_locked (Some foto)) =
       (500, Message Error_al_eliminar_la_publicacion)
   \<and> publicaciones (snd (delete_api_publicaciones example_env one_foto_locked (Some foto))) =
       [foto]
   \<and> foto \<in> set (publicaciones one_foto)
   \<and> image_removable example_env (world one_foto) foto
   \<and> likes_defined (likes one_foto)
   \<and> length (filter (same_key foto) (publicaciones one_foto)) = 1
   \<and> fst (get_api_likes one_foto (Some ''bob'')) = (200, Liked [Some foto])
   \<and> write_accepted example_env (image_removed example_env (world one_foto) foto)
       (publicacionesFilePath example_env)
   \<and> write_accepted example_env (image_removed example_env (world one_foto) foto)
       (likesFilePath example_env)
   \<and> fst (delete_api_publicaciones example_env one_foto (Some foto)) =
       (200, Message Publicacion_eliminada_exitosamente)
   \<and> foto \<notin> set (publicaciones (snd (delete_api_publicaciones example_env one_foto
        (Some foto))))
   \<and> likes (snd (delete_api_publicaciones example_env one_foto (Some foto))) =
       [\<lparr>like_entry.username = Some ''bob'', likedPublications = []\<rparr>]
   \<and> fst (get_api_likes (snd (delete_api_publicaciones example_env one_foto (Some foto)))
            (Some ''bob'')) = (200, Liked [])
   \<and> nodes (world (snd (delete_api_publicaciones example_env one_foto (Some foto))))
       ''/var/data/data/publicaciones.json'' = Some (File ''[]'')
   \<and> nodes (world (snd (delete_api_publicaciones example_env one_foto (Some foto))))
       ''/var/data/data/likes.json'' = Some (File ''[bob;]'')"
proof -
  let ?r = "delete_api_publicaciones example_env one_foto (Some foto)"
  let ?f = "delete_api_publicaciones example_env one_foto_locked (Some foto)"
  have a: "\<forall>pub \<in> set (publicaciones ana_registered). \<not> same_key foto pub"
    by (simp add: ana_registered_def)
  have b: "foto \<in> set (publicaciones one_foto)" "same_key foto foto"
    "length (filter (same_key foto) (publicaciones one_foto)) = 1"
    "fst (get_api_likes one_foto (Some ''bob'')) = (200, Liked [Some foto])"
    "likes_defined (likes one_foto)"
    by (simp_all add: one_foto_def same_key_def get_api_likes_def likes_defined_def)
  have k: "foto \<in> set (publicaciones one_foto_locked)"
    "\<not> image_removable example_env (world one_foto_locked) foto"
    "publicaciones one_foto_locked = [foto]"
    by (simp_all add: one_foto_locked_def one_foto_def locked_not_removable)
  have c: "filter (\<lambda>lp. \<not> matches foto lp) [Some foto] = []"
    by (simp add: matches_def same_key_def)
  have d: "write_accepted example_env (image_removed example_env (world one_foto) foto)
       (publicacionesFilePath example_env)"
    "write_accepted example_env (image_removed example_env (world one_foto) foto)
       (likesFilePath example_env)"
    by (simp_all add: one_foto_image_removed example_paths blank_disk_accepts)
  have paths: "publicacionesFilePath example_env \<noteq> likesFilePath example_env"
    "likesFilePath example_env \<noteq> path_dirname example_env (publicacionesFilePath example_env)"
    "publicacionesFilePath example_env \<noteq> path_dirname example_env (likesFilePath example_env)"
    by (simp_all add: example_paths)
  note t1 = delete_post_cascades [of ana_registered foto example_env, THEN conjunct1,
      THEN mp, OF a]
  note t0 = delete_post_cascades [of one_foto_locked foto example_env foto,
      THEN conjunct2, THEN mp, THEN mp, OF k(1) b(2), THEN conjunct1, THEN mp, OF k(2)]
  note t2 = delete_post_cascades [of one_foto foto example_env foto "Some ''bob''"
      "[Some foto]", THEN conjunct2, THEN mp, THEN mp, OF b(1) b(2), THEN conjunct2,
      THEN mp, THEN mp, OF one_foto_removable b(5)]
  from t0 have f1: "fst ?f = (500, Message Error_al_eliminar_la_publicacion)"
    by blast
  from t0 have "publicaciones (snd ?f) = publicaciones one_foto_locked"
    by blast
  then have f2: "publicaciones (snd ?f) = [foto]"
    by (simp only: k(3))
  from t2 have r1: "fst ?r = (200, Message Publicacion_eliminada_exitosamente)"
    by blast
  from t2 b(3) have r2: "foto \<notin> set (publicaciones (snd ?r))"
    by blast
  from t2 have "likes (snd ?r) =
      map (\<lambda>like. like\<lparr>likedPublications :=
             filter (\<lambda>lp. \<not> matches foto lp) (likedPublications like)\<rparr>) (likes one_foto)"
    by blast
  then have r3: "likes (snd ?r) =
                   [\<lparr>like_entry.username = Some ''bob'', likedPublications = []\<rparr>]"
    by (simp add: one_foto_def matches_def same_key_def)
  from t2 b(4)
  have "fst (get_api_likes (snd ?r) (Some ''bob'')) =
          (200, Liked (filter (\<lambda>lp. \<not> matches foto lp) [Some foto]))"
    by blast
  then have r4: "fst (get_api_likes (snd ?r) (Some ''bob'')) = (200, Liked [])"
    by (simp only: c)
  from t2 have "publicaciones (snd ?r) =
      takeWhile (\<lambda>pub. \<not> same_key foto pub) (publicaciones one_foto)
        @ tl (dropWhile (\<lambda>pub. \<not> same_key foto pub) (publicaciones one_foto))"
    by blast
  then have r5: "publicaciones (snd ?r) = []"
    by (simp add: one_foto_def same_key_def)
  from t2 d paths
  have "nodes (world (snd ?r)) (publicacionesFilePath example_env) =
          Some (File (stringify_publicaciones example_env (publicaciones (snd ?r))))
        \<and> nodes (world (snd ?r)) (likesFilePath example_env) =
          Some (File (stringify_likes example_env (likes (snd ?r))))"
    by blast
  then have r6: "nodes (world (snd ?r)) ''/var/data/data/publicaciones.json'' =
        Some (File ''[]'')"
    and r7: "nodes (world (snd ?r)) ''/var/data/data/likes.json'' = Some (File ''[bob;]'')"
    by (simp_all only: r3 r5 example_paths) (simp_all add: example_env_def)
  have e: "publicaciones ana_registered = []"
    by (simp add: ana_registered_def)
  from e t1 k(1) b(2) k(2) f1 f2 b(1) one_foto_removable b(5) b(3) b(4) d r1 r2 r3 r4 r6 r7
  show ?thesis
    by blast
qed

text \<open>
  C1 as stated fails in three ways.
  \<^item> Another post has the same key: \<open>foto\<close> and \<open>foto_bis\<close> share image path and image
    name, and deleting by the key of \<open>foto_bis\<close> is answered 200 and removes \<open>foto\<close>;
    \<open>foto_bis\<close> is still in the post list.
  \<^item> The stored image cannot be unlinked: the deletion of \<open>foto\<close>, which is in the
    catalog, is answered 500, and \<open>foto\<close> and the liked record of \<open>bob\<close> are still
    there.
  \<^item> A liked record is \<open>undefined\<close>: after an upload and a like without a
    \<open>publication\<close>, the deletion of the uploaded post is answered 500 with the post
    spliced out and nothing written, so the file of the posts still lists it.
\<close>

theorem delete_post_counterexample:
  "foto_bis \<in> set (publicaciones two_fotos)
   \<and> fst (delete_api_publicaciones example_env two_fotos (Some foto_bis)) =
       (200, Message Publicacion_eliminada_exitosamente)
   \<and> foto_bis \<in> set (publicaciones (snd (delete_api_publicaciones example_env two_fotos
        (Some foto_bis))))
   \<and> foto \<in> set (publicaciones one_foto_locked)
   \<and> fst (delete_api_publicaciones example_env one_foto_locked (Some foto)) =
       (500, Message Error_al_eliminar_la_publicacion)
   \<and> publicaciones (snd (delete_api_publicaciones example_env one_foto_locked (Some foto))) =
       [foto]
   \<and> likes (snd (delete_api_publicaciones example_env one_foto_locked (Some foto))) =
       [\<lparr>like_entry.username = Some ''bob'', likedPublications = [Some foto]\<rparr>]
   \<and> foto \<in> set (publicaciones after_empty_like)
   \<and> fst (delete_api_publicaciones example_env after_empty_like (Some foto)) =
       (500, Message Error_al_eliminar_la_publicacion)
   \<and> publicaciones (snd (delete_api_publicaciones example_env after_empty_like (Some foto))) =
       []
   \<and> nodes (world (snd (delete_api_publicaciones example_env after_empty_like (Some foto))))
       (publicacionesFilePath example_env) =
       Some (File (stringify_publicaciones example_env [foto]))"
proof -
  have i: "findIndex (same_key foto_bis) (publicaciones two_fotos) = Some 0"
    "findIndex (same_key foto) (publicaciones one_foto_locked) = Some 0"
    "findIndex (same_key foto) (publicaciones after_empty_like) = Some 0"
    by (simp_all add: two_fotos_def one_foto_locked_def one_foto_def after_empty_like_arrays
        same_key_def foto_def foto_bis_def)
  have d: "likes_defined (likes two_fotos)"
    by (simp add: likes_defined_def two_fotos_def)
  have l: "\<not> image_removable example_env (world one_foto_locked) foto"
    by (simp add: one_foto_locked_def locked_not_removable)
  have r: "image_removable example_env (world after_empty_like) foto"
    by (simp add: image_removable_def foto_def foto_file existsSync_def Let_def
        after_empty_like_file)
  have u: "\<not> likes_defined (likes after_empty_like)"
    by (simp add: likes_defined_def after_empty_like_arrays)
  have w: "image_removed example_env (world after_empty_like) foto = world after_empty_like"
    by (simp add: image_removed_def foto_def foto_file existsSync_def Let_def
        after_empty_like_file)
  have a: "foto_bis \<in> set (publicaciones two_fotos)
   \<and> fst (delete_api_publicaciones example_env two_fotos (Some foto_bis)) =
       (200, Message Publicacion_eliminada_exitosamente)
   \<and> foto_bis \<in> set (publicaciones (snd (delete_api_publicaciones example_env two_fotos
        (Some foto_bis))))"
    unfolding delete_api_publicaciones_ok [OF i(1) two_fotos_removable d]
    by (simp add: two_fotos_def splice1_def)
  have b: "foto \<in> set (publicaciones one_foto_locked)
   \<and> fst (delete_api_publicaciones example_env one_foto_locked (Some foto)) =
       (500, Message Error_al_eliminar_la_publicacion)
   \<and> publicaciones (snd (delete_api_publicaciones example_env one_foto_locked (Some foto))) =
       [foto]
   \<and> likes (snd (delete_api_publicaciones example_env one_foto_locked (Some foto))) =
       [\<lparr>like_entry.username = Some ''bob'', likedPublications = [Some foto]\<rparr>]"
    unfolding delete_api_publicaciones_failed [OF i(2) l]
    by (simp add: one_foto_locked_def one_foto_def)
  have c: "foto \<in> set (publicaciones after_empty_like)
   \<and> fst (delete_api_publicaciones example_env after_empty_like (Some foto)) =
       (500, Message Error_al_eliminar_la_publicacion)
   \<and> publicaciones (snd (delete_api_publicaciones example_env after_empty_like (Some foto))) =
       []
   \<and> nodes (world (snd (delete_api_publicaciones example_env after_empty_like (Some foto))))
       (publicacionesFilePath example_env) =
       Some (File (stringify_publicaciones example_env [foto]))"
    unfolding delete_api_publicaciones_threw [OF i(3) r u] w
    by (simp add: after_empty_like_arrays splice1_def nodes_console_log example_paths
        after_empty_like_file)
       (simp add: example_env_def foto_def)
  from a b c show ?thesis
    by blast
qed

subsection \<open>The earlier revision\<close>

text \<open>
  What the theorems above say of \<open>server.js\<close> and the earlier revision does
  differently. Its \<open>readJsonFile\<close> returns the empty array for a missing file and
  writes nothing (it has no disk to return), and a file that does not parse makes it
  throw.
\<close>

lemma readJsonFile_0_cases:
  "(\<not> existsSync w p \<longrightarrow> readJsonFile_0 parse w p = Some [])
   \<and> (existsSync w p \<longrightarrow> readFileSync w p = Some text \<longrightarrow>
        readJsonFile_0 parse w p = parse text)"
  by (simp add: readJsonFile_0_def)

lemma readJsonFile_0_throws:
  "readJsonFile_0 (parse_usuarios example_env) damaged_disk ''/var/data/data/usuarios.json'' = None"
  by (simp add: readJsonFile_0_def existsSync_def readFileSync_def damaged_disk_def
      example_env_def)

text \<open>
  Its registration has no test of the fields: any username that is not stored, the
  empty one too, is registered with any password that \<open>bcrypt.hash\<close> accepts.
\<close>

lemma post_api_usuarios_0_no_check:
  assumes "\<forall>x \<in> set (usuarios st). user.username x \<noteq> u"
    and "bcrypt_hash E p 10 = Some h"
  shows "usuarios (snd (post_api_usuarios_0 E st u p)) =
           usuarios st @ [\<lparr>user.username = u, password = h\<rparr>]"
proof -
  from assms(1) have "find (\<lambda>x. user.username x = u) (usuarios st) = None"
    by (auto simp: find_None_iff)
  with assms(2) show ?thesis
    by (simp add: post_api_usuarios_0_def Let_def split: option.splits)
qed

lemma post_api_usuarios_0_empty_password:
  "post_api_usuarios_0 example_env (empty_state blank_disk) ''ana'' '''' =
     ((201, Message Usuario_creado_exitosamente),
      \<lparr>usuarios = [\<lparr>user.username = ''ana'', password = ''$2a$10$''\<rparr>],
       publicaciones = [], likes = [],
       world = blank_disk\<lparr>nodes := (nodes blank_disk)
                 (''/var/data/data/usuarios.json'' \<mapsto> File ''[ana:$2a$10$;]'')\<rparr>\<rparr>)"
  by (simp add: post_api_usuarios_0_def writeJsonFile_0_def writeFileSync_def Let_def
      empty_state_def blank_disk_def example_env_def usuariosFilePath_def)

text \<open>
  With every password a string, a stored username is refused whatever the password, and
  a registration answered 201 leaves exactly one record of the username.
\<close>

lemma post_api_usuarios_0_twice:
  assumes "fst (post_api_usuarios_0 E st u p1) = (201, Message Usuario_creado_exitosamente)"
  shows "length (filter (\<lambda>x. user.username x = u)
                   (usuarios (snd (post_api_usuarios_0 E st u p1)))) = 1
         \<and> post_api_usuarios_0 E (snd (post_api_usuarios_0 E st u p1)) u p2 =
             ((400, Message El_usuario_ya_existe), snd (post_api_usuarios_0 E st u p1))"
proof -
  from assms obtain h where
    none: "find (\<lambda>x. user.username x = u) (usuarios st) = None"
    and us: "usuarios (snd (post_api_usuarios_0 E st u p1)) =
               usuarios st @ [\<lparr>user.username = u, password = h\<rparr>]"
    by (auto simp: post_api_usuarios_0_def Let_def split: option.splits)
  from none have "filter (\<lambda>x. user.username x = u) (usuarios st) = []"
    by (auto simp: find_None_iff filter_empty_conv)
  then have one: "length (filter (\<lambda>x. user.username x = u)
                     (usuarios (snd (post_api_usuarios_0 E st u p1)))) = 1"
    by (simp add: us)
  have "find (\<lambda>x. user.username x = u) (usuarios (snd (post_api_usuarios_0 E st u p1))) \<noteq> None"
    by (auto simp: us find_None_iff)
  then have "post_api_usuarios_0 E (snd (post_api_usuarios_0 E st u p1)) u p2 =
             ((400, Message El_usuario_ya_existe), snd (post_api_usuarios_0 E st u p1))"
    by (auto simp: post_api_usuarios_0_def [of E "snd (post_api_usuarios_0 E st u p1)"]
        split: option.splits)
  with one show ?thesis
    by blast
qed

text \<open>
  A write that fails after the \<open>push\<close> is answered 500 with the record already in the
  array: in the earlier revision an error path can append.
\<close>

lemma post_api_usuarios_0_error_appends:
  assumes "\<forall>x \<in> set (usuarios st). user.username x \<noteq> u"
    and "bcrypt_hash E p 10 = Some h"
    and "throws (world st) (WriteFileSync (usuariosFilePath E))"
  shows "post_api_usuarios_0 E st u p =
           ((500, Message Error_al_crear_el_usuario),
            st\<lparr>usuarios := usuarios st @ [\<lparr>user.username = u, password = h\<rparr>]\<rparr>)"
proof -
  from assms(1) have "find (\<lambda>x. user.username x = u) (usuarios st) = None"
    by (auto simp: find_None_iff)
  with assms(2,3) show ?thesis
    by (simp add: post_api_usuarios_0_def writeJsonFile_0_def writeFileSync_def Let_def)
qed

text \<open>Its upload appends a post that has no timestamp.\<close>

lemma post_api_upload_0_no_timestamp:
  "publicaciones (snd (post_api_upload_0 E host st (Some filename) u d n)) =
     publicaciones st @
       [\<lparr>imagePath = Some (''http://'' @ host @ ''/uploads/'' @ filename), imageName = n,
         description = d, post.username = u, timestamp = None\<rparr>]"
  by (simp add: post_api_upload_0_def Let_def split: option.splits)


end
